(* ===== verification/Prelude.thy ===== *)
theory Prelude
  imports Main "HOL-Library.AList" "HOL-Library.Sublist"
begin

text \<open>
  Shared vocabulary of the development: Python strings, ordered dictionaries, JSON values,
  exceptions, and the state-and-exception programs in which the request handlers are written.

  A Python \<open>str\<close> is a \<open>string\<close> whose characters are code points below 256. HTTP header values
  are decoded as Latin-1 by the server, so this is exact for them; form values and configuration
  text outside Latin-1 are outside the model. A \<open>dict\<close> is an association list with distinct keys
  in insertion order: \<open>AList.update\<close> overwrites in place and appends a new key at the end, which
  is what \<open>d[k] = v\<close> does. JSON values have no floating point numbers.
\<close>

named_theorems py_simps \<open>evaluation of the string, dictionary and JSON helpers\<close>
named_theorems prog_simps \<open>unfolding of the program combinators\<close>

section \<open>Ordered dictionaries\<close>

type_synonym ('k, 'v) dict = "('k \<times> 'v) list"

abbreviation dget :: "('k, 'v) dict \<Rightarrow> 'k \<Rightarrow> 'v option" where
  "dget d k \<equiv> map_of d k"

abbreviation dset :: "('k, 'v) dict \<Rightarrow> 'k \<Rightarrow> 'v \<Rightarrow> ('k, 'v) dict" where
  "dset d k v \<equiv> AList.update k v d"

abbreviation dpop :: "('k, 'v) dict \<Rightarrow> 'k \<Rightarrow> ('k, 'v) dict" where
  "dpop d k \<equiv> AList.delete k d"

abbreviation dkeys :: "('k, 'v) dict \<Rightarrow> 'k list" where
  "dkeys d \<equiv> map fst d"

abbreviation dhas :: "('k, 'v) dict \<Rightarrow> 'k \<Rightarrow> bool" where
  "dhas d k \<equiv> k \<in> fst ` set d"

text \<open>\<open>d.update(e)\<close>, and the dictionary comprehension over a list of pairs.\<close>

definition dict_update :: "('k, 'v) dict \<Rightarrow> ('k, 'v) dict \<Rightarrow> ('k, 'v) dict" where
  "dict_update d e = fold (\<lambda>(k, v) acc. dset acc k v) e d"

definition dict_of :: "('k \<times> 'v) list \<Rightarrow> ('k, 'v) dict" where
  "dict_of ps = dict_update [] ps"

definition dict_ok :: "('k, 'v) dict \<Rightarrow> bool" where
  "dict_ok d = distinct (dkeys d)"

lemma dget_dset [simp]: "dget (dset d k v) = (dget d)(k \<mapsto> v)"
  by (rule update_conv')

lemma dget_dpop [simp]: "dget (dpop d k) = (dget d)(k := None)"
  by (rule delete_conv')

lemma dict_ok_Nil [simp]: "dict_ok []"
  by (simp add: dict_ok_def)

lemma dict_ok_dset [simp]: "dict_ok d \<Longrightarrow> dict_ok (dset d k v)"
  by (simp add: dict_ok_def distinct_update)

lemma dict_ok_dpop [simp]: "dict_ok d \<Longrightarrow> dict_ok (dpop d k)"
  by (simp add: dict_ok_def distinct_delete)

lemma dict_update_Nil [simp]: "dict_update d [] = d"
  by (simp add: dict_update_def)

lemma dict_update_Cons [simp]:
  "dict_update d ((k, v) # e) = dict_update (dset d k v) e"
  by (simp add: dict_update_def)

lemma dict_ok_dict_update [simp]: "dict_ok d \<Longrightarrow> dict_ok (dict_update d e)"
  by (induction e arbitrary: d) auto

lemma dict_ok_dict_of [simp]: "dict_ok (dict_of ps)"
  by (simp add: dict_of_def)

lemma set_dset_subset: "set (dset d k v) \<subseteq> insert (k, v) (set d)"
  by (induction d) auto

lemma dget_dict_update_rev: "dget (dict_update d e) = dget d ++ dget (rev e)"
  by (induction e arbitrary: d) (auto simp: fun_eq_iff map_add_def split: option.splits)

lemma dget_rev_ok: "dict_ok e \<Longrightarrow> dget (rev e) = dget e"
proof (induction e)
  case (Cons p e)
  then show ?case
    by (cases p) (auto simp: dict_ok_def fun_eq_iff map_add_def map_of_eq_None_iff[symmetric]
        split: option.splits)
qed simp

lemma dget_dict_update: "dict_ok e \<Longrightarrow> dget (dict_update d e) = dget d ++ dget e"
  by (simp add: dget_dict_update_rev dget_rev_ok)

text \<open>The last pair of a key wins, as in the comprehension.\<close>

lemma dget_dict_of: "dget (dict_of ps) = dget (rev ps)"
  by (simp add: dict_of_def dget_dict_update_rev)

lemma set_dict_update_subset: "set (dict_update d e) \<subseteq> set d \<union> set e"
proof (induction e arbitrary: d)
  case (Cons p e)
  obtain k v where "p = (k, v)" by (cases p)
  with Cons.IH [of "dset d k v"] set_dset_subset [of k v d] show ?case by auto
qed simp

lemma set_dict_of_subset: "set (dict_of ps) \<subseteq> set ps"
  using set_dict_update_subset [of "[]" ps] by (simp add: dict_of_def)

text \<open>Copying a dictionary entry by entry gives it back.\<close>

lemma dict_of_id: "dict_ok kvs \<Longrightarrow> dict_of kvs = kvs"
proof -
  have "dict_ok (d @ kvs) \<Longrightarrow> dict_update d kvs = d @ kvs" for d
  proof (induction kvs arbitrary: d)
    case (Cons p kvs)
    obtain k v where p: "p = (k, v)" by (cases p)
    from Cons.prems have "k \<notin> set (dkeys d)" by (auto simp: dict_ok_def p)
    then have "dset d k v = d @ [(k, v)]"
      by (induction d) auto
    with Cons.IH [of "d @ [(k, v)]"] Cons.prems show ?case by (simp add: p)
  qed simp
  from this [of "[]"] show "dict_ok kvs \<Longrightarrow> dict_of kvs = kvs" by (simp add: dict_of_def)
qed

lemma dict_update_append: "dict_update d (e @ e') = dict_update (dict_update d e) e'"
  by (simp add: dict_update_def)

lemma dict_update_self: "dict_ok d \<Longrightarrow> dict_update [] d = d"
  using dict_of_id by (simp add: dict_of_def)

lemma dhas_iff: "dhas d k \<longleftrightarrow> dget d k \<noteq> None"
  by (induction d) auto

lemma dget_filter_keys:
  "dget (filter (\<lambda>(k, v). P k) d) k = (if P k then dget d k else None)"
  by (induction d) auto

lemma dget_map_values: "dget (map (\<lambda>(k, v). (k, f k v)) d) k = map_option (f k) (dget d k)"
  by (induction d) auto

lemma dget_in_set: "dget d k = Some v \<Longrightarrow> (k, v) \<in> set d"
  by (rule map_of_SomeD)

section \<open>Exceptions and programs\<close>

text \<open>
  A handler is a function from the state to a result and the state it leaves behind. An exception
  keeps the state changes made before it, as in Python. \<open>bindP m f\<close> runs \<open>m\<close>, then \<open>f\<close> on its
  result; an exception of \<open>m\<close> skips \<open>f\<close>. \<open>bindE\<close> is the same without a state.
\<close>

type_synonym ('e, 's, 'a) prog = "'s \<Rightarrow> ('e + 'a) \<times> 's"

definition bindE :: "'e + 'a \<Rightarrow> ('a \<Rightarrow> 'e + 'b) \<Rightarrow> 'e + 'b" where
  "bindE r f = (case r of Inl e \<Rightarrow> Inl e | Inr x \<Rightarrow> f x)"

definition retP :: "'a \<Rightarrow> ('e, 's, 'a) prog" where
  "retP x = (\<lambda>s. (Inr x, s))"

definition throwP :: "'e \<Rightarrow> ('e, 's, 'a) prog" where
  "throwP e = (\<lambda>s. (Inl e, s))"

definition liftP :: "'e + 'a \<Rightarrow> ('e, 's, 'a) prog" where
  "liftP r = (\<lambda>s. (r, s))"

definition bindP :: "('e, 's, 'a) prog \<Rightarrow> ('a \<Rightarrow> ('e, 's, 'b) prog) \<Rightarrow> ('e, 's, 'b) prog" where
  "bindP m f = (\<lambda>s. case m s of (Inl e, s') \<Rightarrow> (Inl e, s') | (Inr x, s') \<Rightarrow> f x s')"

definition getsP :: "('s \<Rightarrow> 'a) \<Rightarrow> ('e, 's, 'a) prog" where
  "getsP g = (\<lambda>s. (Inr (g s), s))"

text \<open>A stateful call that cannot raise.\<close>

definition callP :: "('s \<Rightarrow> 'a \<times> 's) \<Rightarrow> ('e, 's, 'a) prog" where
  "callP g = (\<lambda>s. case g s of (x, s') \<Rightarrow> (Inr x, s'))"

lemma bindE_Inl [simp]: "bindE (Inl e) f = Inl e"
  and bindE_Inr [simp]: "bindE (Inr x) f = f x"
  by (simp_all add: bindE_def)

lemma bindE_eq_Inr: "bindE r f = Inr y \<longleftrightarrow> (\<exists>x. r = Inr x \<and> f x = Inr y)"
  by (cases r) auto

lemma bindE_eq_Inl: "bindE r f = Inl e \<longleftrightarrow> r = Inl e \<or> (\<exists>x. r = Inr x \<and> f x = Inl e)"
  by (cases r) auto

lemma bindE_assoc: "bindE (bindE r f) g = bindE r (\<lambda>x. bindE (f x) g)"
  by (cases r) auto

lemma retP_apply [simp]: "retP x s = (Inr x, s)"
  by (simp add: retP_def)

lemma throwP_apply [simp]: "throwP e s = (Inl e, s)"
  by (simp add: throwP_def)

lemma liftP_apply [simp]: "liftP r s = (r, s)"
  by (simp add: liftP_def)

lemma getsP_apply [simp]: "getsP g s = (Inr (g s), s)"
  by (simp add: getsP_def)

lemma callP_apply: "callP g s = (Inr (fst (g s)), snd (g s))"
  by (simp add: callP_def split: prod.split)

lemma bindP_apply:
  "bindP m f s = (case m s of (Inl e, s') \<Rightarrow> (Inl e, s') | (Inr x, s') \<Rightarrow> f x s')"
  by (simp add: bindP_def)

lemma bindP_throw [simp]: "bindP (throwP e) f = throwP e"
  and bindP_ret [simp]: "bindP (retP x) f = f x"
  by (simp_all add: bindP_def fun_eq_iff)

lemma bindP_lift_Inl [simp]: "bindP (liftP (Inl e)) f = throwP e"
  and bindP_lift_Inr [simp]: "bindP (liftP (Inr x)) f = f x"
  by (simp_all add: bindP_def fun_eq_iff)

lemma bindP_assoc: "bindP (bindP m f) g = bindP m (\<lambda>x. bindP (f x) g)"
  by (auto simp: bindP_def fun_eq_iff split: prod.splits sum.splits)

text \<open>Inversion of a run that returned: the way every success property of a handler starts.\<close>

lemma bindP_InrE:
  assumes "bindP m f s = (Inr y, t)"
  obtains x u where "m s = (Inr x, u)" and "f x u = (Inr y, t)"
  using assms by (auto simp: bindP_def split: prod.splits sum.splits)

lemma liftP_InrD: "liftP r s = (Inr x, t) \<Longrightarrow> r = Inr x \<and> t = s"
  by simp

lemmas prog_unfold [prog_simps] =
  bindP_apply retP_def throwP_def liftP_def getsP_def callP_apply

end
