(* ===== verification/PyData.thy ===== *)
theory PyData
  imports Prelude
begin

text \<open>
  The string methods and the \<open>int\<close> and \<open>str\<close> conversions the program calls, and JSON values. They
  are the Python standard library's, restricted to code points below 256 (see Prelude).
\<close>

section \<open>Characters and strings\<close>

definition code :: "char \<Rightarrow> nat" where
  "code c = of_char c"

text \<open>\<open>str.isspace\<close>, the characters \<open>str.strip()\<close> removes; \<open>int()\<close> skips a smaller set.\<close>

definition py_space :: "char \<Rightarrow> bool" where
  "py_space c = (code c \<in> {9, 10, 11, 12, 13, 28, 29, 30, 31, 32, 133, 160})"

definition int_space :: "char \<Rightarrow> bool" where
  "int_space c = (code c \<in> {9, 10, 11, 12, 13, 32, 133, 160})"

definition strip_with :: "(char \<Rightarrow> bool) \<Rightarrow> string \<Rightarrow> string" where
  "strip_with p s = rev (dropWhile p (rev (dropWhile p s)))"

definition py_strip :: "string \<Rightarrow> string" where
  "py_strip s = strip_with py_space s"

definition lower_char :: "char \<Rightarrow> char" where
  "lower_char c = (let n = code c in
     if 65 \<le> n \<and> n \<le> 90 \<or> 192 \<le> n \<and> n \<le> 222 \<and> n \<noteq> 215 then char_of (n + 32) else c)"

definition py_lower :: "string \<Rightarrow> string" where
  "py_lower s = map lower_char s"

text \<open>\<open>s.split(c)\<close> for a one-character separator: never empty, keeps empty pieces.\<close>

fun split_on :: "char \<Rightarrow> string \<Rightarrow> string list" where
  "split_on c [] = [[]]"
| "split_on c (x # xs) =
     (if x = c then [] # split_on c xs
      else (case split_on c xs of [] \<Rightarrow> [[x]] | w # ws \<Rightarrow> (x # w) # ws))"

text \<open>\<open>sep.join(ws)\<close>.\<close>

fun py_join :: "string \<Rightarrow> string list \<Rightarrow> string" where
  "py_join sep [] = []"
| "py_join sep [w] = w"
| "py_join sep (w # v # ws) = w @ sep @ py_join sep (v # ws)"

text \<open>\<open>o or d\<close> for an optional string \<open>o\<close>: both \<open>None\<close> and the empty string are false.\<close>

definition str_or :: "string option \<Rightarrow> string \<Rightarrow> string" where
  "str_or o' d = (case o' of None \<Rightarrow> d | Some s \<Rightarrow> if s = [] then d else s)"

definition truthy_str :: "string option \<Rightarrow> bool" where
  "truthy_str o' = (case o' of None \<Rightarrow> False | Some s \<Rightarrow> s \<noteq> [])"

text \<open>\<open>[x.strip() for x in v.split(',') if x.strip()]\<close>.\<close>

definition comma_list :: "string \<Rightarrow> string list" where
  "comma_list v = filter (\<lambda>x. x \<noteq> []) (map py_strip (split_on CHR '','' v))"

lemma split_on_not_Nil [simp]: "split_on c s \<noteq> []"
  by (cases s) (auto split: list.split)

lemma join_split_on: "py_join [c] (split_on c s) = s"
proof (induction s)
  case (Cons x xs)
  then show ?case
    by (cases "split_on c xs"; cases "tl (split_on c xs)") auto
qed simp

lemma split_on_no_sep: "c \<notin> set s \<Longrightarrow> split_on c s = [s]"
  by (induction s) auto

lemma split_on_append_sep:
  "c \<notin> set w \<Longrightarrow> split_on c (w @ c # s) = w # split_on c s"
  by (induction w) auto

lemma split_on_no_sep_in: "w \<in> set (split_on c s) \<Longrightarrow> c \<notin> set w"
proof (induction s arbitrary: w)
  case (Cons x xs)
  show ?case
  proof (cases "split_on c xs")
    case (Cons v vs)
    with Cons.IH have "\<And>u. u \<in> set (v # vs) \<Longrightarrow> c \<notin> set u" by simp
    with Cons Cons.prems show ?thesis by (auto split: if_splits)
  qed simp
qed simp

lemma comma_list_non_empty: "w \<in> set (comma_list v) \<Longrightarrow> w \<noteq> []"
  by (auto simp: comma_list_def)

lemma py_lower_idem: "py_lower (py_lower s) = py_lower s"
proof -
  have "lower_char (lower_char c) = lower_char c" for c
    by (auto simp: lower_char_def code_def Let_def)
  then show ?thesis by (simp add: py_lower_def)
qed

lemma str_or_simps [simp]:
  "str_or None d = d" "str_or (Some []) d = d" "str_or (Some (c # s)) d = c # s"
  by (simp_all add: str_or_def)

lemma truthy_str_simps [simp]:
  "\<not> truthy_str None" "\<not> truthy_str (Some [])" "truthy_str (Some (c # s))"
  by (simp_all add: truthy_str_def)

lemma truthy_str_iff: "truthy_str v \<longleftrightarrow> (\<exists>s. v = Some s \<and> s \<noteq> [])"
  by (auto simp: truthy_str_def split: option.splits)

section \<open>Decimal numbers\<close>

definition digit_char :: "nat \<Rightarrow> char" where
  "digit_char n = char_of (48 + n)"

fun nat_str :: "nat \<Rightarrow> string" where
  "nat_str n = (if n < 10 then [digit_char n] else nat_str (n div 10) @ [digit_char (n mod 10)])"

declare nat_str.simps [simp del]

definition int_str :: "int \<Rightarrow> string" where
  "int_str i = (if i < 0 then CHR ''-'' # nat_str (nat (- i)) else nat_str (nat i))"

definition digit_val :: "char \<Rightarrow> nat option" where
  "digit_val c = (if 48 \<le> code c \<and> code c \<le> 57 then Some (code c - 48) else None)"

text \<open>Decimal digits, single underscores allowed between them.\<close>

fun scan_digits :: "string \<Rightarrow> nat list option" where
  "scan_digits [] = None"
| "scan_digits (c # cs) =
     (case digit_val c of
        None \<Rightarrow> None
      | Some d \<Rightarrow>
          (case cs of
             [] \<Rightarrow> Some [d]
           | c' # cs' \<Rightarrow>
               map_option (\<lambda>ds. d # ds)
                 (if c' = CHR ''_'' then scan_digits cs' else scan_digits cs)))"

definition digits_value :: "nat list \<Rightarrow> nat" where
  "digits_value ds = foldl (\<lambda>acc d. acc * 10 + d) 0 ds"

text \<open>
  \<open>int(s)\<close> on a string; \<open>None\<close> is the \<open>ValueError\<close>. The interpreter refuses more than 4300 digits
  (its default limit on the conversion).
\<close>

definition py_int :: "string \<Rightarrow> int option" where
  "py_int s =
     (let t = strip_with int_space s;
          neg = (case t of c # _ \<Rightarrow> c = CHR ''-'' | [] \<Rightarrow> False);
          body = (case t of c # r \<Rightarrow> if c = CHR ''-'' \<or> c = CHR ''+'' then r else t | [] \<Rightarrow> [])
      in case scan_digits body of
           None \<Rightarrow> None
         | Some ds \<Rightarrow>
             if length ds > 4300 then None
             else Some (if neg then - int (digits_value ds) else int (digits_value ds)))"

lemma digit_val_digit_char: "n < 10 \<Longrightarrow> digit_val (digit_char n) = Some n"
  by (simp add: digit_val_def digit_char_def code_def)

lemma digit_val_Some: "digit_val c = Some d \<Longrightarrow> d < 10 \<and> c = digit_char d"
  by (auto simp: digit_val_def digit_char_def code_def split: if_splits)

lemma nat_str_not_Nil [simp]: "nat_str n \<noteq> []"
  by (subst nat_str.simps) simp

lemma nat_str_digits: "c \<in> set (nat_str n) \<Longrightarrow> \<exists>d<10. c = digit_char d"
proof (induction n rule: nat_str.induct)
  case (1 n)
  show ?case
  proof (cases "n < 10")
    case True
    with 1(2) show ?thesis by (subst (asm) nat_str.simps) auto
  next
    case False
    with 1(2) have "c \<in> set (nat_str (n div 10)) \<or> c = digit_char (n mod 10)"
      by (subst (asm) nat_str.simps) auto
    moreover have "n mod 10 < 10" by simp
    ultimately show ?thesis using False 1(1) by blast
  qed
qed

lemma digit_char_code: "d < 10 \<Longrightarrow> code (digit_char d) = 48 + d"
  by (simp add: digit_char_def code_def)

lemma digit_char_neq: "d < 10 \<Longrightarrow> code c < 48 \<or> 57 < code c \<Longrightarrow> digit_char d \<noteq> c"
  using digit_char_code [of d] by auto

lemma nat_str_no_char: "code c < 48 \<or> 57 < code c \<Longrightarrow> c \<notin> set (nat_str n)"
  using nat_str_digits [of c n] digit_char_neq by blast

lemma scan_digits_snoc:
  assumes "scan_digits s = Some ds" and "d < 10"
  shows "scan_digits (s @ [digit_char d]) = Some (ds @ [d])"
  using assms
proof (induction s arbitrary: ds rule: scan_digits.induct)
  case (2 c cs)
  have nu: "digit_char d \<noteq> CHR ''_''"
    by (rule digit_char_neq [OF 2(4)]) (simp add: code_def)
  from 2(3) obtain e where e: "digit_val c = Some e"
    by (auto split: option.splits)
  show ?case
  proof (cases cs)
    case Nil
    with 2(3) e nu 2(4) show ?thesis by (simp add: digit_val_digit_char)
  next
    case (Cons c' cs')
    with 2 e show ?thesis by (auto split: if_splits)
  qed
qed simp

lemma nat_str_scan:
  "\<exists>ds. scan_digits (nat_str n) = Some ds \<and> digits_value ds = n \<and> length ds = length (nat_str n)"
proof (induction n rule: nat_str.induct)
  case (1 n)
  show ?case
  proof (cases "n < 10")
    case True
    then show ?thesis
      by (simp add: nat_str.simps [of n] digit_val_digit_char digits_value_def)
  next
    case False
    with 1 obtain ds where ds: "scan_digits (nat_str (n div 10)) = Some ds"
      "digits_value ds = n div 10" "length ds = length (nat_str (n div 10))" by auto
    from scan_digits_snoc [OF ds(1), of "n mod 10"] False ds(2,3) show ?thesis
      by (auto simp: nat_str.simps [of n] digits_value_def)
  qed
qed

lemma strip_with_id:
  assumes "s \<noteq> [] \<Longrightarrow> \<not> p (hd s) \<and> \<not> p (last s)"
  shows "strip_with p s = s"
proof (cases s)
  case (Cons a s')
  with assms have "dropWhile p s = s" by simp
  moreover have "dropWhile p (rev s) = rev s"
    using assms Cons by (cases "rev s") (auto simp: last_rev hd_rev [symmetric])
  ultimately show ?thesis by (simp add: strip_with_def)
qed (simp add: strip_with_def)

lemma int_space_digit_char: "d < 10 \<Longrightarrow> \<not> int_space (digit_char d)"
  by (auto simp: int_space_def digit_char_code)

text \<open>Printing then reading an integer gives it back, below the interpreter's digit limit.\<close>

lemma py_int_int_str:
  assumes "length (nat_str (nat \<bar>i\<bar>)) \<le> 4300"
  shows "py_int (int_str i) = Some i"
proof -
  let ?n = "nat \<bar>i\<bar>"
  obtain ds where ds: "scan_digits (nat_str ?n) = Some ds" "digits_value ds = ?n"
    "length ds = length (nat_str ?n)" using nat_str_scan by blast
  have ends: "\<not> int_space (hd (nat_str ?n))" "\<not> int_space (last (nat_str ?n))"
    using nat_str_digits [of "hd (nat_str ?n)" ?n] nat_str_digits [of "last (nat_str ?n)" ?n]
    by (auto simp: int_space_digit_char)
  obtain c r where cr: "nat_str ?n = c # r" by (cases "nat_str ?n") auto
  have c: "c \<noteq> CHR ''-''" "c \<noteq> CHR ''+''"
    using nat_str_no_char [of c ?n] cr by (auto simp: code_def)
  show ?thesis
  proof (cases "i < 0")
    case True
    have m: "\<not> int_space CHR ''-''" by (simp add: int_space_def code_def)
    from True have s: "int_str i = CHR ''-'' # nat_str ?n" by (simp add: int_str_def)
    have "strip_with int_space (int_str i) = int_str i"
      using m ends(2) by (intro strip_with_id) (simp add: s)
    with True s ds assms show ?thesis by (simp add: py_int_def)
  next
    case False
    then have s: "int_str i = nat_str ?n" by (simp add: int_str_def)
    have "strip_with int_space (int_str i) = int_str i"
      using ends by (intro strip_with_id) (simp add: s)
    with False s ds assms cr c show ?thesis by (simp add: py_int_def)
  qed
qed

lemma int_str_1: "int_str 1 = ''1''"
  by code_simp

section \<open>repr of a string\<close>

definition hex_digit :: "nat \<Rightarrow> char" where
  "hex_digit n = (if n < 10 then char_of (48 + n) else char_of (87 + n))"

definition repr_char :: "char \<Rightarrow> char \<Rightarrow> string" where
  "repr_char q c =
     (let n = code c in
      if c = q \<or> c = char_of (92::nat) then [char_of (92::nat), c]
      else if n = 9 then [char_of (92::nat), CHR ''t'']
      else if n = 10 then [char_of (92::nat), CHR ''n'']
      else if n = 13 then [char_of (92::nat), CHR ''r'']
      else if n < 32 \<or> 127 \<le> n \<and> n \<le> 160 \<or> n = 173
        then [char_of (92::nat), CHR ''x'', hex_digit (n div 16), hex_digit (n mod 16)]
      else [c])"

definition py_repr_str :: "string \<Rightarrow> string" where
  "py_repr_str s =
     (let q = (if char_of (39::nat) \<in> set s \<and> char_of (34::nat) \<notin> set s
               then char_of (34::nat) else char_of (39::nat))
      in q # concat (map (repr_char q) s) @ [q])"

section \<open>JSON values\<close>

text \<open>
  The values of claims, of form and configuration data and of response bodies. An object is an
  ordered dictionary with string keys.
\<close>

datatype json =
    JNull
  | JBool bool
  | JInt int
  | JStr string
  | JList "json list"
  | JObj "(string \<times> json) list"

type_synonym claims = "(string, json) dict"

abbreviation jstrs :: "string list \<Rightarrow> json" where
  "jstrs ws \<equiv> JList (map JStr ws)"

definition jopt :: "string option \<Rightarrow> json" where
  "jopt v = (case v of None \<Rightarrow> JNull | Some s \<Rightarrow> JStr s)"

text \<open>Python's truth value of a JSON value.\<close>

fun truthy :: "json \<Rightarrow> bool" where
  "truthy JNull = False"
| "truthy (JBool b) = b"
| "truthy (JInt i) = (i \<noteq> 0)"
| "truthy (JStr s) = (s \<noteq> [])"
| "truthy (JList xs) = (xs \<noteq> [])"
| "truthy (JObj kvs) = (kvs \<noteq> [])"

text \<open>
  The number a value counts as in \<open>v < n\<close> and \<open>v - n\<close>; \<open>None\<close> where these raise \<open>TypeError\<close>.
  A \<open>bool\<close> is an \<open>int\<close> in Python.
\<close>

fun num_of :: "json \<Rightarrow> int option" where
  "num_of (JInt i) = Some i"
| "num_of (JBool b) = Some (if b then 1 else 0)"
| "num_of _ = None"

fun py_repr :: "json \<Rightarrow> string" where
  "py_repr JNull = ''None''"
| "py_repr (JBool b) = (if b then ''True'' else ''False'')"
| "py_repr (JInt i) = int_str i"
| "py_repr (JStr s) = py_repr_str s"
| "py_repr (JList xs) = ''['' @ py_join '', '' (map py_repr xs) @ '']''"
| "py_repr (JObj kvs) =
     ''{'' @ py_join '', '' (map (\<lambda>(k, v). py_repr_str k @ '': '' @ py_repr v) kvs) @ ''}''"

text \<open>\<open>str(v)\<close>: a string is itself, everything else its \<open>repr\<close>.\<close>

definition py_str :: "json \<Rightarrow> string" where
  "py_str v = (case v of JStr s \<Rightarrow> s | _ \<Rightarrow> py_repr v)"

section \<open>Exceptions\<close>

text \<open>
  What a handler can raise: FastAPI's \<open>HTTPException\<close> with its status, detail and headers, or a
  Python exception nothing catches, which the server answers with a 500.
\<close>

datatype py_exn =
    KeyError string
  | ValueError string
  | IndexError
  | TypeError
  | AttributeError
  | ImportError string
  | RuntimeError string
  | LibraryError string

datatype exn =
    HTTPException nat json "(string \<times> string) list"
  | PyError py_exn

abbreviation http :: "nat \<Rightarrow> json \<Rightarrow> exn" where
  "http status detail \<equiv> HTTPException status detail []"

text \<open>The \<open>detail\<close> dictionary with an error code and a description.\<close>

definition oauth_detail :: "string \<Rightarrow> string \<Rightarrow> json" where
  "oauth_detail err desc = JObj [(''error'', JStr err), (''error_description'', JStr desc)]"

text \<open>\<open>claims.get('exp', 0) < now\<close> and \<open>max(0, claims['exp'] - now)\<close>.\<close>

definition exp_before :: "claims \<Rightarrow> int \<Rightarrow> exn + bool" where
  "exp_before c now =
     (case num_of (case dget c ''exp'' of None \<Rightarrow> JInt 0 | Some v \<Rightarrow> v) of
        None \<Rightarrow> Inl (PyError TypeError) | Some e \<Rightarrow> Inr (e < now))"

definition seconds_left :: "claims \<Rightarrow> int \<Rightarrow> exn + int" where
  "seconds_left c now =
     (case dget c ''exp'' of
        None \<Rightarrow> Inl (PyError (KeyError ''exp''))
      | Some v \<Rightarrow>
          (case num_of v of None \<Rightarrow> Inl (PyError TypeError) | Some e \<Rightarrow> Inr (max 0 (e - now))))"

lemma seconds_left_nonneg: "seconds_left c now = Inr n \<Longrightarrow> 0 \<le> n"
  by (auto simp: seconds_left_def split: option.splits)

lemma seconds_left_int: "dget c ''exp'' = Some (JInt e) \<Longrightarrow> seconds_left c now = Inr (max 0 (e - now))"
  by (simp add: seconds_left_def)

lemma exp_before_int: "dget c ''exp'' = Some (JInt e) \<Longrightarrow> exp_before c now = Inr (e < now)"
  by (simp add: exp_before_def)

end
