(* ===== verification/Models.thy ===== *)
theory Models
  imports Complex_Main PyData
begin

text \<open>
  The records of \<open>models.py\<close> and their field validators. The fields a user and a service principal
  share are one base record that both extend, so that \<open>id_roles\<close> reads either. Field types are the
  declared ones; a \<open>float\<close> is a rational. Parsing a YAML document into these records is Pydantic's
  work and is a parameter of the stores that call it; \<open>validated_config\<close> states what its documented
  execution of the validators guarantees.
\<close>

section \<open>Identities\<close>

record identity_fields =
  id_tid :: string
  id_token_version :: string
  id_token_lifetime_seconds :: int
  id_signing_alg :: string
  id_realm_roles :: "string list"
  id_tenant_realm_roles :: "string list"
  id_provider :: string
  id_roles :: "string list"
  id_groups :: "string list"
  id_allowed_audiences :: "string list"
  id_extra_claims :: claims

record user_record = identity_fields +
  u_password :: string
  u_upn :: "string option"
  u_preferred_username :: "string option"
  u_oid :: string

record sp_record = identity_fields +
  sp_client_id :: "string option"
  sp_secret :: string
  sp_label :: "string option"
  sp_override_any_claim :: bool
  sp_override_iss_too :: bool
  sp_canonical_id :: string
  sp_name :: string

text \<open>A value the code tests with \<open>isinstance(identity, ServicePrincipalRecord)\<close>.\<close>

datatype identity = UserId user_record | SpId sp_record

text \<open>\<open>UserRecord(password=pw)\<close> and \<open>ServicePrincipalRecord(secret=s)\<close>: every other field default.\<close>

definition new_user :: "string \<Rightarrow> user_record" where
  "new_user pw =
     \<lparr>id_tid = [], id_token_version = ''v2'', id_token_lifetime_seconds = 3600,
      id_signing_alg = ''RS256'', id_realm_roles = [], id_tenant_realm_roles = [],
      id_provider = ''entra_id'', id_roles = [], id_groups = [], id_allowed_audiences = [],
      id_extra_claims = [],
      u_password = pw, u_upn = None, u_preferred_username = None,
      u_oid = ''00000000-0000-0000-0000-000000000000''\<rparr>"

definition new_sp :: "string \<Rightarrow> sp_record" where
  "new_sp s =
     \<lparr>id_tid = [], id_token_version = ''v1'', id_token_lifetime_seconds = 3600,
      id_signing_alg = ''RS256'', id_realm_roles = [], id_tenant_realm_roles = [],
      id_provider = ''entra_id'', id_roles = [], id_groups = [], id_allowed_audiences = [],
      id_extra_claims = [],
      sp_client_id = None, sp_secret = s, sp_label = None, sp_override_any_claim = False,
      sp_override_iss_too = False, sp_canonical_id = [], sp_name = []\<rparr>"

section \<open>Resource applications, tenants, configuration\<close>

record client_app =
  app_id :: "string option"
  app_label :: "string option"
  app_roles :: "string list"
  app_grants :: "(string, string list) dict"

record tenant =
  tn_provider :: string
  tn_realm_roles :: "string list"
  tn_users :: "(string, user_record) dict"
  tn_service_principals :: "(string, sp_record) dict"
  tn_clients :: "(string, client_app) dict"

record webhook =
  wh_url :: string
  wh_events :: "string list"
  wh_timeout_seconds :: rat

record app_config =
  cfg_auth_mode :: string
  cfg_cors_allow_origins :: "string list"
  cfg_admin_token :: string
  cfg_issuer_modes :: "(string, string) dict"
  cfg_webhooks :: "webhook list"
  cfg_tenants :: "(string, tenant) dict"

text \<open>\<open>AppConfig()\<close>, the configuration of an empty document.\<close>

definition default_config :: app_config where
  "default_config =
     \<lparr>cfg_auth_mode = ''lax'', cfg_cors_allow_origins = [''*''], cfg_admin_token = ''change-me'',
      cfg_issuer_modes = [], cfg_webhooks = [], cfg_tenants = []\<rparr>"

section \<open>Field validators\<close>

text \<open>Each returns the accepted value, or the message of its \<open>ValueError\<close>.\<close>

definition one_of_two :: "string \<Rightarrow> string \<Rightarrow> string \<Rightarrow> string" where
  "one_of_two what a b = what @ '' must be '' @ py_repr_str a @ '' or '' @ py_repr_str b"

definition coerce_password :: "json \<Rightarrow> string" where
  "coerce_password v = py_str v"

definition coerce_secret :: "json \<Rightarrow> string" where
  "coerce_secret v = py_str v"

definition user_valid_version :: "string \<Rightarrow> string + string" where
  "user_valid_version v =
     (if v \<notin> {''v1'', ''v2''} then Inl (one_of_two ''token_version'' ''v1'' ''v2'') else Inr v)"

definition user_valid_signing_alg :: "string \<Rightarrow> string + string" where
  "user_valid_signing_alg v =
     (if v \<notin> {''RS256'', ''ES256''}
      then Inl (one_of_two ''signing_alg'' ''RS256'' ''ES256'') else Inr v)"

definition sp_valid_version :: "string \<Rightarrow> string + string" where
  "sp_valid_version v =
     (if v \<notin> {''v1'', ''v2''} then Inl (one_of_two ''token_version'' ''v1'' ''v2'') else Inr v)"

definition sp_valid_signing_alg :: "string \<Rightarrow> string + string" where
  "sp_valid_signing_alg v =
     (if v \<notin> {''RS256'', ''ES256''}
      then Inl (one_of_two ''signing_alg'' ''RS256'' ''ES256'') else Inr v)"

definition valid_mode :: "string \<Rightarrow> string + string" where
  "valid_mode v =
     (let m = py_lower v in
      if m \<notin> {''lax'', ''strict''} then Inl (one_of_two ''auth_mode'' ''lax'' ''strict'') else Inr m)"

text \<open>The loop over \<open>issuer_modes\<close>: the first bad mode aborts it.\<close>

fun valid_issuer_modes ::
  "(string, string) dict \<Rightarrow> (string, string) dict \<Rightarrow> string + (string, string) dict" where
  "valid_issuer_modes result [] = Inr result"
| "valid_issuer_modes result ((slug, mode) # v) =
     (let m = py_lower mode in
      if m \<notin> {''lax'', ''strict''}
      then Inl (one_of_two (''issuer_modes['' @ py_repr_str slug @ '']'') ''lax'' ''strict'')
      else valid_issuer_modes (dset result slug m) v)"

section \<open>What validation guarantees\<close>

definition valid_identity :: "'a identity_fields_scheme \<Rightarrow> bool" where
  "valid_identity i =
     (id_token_version i \<in> {''v1'', ''v2''} \<and> id_signing_alg i \<in> {''RS256'', ''ES256''})"

definition valid_tenant :: "tenant \<Rightarrow> bool" where
  "valid_tenant t =
     ((\<forall>u \<in> snd ` set (tn_users t). valid_identity u) \<and>
      (\<forall>s \<in> snd ` set (tn_service_principals t). valid_identity s) \<and>
      dict_ok (tn_users t) \<and> dict_ok (tn_service_principals t) \<and> dict_ok (tn_clients t))"

definition valid_modes :: "(string, string) dict \<Rightarrow> bool" where
  "valid_modes d = (\<forall>m \<in> snd ` set d. m \<in> {''lax'', ''strict''})"

definition validated_config :: "app_config \<Rightarrow> bool" where
  "validated_config c =
     (cfg_auth_mode c \<in> {''lax'', ''strict''} \<and> valid_modes (cfg_issuer_modes c) \<and>
      dict_ok (cfg_issuer_modes c) \<and> dict_ok (cfg_tenants c) \<and>
      (\<forall>t \<in> snd ` set (cfg_tenants c). valid_tenant t))"

lemma valid_mode_range: "valid_mode v = Inr m \<Longrightarrow> m \<in> {''lax'', ''strict''}"
  by (auto simp: valid_mode_def Let_def split: if_splits)

lemma valid_modes_dset:
  "valid_modes d \<Longrightarrow> m \<in> {''lax'', ''strict''} \<Longrightarrow> valid_modes (dset d s m)"
  using set_dset_subset [of s m d] by (fastforce simp: valid_modes_def)

lemma valid_issuer_modes_range:
  "valid_issuer_modes r v = Inr d \<Longrightarrow> valid_modes r \<Longrightarrow> valid_modes d"
proof (induction r v rule: valid_issuer_modes.induct)
  case (2 r slug mode v)
  from 2(2) have m: "py_lower mode \<in> {''lax'', ''strict''}"
    by (auto simp: Let_def split: if_splits)
  moreover from this 2(2) have "valid_issuer_modes (dset r slug (py_lower mode)) v = Inr d"
    by (auto simp: Let_def)
  ultimately show ?case
    using 2(1) [OF refl _ _] 2(3) valid_modes_dset by (metis (no_types, lifting))
qed simp

text \<open>The accepted modes are the input's, lower-cased, slug by slug.\<close>

lemma valid_issuer_modes_value:
  "valid_issuer_modes r v = Inr d \<Longrightarrow>
   d = dict_update r (map (\<lambda>(slug, mode). (slug, py_lower mode)) v)"
proof (induction r v rule: valid_issuer_modes.induct)
  case (2 r slug mode v)
  then show ?case by (auto simp: Let_def split: if_splits)
qed simp

lemma valid_issuer_modes_total:
  assumes "\<forall>(slug, mode) \<in> set v. py_lower mode \<in> {''lax'', ''strict''}"
  shows "\<exists>d. valid_issuer_modes r v = Inr d"
  using assms by (induction r v rule: valid_issuer_modes.induct) (auto simp: Let_def)

lemma validated_default_config: "validated_config default_config"
  by (simp add: validated_config_def default_config_def valid_modes_def)

lemma valid_identity_new: "valid_identity (new_user pw)" "valid_identity (new_sp s)"
  by (simp_all add: valid_identity_def new_user_def new_sp_def)

end
