(* ===== verification/StoreData.thy ===== *)
theory StoreData
  imports Models
begin

text \<open>
  \<open>store/__init__.py\<close>: the data every identity store serves (the properties of the \<open>IdentityStore\<close>
  protocol), the well-formedness the rest of the program relies on, and the protocol's contract for
  \<open>reload\<close> as the locale \<open>identity_store\<close>. The two backends interpret it in their own theories.
\<close>

section \<open>The data of a store\<close>

record store_data =
  st_mode :: string
  st_admin_token :: string
  st_cors_origins :: "string list"
  st_webhooks :: "webhook list"
  st_issuer_modes :: "(string, string) dict"
  st_users :: "(string, user_record) dict"
  st_service_principals :: "(string, sp_record) dict"
  st_service_principals_raw :: "(string, sp_record) dict"
  st_client_apps :: "(string, client_app) dict"

text \<open>The fields both constructors start from.\<close>

definition initial_store :: store_data where
  "initial_store =
     \<lparr>st_mode = ''lax'', st_admin_token = ''change-me'', st_cors_origins = [''*''], st_webhooks = [],
      st_issuer_modes = [], st_users = [], st_service_principals = [],
      st_service_principals_raw = [], st_client_apps = []\<rparr>"

text \<open>\<open>canonical = sp.client_id or key\<close>.\<close>

definition canonical_of :: "sp_record \<Rightarrow> string \<Rightarrow> string" where
  "canonical_of sp key = str_or (sp_client_id sp) key"

text \<open>
  The store's shape: dictionaries have distinct keys; a service principal is found under its
  configured name or its canonical id and nothing else; the canonical id is the \<open>client_id\<close>, or the
  name when there is none; the raw table has the configured names only, all of them also in the
  main table.
\<close>

definition sp_entry_ok :: "string \<Rightarrow> sp_record \<Rightarrow> bool" where
  "sp_entry_ok k sp =
     ((k = sp_name sp \<or> k = sp_canonical_id sp) \<and>
      sp_canonical_id sp = canonical_of sp (sp_name sp))"

definition store_ok :: "store_data \<Rightarrow> bool" where
  "store_ok d =
     (dict_ok (st_users d) \<and> dict_ok (st_service_principals d) \<and>
      dict_ok (st_service_principals_raw d) \<and> dict_ok (st_client_apps d) \<and>
      dict_ok (st_issuer_modes d) \<and>
      (\<forall>(k, sp) \<in> set (st_service_principals d). sp_entry_ok k sp) \<and>
      (\<forall>(k, sp) \<in> set (st_service_principals_raw d).
         sp_name sp = k \<and> dhas (st_service_principals d) k))"

text \<open>What the validators guarantee of the served values.\<close>

definition store_valid :: "store_data \<Rightarrow> bool" where
  "store_valid d =
     (st_mode d \<in> {''lax'', ''strict''} \<and> valid_modes (st_issuer_modes d) \<and>
      (\<forall>u \<in> snd ` set (st_users d). valid_identity u) \<and>
      (\<forall>sp \<in> snd ` set (st_service_principals d). valid_identity sp))"

lemma store_ok_initial: "store_ok initial_store"
  by (simp add: store_ok_def initial_store_def)

lemma store_valid_initial: "store_valid initial_store"
  by (simp add: store_valid_def initial_store_def valid_modes_def)

text \<open>A lookup by client id finds the principal of that name, or of that canonical id.\<close>

lemma store_ok_lookup:
  "store_ok d \<Longrightarrow> dget (st_service_principals d) k = Some sp \<Longrightarrow> sp_entry_ok k sp"
  by (auto simp: store_ok_def dest!: map_of_SomeD)

lemma store_ok_raw_lookup:
  "store_ok d \<Longrightarrow> dget (st_service_principals_raw d) k = Some sp \<Longrightarrow>
   sp_name sp = k \<and> dget (st_service_principals d) k \<noteq> None"
  by (auto simp: store_ok_def dhas_iff dest!: map_of_SomeD)

lemma store_valid_user:
  "store_valid d \<Longrightarrow> dget (st_users d) k = Some u \<Longrightarrow> valid_identity u"
  by (auto simp: store_valid_def image_iff dest!: map_of_SomeD)

lemma store_valid_sp:
  "store_valid d \<Longrightarrow> dget (st_service_principals d) k = Some sp \<Longrightarrow> valid_identity sp"
  by (auto simp: store_valid_def image_iff dest!: map_of_SomeD)

section \<open>The reload contract\<close>

text \<open>
  \<open>reload\<close> runs in an environment (the backing file or database). It keeps the shape of the data
  and, when it raises, leaves the data as it was.
\<close>

locale identity_store =
  fixes reload :: "'e \<Rightarrow> 's \<Rightarrow> (py_exn + unit) \<times> 's"
    and data :: "'s \<Rightarrow> store_data"
    and env_ok :: "'e \<Rightarrow> bool"
  assumes reload_ok: "env_ok e \<Longrightarrow> store_ok (data s) \<Longrightarrow> store_ok (data (snd (reload e s)))"
    and reload_valid: "env_ok e \<Longrightarrow> store_valid (data s) \<Longrightarrow> store_valid (data (snd (reload e s)))"
    and reload_raise: "reload e s = (Inl x, s') \<Longrightarrow> data s' = data s"
begin

text \<open>Any number of reloads, failed ones included.\<close>

fun reloads :: "'e list \<Rightarrow> 's \<Rightarrow> 's" where
  "reloads [] s = s"
| "reloads (e # es) s = reloads es (snd (reload e s))"

lemma reloads_ok:
  "list_all env_ok es \<Longrightarrow> store_ok (data s) \<Longrightarrow> store_ok (data (reloads es s))"
  by (induction es arbitrary: s) (simp_all add: reload_ok)

lemma reloads_valid:
  "list_all env_ok es \<Longrightarrow> store_valid (data s) \<Longrightarrow> store_valid (data (reloads es s))"
  by (induction es arbitrary: s) (simp_all add: reload_valid)

lemma reloads_lookup:
  assumes "list_all env_ok es" and "store_ok (data s)"
    and "dget (st_service_principals (data (reloads es s))) k = Some sp"
  shows "sp_entry_ok k sp"
  using store_ok_lookup [OF reloads_ok [OF assms(1,2)] assms(3)] .

end

end
