(* ===== verification/YamlStore.thy ===== *)
theory YamlStore
  imports StoreData
begin

text \<open>
  \<open>store/yaml_store.py\<close>: secret references, the structural linter, loading, and the in-place
  application of a validated configuration. \<open>yaml.safe_load\<close> and Pydantic's \<open>model_validate\<close> are
  libraries, parameters of the definitions; what is assumed of the second is that it returns only
  configurations its declared validators accept (\<open>pydantic_lawful\<close>).
\<close>

section \<open>The operating system\<close>

datatype file_read =
    FileMissing
  | FileText string
  | FileOSError string
  | FileValueError string   \<comment> \<open>undecodable text or an unusable path\<close>

record os_env =
  os_vars :: "(string, string) dict"
  os_read :: "string \<Rightarrow> file_read"

section \<open>Secret references\<close>

definition is_secret_ref :: "json \<Rightarrow> bool" where
  "is_secret_ref v =
     (case v of JObj d \<Rightarrow> dhas d ''from_env'' \<or> dhas d ''from_file'' | _ \<Rightarrow> False)"

text \<open>
  A reference that is not a string raises \<open>TypeError\<close>, from the environment's key encoding or from
  \<open>Path\<close>; an unset variable and an unreadable file are the \<open>ValueError\<close>s of the code.
\<close>

definition resolve_secret :: "os_env \<Rightarrow> json \<Rightarrow> string \<Rightarrow> py_exn + string" where
  "resolve_secret os v location =
     (case v of
        JStr s \<Rightarrow> Inr s
      | _ \<Rightarrow>
          if \<not> is_secret_ref v then Inr (py_str v)
          else
            (case v of
               JObj ref \<Rightarrow>
                 (case dget ref ''from_env'' of
                    Some (JStr var) \<Rightarrow>
                      (case dget (os_vars os) var of
                         None \<Rightarrow> Inl (ValueError (location @ '': environment variable '' @
                                                  py_repr_str var @ '' is not set''))
                       | Some x \<Rightarrow> Inr x)
                  | Some _ \<Rightarrow> Inl TypeError
                  | None \<Rightarrow>
                      (case dget ref ''from_file'' of
                         Some (JStr path) \<Rightarrow>
                           (let failed = (\<lambda>m. Inl (ValueError (location @ '': cannot read secret file '' @
                                                   py_repr_str path @ '': '' @ m)))
                            in case os_read os path of
                                 FileText t \<Rightarrow> Inr (py_strip t)
                               | FileMissing \<Rightarrow> failed ''No such file or directory''
                               | FileOSError m \<Rightarrow> failed m
                               | FileValueError m \<Rightarrow> Inl (ValueError m))
                       | _ \<Rightarrow> Inl TypeError))
             | _ \<Rightarrow> Inl TypeError))"

text \<open>\<open>(d.get(k) or {}).items()\<close>: a true value that is not a dictionary has no \<open>items\<close>.\<close>

definition items_of :: "json option \<Rightarrow> py_exn + (string \<times> json) list" where
  "items_of v =
     (case v of
        None \<Rightarrow> Inr []
      | Some (JObj d) \<Rightarrow> Inr d
      | Some w \<Rightarrow> if truthy w then Inl AttributeError else Inr [])"

text \<open>A loop that rewrites the values of a dictionary and stops at the first exception.\<close>

fun traverse_values ::
  "(string \<Rightarrow> json \<Rightarrow> 'e + json) \<Rightarrow> (string \<times> json) list \<Rightarrow> 'e + (string \<times> json) list" where
  "traverse_values f [] = Inr []"
| "traverse_values f ((k, v) # d) =
     bindE (f k v) (\<lambda>v'. bindE (traverse_values f d) (\<lambda>d'. Inr ((k, v') # d')))"

text \<open>Store a rewritten sub-dictionary back (nothing to store when there was none).\<close>

definition put_items :: "(string, json) dict \<Rightarrow> string \<Rightarrow> (string \<times> json) list \<Rightarrow> (string, json) dict" where
  "put_items d k items = (case dget d k of Some (JObj _) \<Rightarrow> dset d k (JObj items) | _ \<Rightarrow> d)"

definition resolve_field :: "os_env \<Rightarrow> string \<Rightarrow> string \<Rightarrow> json \<Rightarrow> py_exn + json" where
  "resolve_field os key location v =
     (case v of
        JObj d \<Rightarrow>
          (case dget d key of
             None \<Rightarrow> Inr v
           | Some x \<Rightarrow> bindE (resolve_secret os x location) (\<lambda>s. Inr (JObj (dset d key (JStr s)))))
      | _ \<Rightarrow> Inr v)"

definition resolve_tenant :: "os_env \<Rightarrow> string \<Rightarrow> string \<Rightarrow> json \<Rightarrow> py_exn + json" where
  "resolve_tenant os path tid tenant =
     (case tenant of
        JObj d \<Rightarrow>
          bindE (items_of (dget d ''users'')) (\<lambda>us.
          bindE (traverse_values (\<lambda>uname. resolve_field os ''password''
                   (path @ '':tenants.'' @ tid @ ''.users.'' @ uname @ ''.password'')) us) (\<lambda>us'.
          bindE (items_of (dget d ''service_principals'')) (\<lambda>sps.
          bindE (traverse_values (\<lambda>spname. resolve_field os ''secret''
                   (path @ '':tenants.'' @ tid @ ''.service_principals.'' @ spname @ ''.secret'')) sps)
            (\<lambda>sps'. Inr (JObj (put_items (put_items d ''users'' us') ''service_principals'' sps'))))))
      | _ \<Rightarrow> Inr tenant)"

definition resolve_secrets :: "os_env \<Rightarrow> string \<Rightarrow> (string, json) dict \<Rightarrow> py_exn + (string, json) dict" where
  "resolve_secrets os path raw =
     bindE (case dget raw ''admin_token'' of
              None \<Rightarrow> Inr raw
            | Some t \<Rightarrow> bindE (resolve_secret os t (path @ '':admin_token''))
                              (\<lambda>s. Inr (dset raw ''admin_token'' (JStr s)))) (\<lambda>raw1.
     bindE (items_of (dget raw1 ''tenants'')) (\<lambda>ts.
     bindE (traverse_values (resolve_tenant os path) ts) (\<lambda>ts'.
     Inr (put_items raw1 ''tenants'' ts'))))"

section \<open>The linter\<close>

text \<open>The warnings it logs; it changes nothing, but it walks the same structure and can raise.\<close>

datatype lint_warning =
    SpUnderUsers string string
  | NumericPassword string string json
  | NumericSecret string string json

definition suspicious_secret :: "json option \<Rightarrow> bool" where
  "suspicious_secret v =
     (case v of
        None \<Rightarrow> False
      | Some JNull \<Rightarrow> False
      | Some (JStr _) \<Rightarrow> False
      | Some w \<Rightarrow> \<not> is_secret_ref w)"

definition field_of :: "json \<Rightarrow> string \<Rightarrow> json option" where
  "field_of v k = (case v of JObj d \<Rightarrow> dget d k | _ \<Rightarrow> None)"

definition lint_tenant :: "string \<Rightarrow> json \<Rightarrow> py_exn + lint_warning list" where
  "lint_tenant tid tenant =
     (case tenant of
        JObj d \<Rightarrow>
          bindE (items_of (dget d ''users'')) (\<lambda>us.
          bindE (items_of (dget d ''service_principals'')) (\<lambda>sps.
          Inr ([SpUnderUsers tid u. (u, v) \<leftarrow> us,
                  field_of v ''secret'' \<noteq> None \<and> field_of v ''password'' = None] @
               [NumericPassword tid u (the (field_of v ''password'')). (u, v) \<leftarrow> us,
                  suspicious_secret (field_of v ''password'')] @
               [NumericSecret tid s (the (field_of v ''secret'')). (s, v) \<leftarrow> sps,
                  suspicious_secret (field_of v ''secret'')])))
      | _ \<Rightarrow> Inr [])"

fun lint_tenants :: "(string \<times> json) list \<Rightarrow> py_exn + lint_warning list" where
  "lint_tenants [] = Inr []"
| "lint_tenants ((tid, t) # ts) =
     bindE (lint_tenant tid t) (\<lambda>ws. bindE (lint_tenants ts) (\<lambda>ws'. Inr (ws @ ws')))"

definition lint_raw :: "(string, json) dict \<Rightarrow> py_exn + lint_warning list" where
  "lint_raw raw = bindE (items_of (dget raw ''tenants'')) lint_tenants"

section \<open>Loading\<close>

text \<open>
  The YAML parser and the validation of the declared models. A parse error and an unreadable file
  are exceptions of \<open>_read_raw\<close>, which runs outside the \<open>try\<close> of the callers.
\<close>

record yaml_libs =
  yaml_safe_load :: "string \<Rightarrow> py_exn + json"
  model_validate :: "json \<Rightarrow> string + app_config"

definition pydantic_lawful :: "yaml_libs \<Rightarrow> bool" where
  "pydantic_lawful L = (\<forall>raw cfg. model_validate L raw = Inr cfg \<longrightarrow> validated_config cfg)"

definition read_raw :: "yaml_libs \<Rightarrow> os_env \<Rightarrow> string \<Rightarrow> py_exn + json" where
  "read_raw L os path =
     (case os_read os path of
        FileMissing \<Rightarrow> Inr (JObj [])
      | FileOSError m \<Rightarrow> Inl (LibraryError m)
      | FileValueError m \<Rightarrow> Inl (ValueError m)
      | FileText t \<Rightarrow>
          bindE (yaml_safe_load L t) (\<lambda>v. Inr (if truthy v then v else JObj [])))"

text \<open>What \<open>_validate\<close> raises: Pydantic's error, or an exception of the two walks before it.\<close>

datatype validate_error = ValidationFailed string | Raised py_exn

definition raised :: "py_exn + 'a \<Rightarrow> validate_error + 'a" where
  "raised r = (case r of Inl e \<Rightarrow> Inl (Raised e) | Inr x \<Rightarrow> Inr x)"

definition validate_raw :: "yaml_libs \<Rightarrow> os_env \<Rightarrow> string \<Rightarrow> json \<Rightarrow> validate_error + app_config" where
  "validate_raw L os path raw =
     bindE (case raw of
              JObj d \<Rightarrow>
                bindE (raised (lint_raw d)) (\<lambda>warnings.
                bindE (raised (resolve_secrets os path d)) (\<lambda>d'. Inr (JObj d')))
            | _ \<Rightarrow> Inr raw) (\<lambda>raw'.
     (case model_validate L raw' of Inl m \<Rightarrow> Inl (ValidationFailed m) | Inr cfg \<Rightarrow> Inr cfg))"

section \<open>Applying a configuration\<close>

text \<open>The four tables \<open>_apply\<close> builds before it swaps them in.\<close>

record new_tables =
  nt_users :: "(string, user_record) dict"
  nt_sps :: "(string, sp_record) dict"
  nt_sps_raw :: "(string, sp_record) dict"
  nt_apps :: "(string, client_app) dict"

definition apply_user :: "string \<Rightarrow> tenant \<Rightarrow> string \<times> user_record \<Rightarrow> new_tables \<Rightarrow> new_tables" where
  "apply_user tid t entry nt =
     (let (username, user) = entry;
          user' = user\<lparr>id_tid := tid, id_tenant_realm_roles := tn_realm_roles t,
                       id_provider := tn_provider t\<rparr>
      in nt\<lparr>nt_users := dset (nt_users nt) username user'\<rparr>)"

definition stamp_sp :: "string \<Rightarrow> tenant \<Rightarrow> string \<Rightarrow> sp_record \<Rightarrow> sp_record" where
  "stamp_sp tid t key sp =
     sp\<lparr>id_tid := tid, sp_name := key, id_tenant_realm_roles := tn_realm_roles t,
        id_provider := tn_provider t, sp_canonical_id := canonical_of sp key\<rparr>"

definition apply_sp :: "string \<Rightarrow> tenant \<Rightarrow> string \<times> sp_record \<Rightarrow> new_tables \<Rightarrow> new_tables" where
  "apply_sp tid t entry nt =
     (let (key, sp) = entry;
          sp' = stamp_sp tid t key sp;
          canonical = sp_canonical_id sp';
          nt1 = nt\<lparr>nt_sps := dset (nt_sps nt) key sp', nt_sps_raw := dset (nt_sps_raw nt) key sp'\<rparr>
      in if canonical \<noteq> key then nt1\<lparr>nt_sps := dset (nt_sps nt1) canonical sp'\<rparr> else nt1)"

definition apply_app :: "string \<times> client_app \<Rightarrow> new_tables \<Rightarrow> new_tables" where
  "apply_app entry nt = (let (aud, app) = entry in nt\<lparr>nt_apps := dset (nt_apps nt) aud app\<rparr>)"

definition apply_tenant :: "string \<times> tenant \<Rightarrow> new_tables \<Rightarrow> new_tables" where
  "apply_tenant entry nt =
     (let (tid, t) = entry
      in fold apply_app (tn_clients t)
           (fold (apply_sp tid t) (tn_service_principals t)
             (fold (apply_user tid t) (tn_users t) nt)))"

definition empty_tables :: new_tables where
  "empty_tables = \<lparr>nt_users = [], nt_sps = [], nt_sps_raw = [], nt_apps = []\<rparr>"

definition apply_config :: "app_config \<Rightarrow> store_data \<Rightarrow> store_data" where
  "apply_config cfg d =
     (let nt = fold apply_tenant (cfg_tenants cfg) empty_tables
      in d\<lparr>st_mode := cfg_auth_mode cfg, st_admin_token := cfg_admin_token cfg,
           st_cors_origins := cfg_cors_allow_origins cfg, st_webhooks := cfg_webhooks cfg,
           st_issuer_modes := dict_update [] (cfg_issuer_modes cfg),
           st_users := dict_update [] (nt_users nt),
           st_service_principals := dict_update [] (nt_sps nt),
           st_service_principals_raw := dict_update [] (nt_sps_raw nt),
           st_client_apps := dict_update [] (nt_apps nt)\<rparr>)"

text \<open>\<open>reload\<close>: a rejected document is logged and the state kept; other exceptions escape.\<close>

definition yaml_reload ::
  "string \<Rightarrow> yaml_libs \<times> os_env \<Rightarrow> store_data \<Rightarrow> (py_exn + unit) \<times> store_data" where
  "yaml_reload path env d =
     (let (L, os) = env in
      case read_raw L os path of
        Inl e \<Rightarrow> (Inl e, d)
      | Inr raw \<Rightarrow>
          (case validate_raw L os path raw of
             Inl (ValidationFailed m) \<Rightarrow> (Inr (), d)
           | Inl (Raised (ValueError m)) \<Rightarrow> (Inr (), d)
           | Inl (Raised e) \<Rightarrow> (Inl e, d)
           | Inr cfg \<Rightarrow> (Inr (), apply_config cfg d)))"

text \<open>The constructor: a rejected document ends the process.\<close>

datatype init_result = Started store_data | SysExit nat | InitRaised py_exn

definition yaml_init :: "string \<Rightarrow> yaml_libs \<times> os_env \<Rightarrow> init_result" where
  "yaml_init path env =
     (let (L, os) = env in
      case read_raw L os path of
        Inl e \<Rightarrow> InitRaised e
      | Inr raw \<Rightarrow>
          (case validate_raw L os path raw of
             Inl (ValidationFailed m) \<Rightarrow> SysExit 1
           | Inl (Raised (ValueError m)) \<Rightarrow> SysExit 1
           | Inl (Raised e) \<Rightarrow> InitRaised e
           | Inr cfg \<Rightarrow> Started (apply_config cfg initial_store)))"

section \<open>The shape of the tables\<close>

definition tables_ok :: "new_tables \<Rightarrow> bool" where
  "tables_ok nt =
     (dict_ok (nt_users nt) \<and> dict_ok (nt_sps nt) \<and> dict_ok (nt_sps_raw nt) \<and> dict_ok (nt_apps nt) \<and>
      (\<forall>k sp. dget (nt_sps nt) k = Some sp \<longrightarrow> sp_entry_ok k sp) \<and>
      (\<forall>k sp. dget (nt_sps_raw nt) k = Some sp \<longrightarrow> sp_name sp = k \<and> dget (nt_sps nt) k \<noteq> None))"

lemma fold_preserves:
  assumes "P s" and "\<And>x s. x \<in> set xs \<Longrightarrow> P s \<Longrightarrow> P (f x s)"
  shows "P (fold f xs s)"
  using assms by (induction xs arbitrary: s) auto

lemma stamp_sp_simps [simp]:
  "sp_name (stamp_sp tid t key sp) = key"
  "sp_canonical_id (stamp_sp tid t key sp) = canonical_of sp key"
  "sp_client_id (stamp_sp tid t key sp) = sp_client_id sp"
  "canonical_of (stamp_sp tid t key sp) k = canonical_of sp k"
  by (simp_all add: stamp_sp_def canonical_of_def)

lemma tables_ok_user: "tables_ok nt \<Longrightarrow> tables_ok (apply_user tid t e nt)"
  by (cases e) (simp add: tables_ok_def apply_user_def)

lemma tables_ok_app: "tables_ok nt \<Longrightarrow> tables_ok (apply_app e nt)"
  by (cases e) (simp add: tables_ok_def apply_app_def)

lemma tables_ok_sp: "tables_ok nt \<Longrightarrow> tables_ok (apply_sp tid t e nt)"
  by (cases e) (auto simp: tables_ok_def apply_sp_def sp_entry_ok_def Let_def split: if_splits)

lemma tables_ok_tenant: "tables_ok nt \<Longrightarrow> tables_ok (apply_tenant e nt)"
  unfolding apply_tenant_def
  by (cases e) (auto simp: tables_ok_user tables_ok_sp tables_ok_app intro!: fold_preserves [where P = tables_ok])

lemma tables_ok_config: "tables_ok (fold apply_tenant ts empty_tables)"
proof (rule fold_preserves [where P = tables_ok])
  show "tables_ok empty_tables" by (simp add: tables_ok_def empty_tables_def)
qed (rule tables_ok_tenant)

text \<open>
  The tables in closed form: each is the dictionary of all entries of all tenants in document
  order, so that the last one of a name wins.
\<close>

definition stamp_user :: "string \<Rightarrow> tenant \<Rightarrow> user_record \<Rightarrow> user_record" where
  "stamp_user tid t user =
     user\<lparr>id_tid := tid, id_tenant_realm_roles := tn_realm_roles t, id_provider := tn_provider t\<rparr>"

definition user_entries :: "app_config \<Rightarrow> (string \<times> user_record) list" where
  "user_entries cfg =
     concat (map (\<lambda>(tid, t). map (\<lambda>(n, u). (n, stamp_user tid t u)) (tn_users t)) (cfg_tenants cfg))"

definition sp_keys :: "string \<Rightarrow> tenant \<Rightarrow> string \<times> sp_record \<Rightarrow> (string \<times> sp_record) list" where
  "sp_keys tid t entry =
     (let (key, sp) = entry; sp' = stamp_sp tid t key sp
      in (key, sp') # (if canonical_of sp key \<noteq> key then [(canonical_of sp key, sp')] else []))"

definition sp_entries :: "app_config \<Rightarrow> (string \<times> sp_record) list" where
  "sp_entries cfg =
     concat (map (\<lambda>(tid, t). concat (map (sp_keys tid t) (tn_service_principals t))) (cfg_tenants cfg))"

definition app_entries :: "app_config \<Rightarrow> (string \<times> client_app) list" where
  "app_entries cfg = concat (map (\<lambda>(tid, t). tn_clients t) (cfg_tenants cfg))"

lemma fold_apply_user:
  "fold (apply_user tid t) us nt =
   nt\<lparr>nt_users := dict_update (nt_users nt) (map (\<lambda>(n, u). (n, stamp_user tid t u)) us)\<rparr>"
  by (induction us arbitrary: nt) (auto simp: apply_user_def stamp_user_def)

lemma fold_apply_app:
  "fold apply_app as nt = nt\<lparr>nt_apps := dict_update (nt_apps nt) as\<rparr>"
  by (induction as arbitrary: nt) (auto simp: apply_app_def)

lemma apply_sp_sps: "nt_sps (apply_sp tid t e nt) = dict_update (nt_sps nt) (sp_keys tid t e)"
  by (cases e) (simp add: apply_sp_def sp_keys_def Let_def)

lemma apply_sp_frame [simp]:
  "nt_users (apply_sp tid t e nt) = nt_users nt" "nt_apps (apply_sp tid t e nt) = nt_apps nt"
  by (cases e; simp add: apply_sp_def Let_def)+

lemma fold_apply_sp:
  "nt_sps (fold (apply_sp tid t) sps nt) =
     dict_update (nt_sps nt) (concat (map (sp_keys tid t) sps))"
  "nt_users (fold (apply_sp tid t) sps nt) = nt_users nt"
  "nt_apps (fold (apply_sp tid t) sps nt) = nt_apps nt"
  by (induction sps arbitrary: nt) (simp_all add: apply_sp_sps dict_update_append)

lemma fold_apply_tenant:
  "nt_users (fold apply_tenant ts nt) = dict_update (nt_users nt)
     (concat (map (\<lambda>(tid, t). map (\<lambda>(n, u). (n, stamp_user tid t u)) (tn_users t)) ts))"
  "nt_sps (fold apply_tenant ts nt) = dict_update (nt_sps nt)
     (concat (map (\<lambda>(tid, t). concat (map (sp_keys tid t) (tn_service_principals t))) ts))"
  "nt_apps (fold apply_tenant ts nt) =
     dict_update (nt_apps nt) (concat (map (\<lambda>(tid, t). tn_clients t) ts))"
  by (induction ts arbitrary: nt)
    (auto simp: apply_tenant_def fold_apply_user fold_apply_app fold_apply_sp dict_update_append)

lemma apply_config_tables:
  "st_users (apply_config cfg d) = dict_of (user_entries cfg)"
  "st_service_principals (apply_config cfg d) = dict_of (sp_entries cfg)"
  "st_client_apps (apply_config cfg d) = dict_of (app_entries cfg)"
  by (simp_all add: apply_config_def Let_def fold_apply_tenant empty_tables_def user_entries_def
      sp_entries_def app_entries_def dict_of_def dict_update_self)

lemma apply_config_scalars:
  "st_mode (apply_config cfg d) = cfg_auth_mode cfg"
  "st_admin_token (apply_config cfg d) = cfg_admin_token cfg"
  "st_cors_origins (apply_config cfg d) = cfg_cors_allow_origins cfg"
  "st_webhooks (apply_config cfg d) = cfg_webhooks cfg"
  "st_issuer_modes (apply_config cfg d) = dict_of (cfg_issuer_modes cfg)"
  by (simp_all add: apply_config_def Let_def dict_of_def)

text \<open>The configuration alone determines the result: nothing of the old state survives.\<close>

lemma apply_config_forgets: "apply_config cfg d = apply_config cfg d'"
  by (simp add: apply_config_def Let_def)

lemma apply_config_ok: "store_ok (apply_config cfg d)"
proof -
  let ?nt = "fold apply_tenant (cfg_tenants cfg) empty_tables"
  have ok: "tables_ok ?nt" by (rule tables_ok_config)
  then have "\<forall>(k, sp) \<in> set (nt_sps ?nt). sp_entry_ok k sp"
    and "\<forall>(k, sp) \<in> set (nt_sps_raw ?nt). sp_name sp = k \<and> dhas (nt_sps ?nt) k"
    by (auto simp: tables_ok_def dhas_iff dict_ok_def)
  with ok show ?thesis
    by (simp add: store_ok_def apply_config_def Let_def tables_ok_def dict_update_self)
qed

lemma valid_identity_stamp:
  "valid_identity (stamp_user tid t u) = valid_identity u"
  "valid_identity (stamp_sp tid t key sp) = valid_identity sp"
  by (simp_all add: valid_identity_def stamp_user_def stamp_sp_def)

lemma user_entries_valid:
  assumes "validated_config cfg" and "(k, u) \<in> set (user_entries cfg)"
  shows "valid_identity u"
proof -
  from assms(2) obtain tid t v where "(tid, t) \<in> set (cfg_tenants cfg)"
    "(k, v) \<in> set (tn_users t)" "u = stamp_user tid t v"
    by (auto simp: user_entries_def)
  with assms(1) show ?thesis
    by (force simp: validated_config_def valid_tenant_def valid_identity_stamp)
qed

lemma sp_entries_valid:
  assumes "validated_config cfg" and "(k, s) \<in> set (sp_entries cfg)"
  shows "valid_identity s"
proof -
  from assms(2) obtain tid t n v where "(tid, t) \<in> set (cfg_tenants cfg)"
    "(n, v) \<in> set (tn_service_principals t)" "s = stamp_sp tid t n v"
    by (auto simp: sp_entries_def sp_keys_def Let_def split: if_splits)
  with assms(1) show ?thesis
    by (force simp: validated_config_def valid_tenant_def valid_identity_stamp)
qed

lemma apply_config_valid:
  assumes "validated_config cfg"
  shows "store_valid (apply_config cfg d)"
proof -
  have "valid_modes (dict_of (cfg_issuer_modes cfg))"
    using assms set_dict_of_subset [of "cfg_issuer_modes cfg"]
    by (fastforce simp: validated_config_def valid_modes_def)
  moreover have "\<forall>u \<in> snd ` set (dict_of (user_entries cfg)). valid_identity u"
    using user_entries_valid [OF assms] set_dict_of_subset [of "user_entries cfg"] by fastforce
  moreover have "\<forall>s \<in> snd ` set (dict_of (sp_entries cfg)). valid_identity s"
    using sp_entries_valid [OF assms] set_dict_of_subset [of "sp_entries cfg"] by fastforce
  ultimately show ?thesis
    using assms
    by (simp add: store_valid_def apply_config_tables apply_config_scalars validated_config_def)
qed

section \<open>Reload\<close>

text \<open>The four outcomes of a reload, and the only one that changes the store.\<close>

lemma yaml_reload_cases:
  assumes "yaml_reload path (L, os) d = (r, d')"
  obtains (applied) raw cfg where "read_raw L os path = Inr raw"
      "validate_raw L os path raw = Inr cfg" "r = Inr ()" "d' = apply_config cfg d"
    | (kept) raw e where "read_raw L os path = Inr raw" "validate_raw L os path raw = Inl e"
      "r = Inr ()" "d' = d"
    | (escaped) e where "r = Inl e" "d' = d"
  using assms
  by (auto simp: yaml_reload_def split: sum.splits validate_error.splits py_exn.splits)

lemma validate_raw_valid:
  assumes "pydantic_lawful L" and "validate_raw L os path raw = Inr cfg"
  shows "validated_config cfg"
proof -
  from assms(2) obtain raw' where
    "(case model_validate L raw' of Inl m \<Rightarrow> Inl (ValidationFailed m) | Inr c \<Rightarrow> Inr c) = Inr cfg"
    unfolding validate_raw_def bindE_eq_Inr by blast
  then have "model_validate L raw' = Inr cfg" by (simp split: sum.splits)
  with assms(1) show ?thesis by (auto simp: pydantic_lawful_def)
qed

lemma yaml_reload_ok:
  "store_ok d \<Longrightarrow> store_ok (snd (yaml_reload path env d))"
  by (cases env; cases "yaml_reload path env d")
    (auto elim!: yaml_reload_cases simp: apply_config_ok)

lemma yaml_reload_valid:
  "pydantic_lawful (fst env) \<Longrightarrow> store_valid d \<Longrightarrow> store_valid (snd (yaml_reload path env d))"
  by (cases env; cases "yaml_reload path env d")
    (auto elim!: yaml_reload_cases dest: validate_raw_valid simp: apply_config_valid)

lemma yaml_reload_raise: "yaml_reload path env d = (Inl x, d') \<Longrightarrow> d' = d"
  by (cases env) (auto elim!: yaml_reload_cases)

text \<open>
  The backend meets the protocol's contract. The path is fixed at construction; the state carries
  it beside the data.
\<close>

definition yaml_reload_at ::
  "yaml_libs \<times> os_env \<Rightarrow> string \<times> store_data \<Rightarrow> (py_exn + unit) \<times> string \<times> store_data" where
  "yaml_reload_at env s = (let (r, d) = yaml_reload (fst s) env (snd s) in (r, fst s, d))"

interpretation yaml_store: identity_store yaml_reload_at
  "snd :: string \<times> store_data \<Rightarrow> store_data" "\<lambda>env :: yaml_libs \<times> os_env. pydantic_lawful (fst env)"
proof unfold_locales
  fix e :: "yaml_libs \<times> os_env" and s :: "string \<times> store_data" assume "store_ok (snd s)"
  then show "store_ok (snd (snd (yaml_reload_at e s)))"
    using yaml_reload_ok [of "snd s" "fst s" e]
    by (cases "yaml_reload (fst s) e (snd s)") (simp add: yaml_reload_at_def)
next
  fix e :: "yaml_libs \<times> os_env" and s :: "string \<times> store_data" assume "pydantic_lawful (fst e)" "store_valid (snd s)"
  then show "store_valid (snd (snd (yaml_reload_at e s)))"
    using yaml_reload_valid [of e "snd s" "fst s"]
    by (cases "yaml_reload (fst s) e (snd s)") (simp add: yaml_reload_at_def)
next
  fix e x s s' assume "yaml_reload_at e s = (Inl x, s')"
  then show "snd s' = snd s"
    using yaml_reload_raise [of "fst s" e "snd s"]
    by (cases "yaml_reload (fst s) e (snd s)") (auto simp: yaml_reload_at_def)
qed

end
