(* ===== verification/ConfigErrors.thy ===== *)
theory ConfigErrors
  imports YamlStore "HOL-Library.List_Lexorder" "HOL-Library.Char_ord" "HOL-Library.Multiset"
begin

text \<open>
  \<open>_format_validation_error\<close> of \<open>store/yaml_store.py\<close>, the message a rejected configuration is
  reported with, and \<open>difflib.get_close_matches\<close> of the standard library, which it asks for the key
  that was meant. The errors themselves are Pydantic's. The arrow between the parts of a location
  and the dash before the path are written \<open>->\<close> and \<open>-\<close> here.
\<close>

section \<open>Close matches\<close>

text \<open>
  \<open>SequenceMatcher.find_longest_match\<close>: the longest common block of two strings, the earliest in the
  first and then in the second among the longest. The heuristic for second strings of 200 characters
  and more, which ignores frequent characters, is left out: no key is long enough to pass the length
  bound against such a string.
\<close>

fun common_prefix :: "string \<Rightarrow> string \<Rightarrow> nat" where
  "common_prefix (x # xs) (y # ys) = (if x = y then Suc (common_prefix xs ys) else 0)"
| "common_prefix _ _ = 0"

definition longer_block :: "string \<Rightarrow> string \<Rightarrow> nat \<times> nat \<Rightarrow> nat \<times> nat \<times> nat \<Rightarrow> nat \<times> nat \<times> nat" where
  "longer_block a b p best =
     (case p of (i, j) \<Rightarrow> case best of (bi, bj, bk) \<Rightarrow>
       let k = common_prefix (drop i a) (drop j b) in if bk < k then (i, j, k) else best)"

definition longest_match :: "string \<Rightarrow> string \<Rightarrow> nat \<times> nat \<times> nat" where
  "longest_match a b = fold (longer_block a b) (List.product [0..<length a] [0..<length b]) (0, 0, 0)"

lemma common_prefix_take: "take (common_prefix a b) a = take (common_prefix a b) b"
  by (induction a b rule: common_prefix.induct) auto

lemma common_prefix_le: "common_prefix a b \<le> length a \<and> common_prefix a b \<le> length b"
  by (induction a b rule: common_prefix.induct) auto

definition is_block :: "string \<Rightarrow> string \<Rightarrow> nat \<times> nat \<times> nat \<Rightarrow> bool" where
  "is_block a b p = (case p of (i, j, k) \<Rightarrow>
     i + k \<le> length a \<and> j + k \<le> length b \<and> take k (drop i a) = take k (drop j b))"

lemma longer_block:
  assumes "is_block a b best" and "i < length a" and "j < length b"
  shows "is_block a b (longer_block a b (i, j) best)"
  using assms common_prefix_take [of "drop i a" "drop j b"] common_prefix_le [of "drop i a" "drop j b"]
  by (auto simp: is_block_def longer_block_def Let_def split: prod.splits)

lemma longest_match_block: "is_block a b (longest_match a b)"
proof -
  have "is_block a b (fold (longer_block a b) ps best)"
    if "set ps \<subseteq> {..<length a} \<times> {..<length b}" "is_block a b best" for ps best
    using that
  proof (induction ps arbitrary: best)
    case (Cons p ps)
    obtain i j where p: "p = (i, j)" by (cases p)
    with Cons.prems have "is_block a b (longer_block a b p best)" by (auto intro: longer_block)
    with Cons.IH Cons.prems(1) show ?case by simp
  qed simp
  moreover have "is_block a b (0, 0, 0)" by (simp add: is_block_def)
  ultimately show ?thesis by (simp add: longest_match_def subset_iff)
qed

lemma longest_matchD:
  "longest_match a b = (i, j, k) \<Longrightarrow>
   i + k \<le> length a \<and> j + k \<le> length b \<and> take k (drop i a) = take k (drop j b)"
  using longest_match_block [of a b] by (simp add: is_block_def)

text \<open>\<open>get_matching_blocks\<close>, of which \<open>ratio\<close> uses the total length only.\<close>

function matched :: "string \<Rightarrow> string \<Rightarrow> nat" where
  "matched a b =
     (case longest_match a b of (i, j, k) \<Rightarrow>
       if k = 0 then 0
       else matched (take i a) (take j b) + k + matched (drop (i + k) a) (drop (j + k) b))"
  by pat_completeness auto
termination
  by (relation "measure (\<lambda>(a, b). length a)") (auto dest!: longest_matchD [OF sym])

declare matched.simps [simp del]

text \<open>
  \<open>ratio\<close> and the two upper bounds that are tried first. The scores are floats in the code; those of
  different fractions of such small numbers differ, and 0.6 is the float of 3/5.
\<close>

definition score :: "nat \<Rightarrow> string \<Rightarrow> string \<Rightarrow> rat" where
  "score n a b =
     (if length a + length b = 0 then 1 else 2 * of_nat n / of_nat (length a + length b))"

definition ratio :: "string \<Rightarrow> string \<Rightarrow> rat" where
  "ratio a b = score (matched a b) a b"

fun common_chars :: "string \<Rightarrow> string \<Rightarrow> nat" where
  "common_chars [] b = 0"
| "common_chars (x # a) b = (if x \<in> set b then Suc (common_chars a (remove1 x b)) else common_chars a b)"

definition quick_ratio :: "string \<Rightarrow> string \<Rightarrow> rat" where
  "quick_ratio a b = score (common_chars a b) a b"

definition real_quick_ratio :: "string \<Rightarrow> string \<Rightarrow> rat" where
  "real_quick_ratio a b = score (min (length a) (length b)) a b"

text \<open>\<open>get_close_matches(word, possibilities, n=1, cutoff)\<close>: the greatest pair of a score and a string.\<close>

definition better :: "rat \<times> string \<Rightarrow> rat \<times> string \<Rightarrow> bool" where
  "better p q = (fst q < fst p \<or> fst p = fst q \<and> snd q < snd p)"

fun best_pair :: "(rat \<times> string) list \<Rightarrow> (rat \<times> string) option" where
  "best_pair [] = None"
| "best_pair (p # ps) =
     (case best_pair ps of None \<Rightarrow> Some p | Some q \<Rightarrow> if better q p then Some q else Some p)"

definition close_match :: "string \<Rightarrow> string list \<Rightarrow> rat \<Rightarrow> string option" where
  "close_match word possibilities cutoff =
     map_option snd (best_pair [(ratio x word, x). x \<leftarrow> possibilities,
       cutoff \<le> real_quick_ratio x word \<and> cutoff \<le> quick_ratio x word \<and> cutoff \<le> ratio x word])"

section \<open>The message\<close>

datatype loc_part = Key string | Index int

text \<open>
  One entry of \<open>exc.errors()\<close>: the location, the type, the message, the input (when there is one) and
  the \<open>expected\<close> of its context (when there is one).
\<close>

record validation_issue =
  is_loc :: "loc_part list"
  is_type :: string
  is_msg :: string
  is_input :: "json option"
  is_expected :: "string option"

definition app_keys :: "string list" where
  "app_keys = [''auth_mode'', ''cors_allow_origins'', ''admin_token'', ''issuer_modes'', ''webhooks'', ''tenants'']"

definition tenant_keys :: "string list" where
  "tenant_keys = [''provider'', ''realm_roles'', ''users'', ''service_principals'', ''clients'']"

definition part_str :: "loc_part \<Rightarrow> string" where
  "part_str p = (case p of Key k \<Rightarrow> k | Index i \<Rightarrow> int_str i)"

definition type_name :: "json \<Rightarrow> string" where
  "type_name v =
     (case v of JNull \<Rightarrow> ''NoneType'' | JBool b \<Rightarrow> ''bool'' | JInt i \<Rightarrow> ''int'' | JStr s \<Rightarrow> ''str''
      | JList xs \<Rightarrow> ''list'' | JObj d \<Rightarrow> ''dict'')"

definition fix_line :: "string \<Rightarrow> string" where
  "fix_line t = CHR 0x0A # ''      Fix: '' @ t"

definition key_candidates :: "loc_part list \<Rightarrow> string list" where
  "key_candidates loc = (if Key ''tenants'' \<in> set loc then tenant_keys else app_keys)"

definition issue_hint :: "validation_issue \<Rightarrow> string" where
  "issue_hint e =
     (let loc = is_loc e; v = (case is_input e of None \<Rightarrow> JNull | Some v \<Rightarrow> v) in
      if is_type e = ''string_type'' then
        (let fld = (if loc \<noteq> [] then part_str (last loc) else ''field'') in
         fix_line (''YAML parsed this as '' @ type_name v @
           ''. Quote the value in your config:  '' @ fld @ '': '' @ [CHR 0x22] @ py_str v @ [CHR 0x22]))
      else if is_type e = ''extra_forbidden'' then
        (let bad_key = (if loc \<noteq> [] then part_str (last loc) else ''?''); candidates = key_candidates loc in
         fix_line (case close_match bad_key candidates (3 / 5) of
             Some k \<Rightarrow> ''did you mean '' @ [CHR 0x22] @ k @ [CHR 0x22] @ ''?''
           | None \<Rightarrow> ''valid keys at this level are '' @ py_repr (jstrs (sort candidates))))
      else if is_type e = ''missing'' then fix_line ''add this required field to your config''
      else if is_type e \<in> {''literal_error'', ''enum''} then
        (case is_expected e of None \<Rightarrow> [] | Some x \<Rightarrow> fix_line (''allowed values are '' @ x))
      else [])"

definition path_text :: "loc_part list \<Rightarrow> string" where
  "path_text loc = (if loc \<noteq> [] then py_join '' -> '' (map part_str loc) else ''(root)'')"

definition issue_lines :: "validation_issue \<Rightarrow> string list" where
  "issue_lines e =
     [''  ['' @ path_text (is_loc e) @ '']'', ''    '' @ is_msg e @ issue_hint e, []]"

definition format_validation_error :: "validation_issue list \<Rightarrow> string \<Rightarrow> string" where
  "format_validation_error issues path =
     py_join [CHR 0x0A]
       ([CHR 0x0A # ''Config validation failed ('' @ int_str (int (length issues)) @ '' error(s)) - '' @ path @ '':'', []] @
        concat (map issue_lines issues) @
        [''  See config.example.yaml for the expected structure.''])"

section \<open>What the hints promise\<close>

text \<open>The bounds are bounds: trying them first saves work and changes nothing.\<close>

lemma common_chars_mset: "common_chars a b = size (mset a \<inter># mset b)"
proof (induction a b rule: common_chars.induct)
  case (2 x a b)
  then show ?case by (cases "x \<in> set b") (simp_all add: inter_add_left1 inter_add_left2)
qed simp

lemma mset_parts: "mset a = mset (take i a) + mset (take k (drop i a)) + mset (drop (i + k) a)"
  by (metis append_take_drop_id drop_drop mset_append add.commute add.assoc)

lemma inter_parts: "(x :: 'a multiset) \<inter># u + c + y \<inter># v \<subseteq># (x + c + y) \<inter># (u + c + v)"
  by (simp add: subset_mset.add_mono)

lemma matched_le_common: "matched a b \<le> size (mset a \<inter># mset b)"
proof (induction a b rule: matched.induct)
  case (1 a b)
  obtain i j k where m: "longest_match a b = (i, j, k)" by (cases "longest_match a b")
  show ?case
  proof (cases "k = 0")
    case False
    let ?x = "mset (take i a)" and ?y = "mset (drop (i + k) a)" and ?u = "mset (take j b)" and ?v = "mset (drop (j + k) b)"
    let ?c = "mset (take k (drop i a))"
    note d = longest_matchD [OF m]
    have "length (take k (drop i a)) = k" using conjunct1 [OF d] by simp
    then have c: "size ?c = k" by (simp only: size_mset)
    have "matched a b = matched (take i a) (take j b) + k + matched (drop (i + k) a) (drop (j + k) b)"
      using m False by (simp add: matched.simps [of a b])
    also have "\<dots> \<le> size (?x \<inter># ?u) + size ?c + size (?y \<inter># ?v)"
      unfolding c using 1 [OF m [symmetric] refl False] by (intro add_mono order_refl)
    also have "\<dots> = size (?x \<inter># ?u + ?c + ?y \<inter># ?v)" by simp
    also have "\<dots> \<le> size ((?x + ?c + ?y) \<inter># (?u + ?c + ?v))" by (rule size_mset_mono [OF inter_parts])
    also have "(?x + ?c + ?y) \<inter># (?u + ?c + ?v) = mset a \<inter># mset b"
      using mset_parts [of a i k] mset_parts [of b j k] d by simp
    finally show ?thesis .
  qed (use m in \<open>simp add: matched.simps [of a b]\<close>)
qed

lemma common_le_length: "size (mset a \<inter># mset b) \<le> min (length a) (length b)"
  using size_mset_mono [of "mset a \<inter># mset b" "mset a"] size_mset_mono [of "mset a \<inter># mset b" "mset b"] by simp

lemma score_mono: "m \<le> n \<Longrightarrow> score m a b \<le> score n a b"
  by (simp add: score_def divide_right_mono)

lemma quick_bounds: "ratio a b \<le> quick_ratio a b" "ratio a b \<le> real_quick_ratio a b"
  using matched_le_common [of a b] common_le_length [of a b] le_trans
  by (auto simp: ratio_def quick_ratio_def real_quick_ratio_def common_chars_mset intro!: score_mono)

lemma ratio_range: "0 \<le> ratio a b" "ratio a b \<le> 1"
proof -
  have "ratio a b \<le> real_quick_ratio a b" by (rule quick_bounds)
  also have "\<dots> \<le> 1"
  proof -
    have "rat_of_nat (2 * min (length a) (length b)) \<le> rat_of_nat (length a + length b)"
      by (simp only: of_nat_le_iff)
    moreover have "length a + length b \<noteq> 0 \<Longrightarrow> 0 < rat_of_nat (length a + length b)" by (simp only: of_nat_0_less_iff)
    ultimately show ?thesis
      unfolding real_quick_ratio_def score_def by (simp only: divide_le_eq_1 of_nat_mult of_nat_numeral order_refl split: if_split) simp
  qed
  finally show "ratio a b \<le> 1" .
  show "0 \<le> ratio a b" by (simp add: ratio_def score_def)
qed

lemma close_match_eq:
  "close_match word possibilities cutoff =
   map_option snd (best_pair [(ratio x word, x). x \<leftarrow> possibilities, cutoff \<le> ratio x word])"
proof -
  have "cutoff \<le> real_quick_ratio x word \<and> cutoff \<le> quick_ratio x word \<and> cutoff \<le> ratio x word \<longleftrightarrow>
      cutoff \<le> ratio x word" for x
    using quick_bounds [of x word] order_trans by blast
  then show ?thesis by (simp add: close_match_def)
qed

lemma best_pair:
  "best_pair ps = None \<longleftrightarrow> ps = []"
  "best_pair ps = Some p \<Longrightarrow> p \<in> set ps \<and> (\<forall>q \<in> set ps. fst q \<le> fst p)"
proof -
  show none: "best_pair ps = None \<longleftrightarrow> ps = []" for ps by (cases ps) (auto split: option.split)
  show "best_pair ps = Some p \<Longrightarrow> p \<in> set ps \<and> (\<forall>q \<in> set ps. fst q \<le> fst p)"
  proof (induction ps arbitrary: p)
    case (Cons q ps)
    show ?case
    proof (cases "best_pair ps")
      case None
      with Cons.prems none show ?thesis by auto
    next
      case (Some r)
      with Cons show ?thesis by (fastforce simp: better_def split: if_splits)
    qed
  qed simp
qed

text \<open>
  The key suggested is one of the valid keys, at least as close as asked and as close as any; no key
  is suggested only when none is close enough.
\<close>

lemma close_match_Some:
  assumes "close_match word possibilities cutoff = Some k"
  shows "k \<in> set possibilities" and "cutoff \<le> ratio k word" and "x \<in> set possibilities \<Longrightarrow> ratio x word \<le> ratio k word"
proof -
  from assms obtain r where
    "best_pair [(ratio x word, x). x \<leftarrow> possibilities, cutoff \<le> ratio x word] = Some (r, k)"
    by (auto simp: close_match_eq)
  from best_pair(2) [OF this] have k: "k \<in> set possibilities" "cutoff \<le> ratio k word"
    and all: "\<And>x. x \<in> set possibilities \<Longrightarrow> cutoff \<le> ratio x word \<Longrightarrow> ratio x word \<le> ratio k word" by auto
  show "k \<in> set possibilities" "cutoff \<le> ratio k word" by (rule k)+
  show "ratio x word \<le> ratio k word" if "x \<in> set possibilities"
    using all [OF that] k(2) by (cases "cutoff \<le> ratio x word") auto
qed

lemma close_match_None:
  "close_match word possibilities cutoff = None \<longleftrightarrow> (\<forall>x \<in> set possibilities. ratio x word < cutoff)"
proof -
  have "[(ratio x word, x). x \<leftarrow> ps, cutoff \<le> ratio x word] = [] \<longleftrightarrow> (\<forall>x \<in> set ps. ratio x word < cutoff)" for ps
    by (induction ps) (auto simp: not_le)
  then show ?thesis by (simp add: close_match_eq best_pair(1))
qed

text \<open>
  The hint for a key the configuration must not have. At the top level and inside a tenant alike
  it names a key that is valid there, no less similar than three fifths and no less than any other
  valid key; only when every valid key is less similar does it list them all instead.
\<close>
lemma extra_key_hint:
  assumes "is_type e = ''extra_forbidden''" and "is_loc e = loc @ [Key bad]"
  defines "valid \<equiv> (if Key ''tenants'' \<in> set (is_loc e) then tenant_keys else app_keys)"
  shows "(\<exists>k \<in> set valid. issue_hint e = fix_line (''did you mean '' @ [CHR 0x22] @ k @ [CHR 0x22] @ ''?'') \<and>
      3 / 5 \<le> ratio k bad \<and> (\<forall>x \<in> set valid. ratio x bad \<le> ratio k bad)) \<or>
    issue_hint e = fix_line (''valid keys at this level are '' @ py_repr (jstrs (sort valid))) \<and>
      (\<forall>x \<in> set valid. ratio x bad < 3 / 5)"
proof (cases "close_match bad valid (3 / 5)")
  case None
  then show ?thesis
    using assms close_match_None [of bad valid "3 / 5"]
    by (simp add: issue_hint_def key_candidates_def part_str_def Let_def)
next
  case (Some k)
  have "issue_hint e = fix_line (''did you mean '' @ [CHR 0x22] @ k @ [CHR 0x22] @ ''?'')"
    using assms Some by (simp add: issue_hint_def key_candidates_def part_str_def Let_def)
  then show ?thesis using close_match_Some [OF Some] by blast
qed

lemma extra_key_hint_witness:
  "issue_hint \<lparr>is_loc = [Key ''tenants'', Key ''t1'', Key ''user''], is_type = ''extra_forbidden'', is_msg = [],
      is_input = None, is_expected = None\<rparr> = fix_line (''did you mean '' @ [CHR 0x22] @ ''users'' @ [CHR 0x22] @ ''?'')"
proof -
  let ?e = "\<lparr>is_loc = [Key ''tenants'', Key ''t1'', Key ''user''], is_type = ''extra_forbidden'', is_msg = [],
      is_input = None, is_expected = None\<rparr>"
  have r: "ratio ''users'' ''user'' = 8 / 9" "ratio ''provider'' ''user'' < 8 / 9" "ratio ''clients'' ''user'' < 8 / 9"
    "ratio ''realm_roles'' ''user'' < 8 / 9" "ratio ''service_principals'' ''user'' < 8 / 9"
    by code_simp+
  from extra_key_hint [of ?e "[Key ''tenants'', Key ''t1'']" "''user''"] r
  show ?thesis by (auto simp: tenant_keys_def)
qed

end
