(* ===== verification/Keys.thy ===== *)
theory Keys
  imports Models
begin

text \<open>
  \<open>keys.py\<close>: the per-issuer key bundles, their lazy creation, rotation and publication. Key
  generation is the JOSE library's: the state carries the library's source of key material
  (\<open>ks_gen n\<close> is the \<open>n\<close>-th material it hands out, \<open>ks_drawn\<close> how many were drawn). That two draws
  never give the same material is the hypothesis \<open>inj (ks_gen s)\<close>, part of the invariant.
  The locale \<open>key_resolver\<close> is the \<open>KeyResolver\<close> protocol of \<open>token_handler.py\<close> with the laws the
  handlers rely on; this theory interprets it on the global key store.
\<close>

named_theorems key_simps \<open>closed forms of the key operations\<close>

section \<open>Keys and key bundles\<close>

datatype kty = RSA | EC

record jwk =
  jwk_kty :: kty
  jwk_kid :: string
  jwk_material :: nat

record key_source =
  ks_gen :: "nat \<Rightarrow> nat"
  ks_drawn :: nat

record issuer_keys =
  ik_issuer :: string
  ik_seq :: int
  ik_signing :: jwk
  ik_alt :: jwk
  ik_decoys :: "jwk list"
  ik_ec_signing :: jwk
  ik_ec_alt :: jwk

record key_store = key_source +
  ks_stores :: "(string, issuer_keys) dict"

definition generate_key ::
  "kty \<Rightarrow> string \<Rightarrow> 'a key_source_scheme \<Rightarrow> jwk \<times> 'a key_source_scheme" where
  "generate_key t kid s =
     (\<lparr>jwk_kty = t, jwk_kid = kid, jwk_material = ks_gen s (ks_drawn s)\<rparr>,
      s\<lparr>ks_drawn := Suc (ks_drawn s)\<rparr>)"

definition new_rsa_key :: "string \<Rightarrow> 'a key_source_scheme \<Rightarrow> jwk \<times> 'a key_source_scheme" where
  "new_rsa_key kid s = generate_key RSA kid s"

definition new_ec_key :: "string \<Rightarrow> 'a key_source_scheme \<Rightarrow> jwk \<times> 'a key_source_scheme" where
  "new_ec_key kid s = generate_key EC kid s"

definition kid_prefix :: "string \<Rightarrow> string" where
  "kid_prefix issuer = ''mock-'' @ issuer"

definition new_issuer_keys ::
  "string \<Rightarrow> 'a key_source_scheme \<Rightarrow> issuer_keys \<times> 'a key_source_scheme" where
  "new_issuer_keys issuer s0 =
     (let prefix = kid_prefix issuer;
          (signing, s1) = new_rsa_key (prefix @ ''-1'') s0;
          (alt, s2) = new_rsa_key (prefix @ ''-alt'') s1;
          (d1, s3) = new_rsa_key (prefix @ ''-d1'') s2;
          (d2, s4) = new_rsa_key (prefix @ ''-d2'') s3;
          (ec, s5) = new_ec_key (prefix @ ''-ec-1'') s4;
          (ecalt, s6) = new_ec_key (prefix @ ''-ec-alt'') s5
      in (\<lparr>ik_issuer = issuer, ik_seq = 1, ik_signing = signing, ik_alt = alt,
           ik_decoys = [d1, d2], ik_ec_signing = ec, ik_ec_alt = ecalt\<rparr>, s6))"

definition ik_jwks_keys :: "issuer_keys \<Rightarrow> jwk list" where
  "ik_jwks_keys ik = [ik_signing ik, ik_ec_signing ik] @ ik_decoys ik"

definition ik_rotate ::
  "issuer_keys \<Rightarrow> 'a key_source_scheme \<Rightarrow> issuer_keys \<times> 'a key_source_scheme" where
  "ik_rotate ik s =
     (let seq = ik_seq ik + 1;
          (k, s') = new_rsa_key (kid_prefix (ik_issuer ik) @ ''-'' @ int_str seq) s
      in (ik\<lparr>ik_seq := seq, ik_signing := k\<rparr>, s'))"

definition ik_signing_key_for_alg :: "issuer_keys \<Rightarrow> string \<Rightarrow> jwk" where
  "ik_signing_key_for_alg ik alg = (if alg = ''ES256'' then ik_ec_signing ik else ik_signing ik)"

definition ik_alt_key_for_alg :: "issuer_keys \<Rightarrow> string \<Rightarrow> jwk" where
  "ik_alt_key_for_alg ik alg = (if alg = ''ES256'' then ik_ec_alt ik else ik_alt ik)"

section \<open>The module-level store\<close>

text \<open>
  \<open>_get\<close>, run by one thread at a time: a hit returns the stored bundle, a miss creates it. The
  double-checked locking around the creation is the theory KeyLock.
\<close>

definition key_get :: "string \<Rightarrow> key_store \<Rightarrow> issuer_keys \<times> key_store" where
  "key_get issuer s =
     (case dget (ks_stores s) issuer of
        Some ik \<Rightarrow> (ik, s)
      | None \<Rightarrow>
          (let (ik, s') = new_issuer_keys issuer s
           in (ik, s'\<lparr>ks_stores := dset (ks_stores s') issuer ik\<rparr>)))"

definition get_signing_key :: "string \<Rightarrow> key_store \<Rightarrow> jwk \<times> key_store" where
  "get_signing_key issuer s = (let (ik, s') = key_get issuer s in (ik_signing ik, s'))"

definition get_alt_key :: "string \<Rightarrow> key_store \<Rightarrow> jwk \<times> key_store" where
  "get_alt_key issuer s = (let (ik, s') = key_get issuer s in (ik_alt ik, s'))"

definition get_signing_key_for_alg :: "string \<Rightarrow> string \<Rightarrow> key_store \<Rightarrow> jwk \<times> key_store" where
  "get_signing_key_for_alg issuer alg s =
     (let (ik, s') = key_get issuer s in (ik_signing_key_for_alg ik alg, s'))"

definition get_alt_key_for_alg :: "string \<Rightarrow> string \<Rightarrow> key_store \<Rightarrow> jwk \<times> key_store" where
  "get_alt_key_for_alg issuer alg s =
     (let (ik, s') = key_get issuer s in (ik_alt_key_for_alg ik alg, s'))"

definition get_jwks_keys :: "string \<Rightarrow> key_store \<Rightarrow> jwk list \<times> key_store" where
  "get_jwks_keys issuer s = (let (ik, s') = key_get issuer s in (ik_jwks_keys ik, s'))"

text \<open>The key whose public PEM \<open>get_signing_public_key_pem\<close> exports.\<close>

definition get_signing_public_key :: "string \<Rightarrow> key_store \<Rightarrow> jwk \<times> key_store" where
  "get_signing_public_key issuer s = (let (ik, s') = key_get issuer s in (ik_signing ik, s'))"

text \<open>\<open>rotate(issuer)\<close> for one issuer, and \<open>rotate(None)\<close> for a snapshot of the known ones.\<close>

definition rotate_issuer :: "string \<Rightarrow> key_store \<Rightarrow> jwk \<times> key_store" where
  "rotate_issuer issuer s =
     (let (ik, s1) = key_get issuer s;
          (ik', s2) = ik_rotate ik s1
      in (ik_signing ik', s2\<lparr>ks_stores := dset (ks_stores s2) issuer ik'\<rparr>))"

fun rotate_names :: "string list \<Rightarrow> key_store \<Rightarrow> (string, string) dict \<times> key_store" where
  "rotate_names [] s = ([], s)"
| "rotate_names (name # names) s =
     (let (k, s') = rotate_issuer name s;
          (kids, s'') = rotate_names names s'
      in ((name, jwk_kid k) # kids, s''))"

definition rotate_all :: "key_store \<Rightarrow> (string, string) dict \<times> key_store" where
  "rotate_all s = rotate_names (dkeys (ks_stores s)) s"

definition rotate_keys ::
  "string option \<Rightarrow> key_store \<Rightarrow> (jwk + (string, string) dict) \<times> key_store" where
  "rotate_keys issuer s =
     (case issuer of
        Some i \<Rightarrow> (let (k, s') = rotate_issuer i s in (Inl k, s'))
      | None \<Rightarrow> (let (d, s') = rotate_all s in (Inr d, s')))"

definition all_signing_kids :: "key_store \<Rightarrow> (string, string) dict" where
  "all_signing_kids s = map (\<lambda>(name, ik). (name, jwk_kid (ik_signing ik))) (ks_stores s)"

definition all_jwks_keys :: "key_store \<Rightarrow> jwk list" where
  "all_jwks_keys s = concat (map (\<lambda>(name, ik). ik_jwks_keys ik) (ks_stores s))"

section \<open>Closed forms\<close>

text \<open>The bundle made from the materials drawn at positions \<open>n\<close> to \<open>n + 5\<close>.\<close>

definition bundle_at :: "string \<Rightarrow> (nat \<Rightarrow> nat) \<Rightarrow> nat \<Rightarrow> issuer_keys" where
  "bundle_at issuer g n =
     \<lparr>ik_issuer = issuer, ik_seq = 1,
      ik_signing = \<lparr>jwk_kty = RSA, jwk_kid = kid_prefix issuer @ ''-1'', jwk_material = g n\<rparr>,
      ik_alt = \<lparr>jwk_kty = RSA, jwk_kid = kid_prefix issuer @ ''-alt'', jwk_material = g (n + 1)\<rparr>,
      ik_decoys =
        [\<lparr>jwk_kty = RSA, jwk_kid = kid_prefix issuer @ ''-d1'', jwk_material = g (n + 2)\<rparr>,
         \<lparr>jwk_kty = RSA, jwk_kid = kid_prefix issuer @ ''-d2'', jwk_material = g (n + 3)\<rparr>],
      ik_ec_signing =
        \<lparr>jwk_kty = EC, jwk_kid = kid_prefix issuer @ ''-ec-1'', jwk_material = g (n + 4)\<rparr>,
      ik_ec_alt =
        \<lparr>jwk_kty = EC, jwk_kid = kid_prefix issuer @ ''-ec-alt'', jwk_material = g (n + 5)\<rparr>\<rparr>"

lemma generate_key_at:
  "generate_key t kid (s\<lparr>ks_drawn := n\<rparr>) =
     (\<lparr>jwk_kty = t, jwk_kid = kid, jwk_material = ks_gen s n\<rparr>, s\<lparr>ks_drawn := Suc n\<rparr>)"
  by (simp add: generate_key_def)

lemma new_issuer_keys_at:
  "new_issuer_keys issuer (s\<lparr>ks_drawn := n\<rparr>) =
     (bundle_at issuer (ks_gen s) n, s\<lparr>ks_drawn := n + 6\<rparr>)"
proof -
  have e: "n + 1 = Suc n" "n + 2 = Suc (Suc n)" "n + 3 = Suc (Suc (Suc n))"
    "n + 4 = Suc (Suc (Suc (Suc n)))" "n + 5 = Suc (Suc (Suc (Suc (Suc n))))"
    "n + 6 = Suc (Suc (Suc (Suc (Suc (Suc n)))))" by simp_all
  show ?thesis
    unfolding new_issuer_keys_def new_rsa_key_def new_ec_key_def generate_key_at Let_def
      prod.case e bundle_at_def by (rule refl)
qed

lemma new_issuer_keys_eq [key_simps]:
  "new_issuer_keys issuer s =
     (bundle_at issuer (ks_gen s) (ks_drawn s), s\<lparr>ks_drawn := ks_drawn s + 6\<rparr>)"
  using new_issuer_keys_at [of issuer "ks_drawn s" s] by simp

lemma ik_rotate_eq [key_simps]:
  "ik_rotate ik s =
     (ik\<lparr>ik_seq := ik_seq ik + 1,
         ik_signing := \<lparr>jwk_kty = RSA,
           jwk_kid = kid_prefix (ik_issuer ik) @ ''-'' @ int_str (ik_seq ik + 1),
           jwk_material = ks_gen s (ks_drawn s)\<rparr>\<rparr>,
      s\<lparr>ks_drawn := Suc (ks_drawn s)\<rparr>)"
  by (simp add: ik_rotate_def new_rsa_key_def generate_key_def Let_def)

lemma key_get_hit: "dget (ks_stores s) issuer = Some ik \<Longrightarrow> key_get issuer s = (ik, s)"
  by (simp add: key_get_def)

lemma key_get_miss:
  "dget (ks_stores s) issuer = None \<Longrightarrow>
   key_get issuer s =
     (bundle_at issuer (ks_gen s) (ks_drawn s),
      s\<lparr>ks_drawn := ks_drawn s + 6,
        ks_stores := dset (ks_stores s) issuer (bundle_at issuer (ks_gen s) (ks_drawn s))\<rparr>)"
  by (simp add: key_get_def new_issuer_keys_eq)

text \<open>Case analysis of \<open>_get\<close>: the bundle was there, or is the next one the library makes.\<close>

lemma key_get_cases:
  assumes "key_get issuer s = (ik, s')"
  obtains (hit) "dget (ks_stores s) issuer = Some ik" "s' = s"
  | (miss) "dget (ks_stores s) issuer = None" "ik = bundle_at issuer (ks_gen s) (ks_drawn s)"
      "s' = s\<lparr>ks_drawn := ks_drawn s + 6, ks_stores := dset (ks_stores s) issuer ik\<rparr>"
  using assms by (cases "dget (ks_stores s) issuer") (auto simp: key_get_hit key_get_miss)

lemma key_get_stored:
  "key_get issuer s = (ik, s') \<Longrightarrow> dget (ks_stores s') issuer = Some ik"
  by (erule key_get_cases) simp_all

text \<open>A second \<open>_get\<close> of the same issuer returns the same bundle and changes nothing.\<close>

lemma key_get_idem: "key_get issuer s = (ik, s') \<Longrightarrow> key_get issuer s' = (ik, s')"
  by (rule key_get_hit [OF key_get_stored])

lemma key_get_other:
  "key_get i s = (ik, s') \<Longrightarrow> j \<noteq> i \<Longrightarrow> dget (ks_stores s') j = dget (ks_stores s) j"
  by (erule key_get_cases) simp_all

lemma key_get_preserves:
  "key_get i s = (ik, s') \<Longrightarrow> dget (ks_stores s) j = Some jk \<Longrightarrow> dget (ks_stores s') j = Some jk"
  by (erule key_get_cases) auto

section \<open>The invariant of the store\<close>

text \<open>Every key of a bundle, published or not.\<close>

definition ik_keys :: "issuer_keys \<Rightarrow> jwk list" where
  "ik_keys ik = [ik_signing ik, ik_alt ik] @ ik_decoys ik @ [ik_ec_signing ik, ik_ec_alt ik]"

definition ik_materials :: "issuer_keys \<Rightarrow> nat list" where
  "ik_materials ik = map jwk_material (ik_keys ik)"

definition has_key :: "kty \<Rightarrow> string \<Rightarrow> jwk \<Rightarrow> bool" where
  "has_key t kid k = (jwk_kty k = t \<and> jwk_kid k = kid)"

text \<open>A bundle of the issuer: the documented kid scheme, and six different key materials.\<close>

definition issuer_keys_ok :: "string \<Rightarrow> issuer_keys \<Rightarrow> bool" where
  "issuer_keys_ok i ik =
     (ik_issuer ik = i \<and> 1 \<le> ik_seq ik \<and>
      has_key RSA (kid_prefix i @ ''-'' @ int_str (ik_seq ik)) (ik_signing ik) \<and>
      has_key RSA (kid_prefix i @ ''-alt'') (ik_alt ik) \<and>
      list_all2 (has_key RSA) [kid_prefix i @ ''-d1'', kid_prefix i @ ''-d2''] (ik_decoys ik) \<and>
      has_key EC (kid_prefix i @ ''-ec-1'') (ik_ec_signing ik) \<and>
      has_key EC (kid_prefix i @ ''-ec-alt'') (ik_ec_alt ik) \<and>
      distinct (ik_materials ik))"

definition drawn_materials :: "'a key_source_scheme \<Rightarrow> nat set" where
  "drawn_materials s = ks_gen s ` {..<ks_drawn s}"

text \<open>
  Reachable stores: the library never repeats a key, every stored bundle is well formed and made of
  drawn materials, and no two issuers share a key.
\<close>

definition key_store_inv :: "key_store \<Rightarrow> bool" where
  "key_store_inv s =
     (inj (ks_gen s) \<and> dict_ok (ks_stores s) \<and>
      (\<forall>i ik. dget (ks_stores s) i = Some ik \<longrightarrow>
         issuer_keys_ok i ik \<and> set (ik_materials ik) \<subseteq> drawn_materials s) \<and>
      (\<forall>i j ik jk. i \<noteq> j \<longrightarrow> dget (ks_stores s) i = Some ik \<longrightarrow> dget (ks_stores s) j = Some jk \<longrightarrow>
         set (ik_materials ik) \<inter> set (ik_materials jk) = {}))"

definition empty_key_store :: "(nat \<Rightarrow> nat) \<Rightarrow> key_store" where
  "empty_key_store g = \<lparr>ks_gen = g, ks_drawn = 0, ks_stores = []\<rparr>"

lemma key_store_inv_empty: "inj g \<Longrightarrow> key_store_inv (empty_key_store g)"
  by (simp add: key_store_inv_def empty_key_store_def)

lemma key_store_invD:
  assumes "key_store_inv s" and "dget (ks_stores s) i = Some ik"
  shows "issuer_keys_ok i ik" and "set (ik_materials ik) \<subseteq> drawn_materials s"
  using assms by (auto simp: key_store_inv_def)

lemma key_store_inv_disjoint:
  assumes "key_store_inv s" and "i \<noteq> j"
    and "dget (ks_stores s) i = Some ik" and "dget (ks_stores s) j = Some jk"
  shows "set (ik_materials ik) \<inter> set (ik_materials jk) = {}"
  using assms unfolding key_store_inv_def by blast

lemma fresh_material:
  "inj (ks_gen s) \<Longrightarrow> ks_drawn s \<le> n \<Longrightarrow> ks_gen s n \<notin> drawn_materials s"
  by (auto simp: drawn_materials_def inj_eq)

lemma bundle_at_materials:
  "ik_materials (bundle_at i g n) = [g n, g (n + 1), g (n + 2), g (n + 3), g (n + 4), g (n + 5)]"
  by (simp add: ik_materials_def ik_keys_def bundle_at_def)

lemma bundle_at_materials_set: "set (ik_materials (bundle_at i g n)) = g ` {n..<n + 6}"
proof -
  have "{n..<n + 6} = {n, n + 1, n + 2, n + 3, n + 4, n + 5}" by auto
  then show ?thesis by (simp add: bundle_at_materials)
qed

lemma issuer_keys_ok_bundle_at: "inj g \<Longrightarrow> issuer_keys_ok i (bundle_at i g n)"
  unfolding issuer_keys_ok_def bundle_at_materials
  by (simp add: bundle_at_def has_key_def inj_eq int_str_1)

lemma drawn_materials_mono:
  "n \<le> m \<Longrightarrow> drawn_materials (s\<lparr>ks_drawn := n\<rparr>) \<subseteq> drawn_materials (s\<lparr>ks_drawn := m\<rparr>)"
  by (auto simp: drawn_materials_def)

text \<open>
  Storing a well-formed bundle keeps the invariant when its materials are drawn and none of them is
  another issuer's: the one step that \<open>_get\<close> and \<open>rotate\<close> have in common.
\<close>

lemma key_store_inv_store:
  assumes inv: "key_store_inv s" and ok: "issuer_keys_ok i ik" and n: "ks_drawn s \<le> n"
    and drawn: "set (ik_materials ik) \<subseteq> ks_gen s ` {..<n}"
    and other: "\<And>j jk. j \<noteq> i \<Longrightarrow> dget (ks_stores s) j = Some jk \<Longrightarrow>
      set (ik_materials ik) \<inter> set (ik_materials jk) = {}"
  shows "key_store_inv (s\<lparr>ks_drawn := n, ks_stores := dset (ks_stores s) i ik\<rparr>)"
proof -
  have mono: "drawn_materials s \<subseteq> ks_gen s ` {..<n}"
    using n by (auto simp: drawn_materials_def)
  have "issuer_keys_ok j jk \<and> set (ik_materials jk) \<subseteq> ks_gen s ` {..<n}"
    if "dget (dset (ks_stores s) i ik) j = Some jk" for j jk
    using that ok drawn mono key_store_invD [OF inv, of j jk] by (cases "j = i") auto
  moreover have "set (ik_materials jk) \<inter> set (ik_materials lk) = {}"
    if "j \<noteq> l" "dget (dset (ks_stores s) i ik) j = Some jk"
      "dget (dset (ks_stores s) i ik) l = Some lk" for j l jk lk
    using that other [of j jk] other [of l lk] key_store_inv_disjoint [OF inv, of j l jk lk]
    by (cases "j = i"; cases "l = i") auto
  ultimately show ?thesis
    using inv by (simp add: key_store_inv_def drawn_materials_def)
qed

lemma key_get_inv:
  assumes inv: "key_store_inv s" and get: "key_get i s = (ik, s')"
  shows "key_store_inv s'"
  using get
proof (cases rule: key_get_cases)
  case miss
  have inj: "inj (ks_gen s)" using inv by (simp add: key_store_inv_def)
  have mats: "set (ik_materials ik) = ks_gen s ` {ks_drawn s..<ks_drawn s + 6}"
    unfolding miss(2) by (rule bundle_at_materials_set)
  show ?thesis unfolding miss(3)
  proof (rule key_store_inv_store [OF inv])
    show "issuer_keys_ok i ik"
      unfolding miss(2) using inj by (rule issuer_keys_ok_bundle_at)
    show "set (ik_materials ik) \<subseteq> ks_gen s ` {..<ks_drawn s + 6}"
      unfolding mats by auto
    fix j jk assume "dget (ks_stores s) j = Some jk"
    then have "set (ik_materials jk) \<subseteq> drawn_materials s"
      by (rule key_store_invD(2) [OF inv])
    then show "set (ik_materials ik) \<inter> set (ik_materials jk) = {}"
      unfolding mats using fresh_material [OF inj] by fastforce
  qed simp
qed (simp add: inv)

lemma key_get_ok:
  assumes "key_store_inv s" and "key_get i s = (ik, s')"
  shows "issuer_keys_ok i ik"
  using key_store_invD(1) [OF key_get_inv [OF assms] key_get_stored [OF assms(2)]] .

text \<open>Rotation of a stored bundle.\<close>

lemma ik_rotate_materials:
  "ik_rotate ik s = (ik', s') \<Longrightarrow>
   ik_materials ik' = ks_gen s (ks_drawn s) # tl (ik_materials ik)"
  by (auto simp: ik_rotate_eq ik_materials_def ik_keys_def)

lemma issuer_keys_ok_rotate:
  assumes "issuer_keys_ok i ik" and "ik_rotate ik s = (ik', s')"
    and "ks_gen s (ks_drawn s) \<notin> set (ik_materials ik)"
  shows "issuer_keys_ok i ik'"
proof -
  have m: "ik_materials ik \<noteq> []" by (simp add: ik_materials_def ik_keys_def)
  have "distinct (ik_materials ik')"
    using assms(1,3) m list.set_sel(2)
    by (cases "ik_materials ik") (auto simp: ik_rotate_materials [OF assms(2)] issuer_keys_ok_def)
  with assms(1,2) show ?thesis
    by (auto simp: issuer_keys_ok_def ik_rotate_eq has_key_def)
qed

lemma rotate_issuer_eq:
  assumes "key_get i s = (ik, s1)"
  shows "rotate_issuer i s =
    (ik_signing (fst (ik_rotate ik s1)),
     s1\<lparr>ks_drawn := Suc (ks_drawn s1),
        ks_stores := dset (ks_stores s1) i (fst (ik_rotate ik s1))\<rparr>)"
  using assms by (simp add: rotate_issuer_def ik_rotate_eq)

lemma rotate_issuer_inv:
  assumes inv: "key_store_inv s" and rot: "rotate_issuer i s = (k, s')"
  shows "key_store_inv s'"
proof -
  obtain ik s1 where get: "key_get i s = (ik, s1)" by (cases "key_get i s")
  obtain ik' s2 where r: "ik_rotate ik s1 = (ik', s2)" by (cases "ik_rotate ik s1")
  have inv1: "key_store_inv s1" by (rule key_get_inv [OF inv get])
  have inj: "inj (ks_gen s1)" using inv1 by (simp add: key_store_inv_def)
  have st: "dget (ks_stores s1) i = Some ik" by (rule key_get_stored [OF get])
  have old: "set (ik_materials ik) \<subseteq> drawn_materials s1"
    by (rule key_store_invD(2) [OF inv1 st])
  have new: "ks_gen s1 (ks_drawn s1) \<notin> drawn_materials s1"
    by (rule fresh_material [OF inj]) simp
  have mats: "set (ik_materials ik') \<subseteq> insert (ks_gen s1 (ks_drawn s1)) (set (ik_materials ik))"
    unfolding ik_rotate_materials [OF r] by (cases "ik_materials ik") auto
  have s': "s' = s1\<lparr>ks_drawn := Suc (ks_drawn s1), ks_stores := dset (ks_stores s1) i ik'\<rparr>"
    using rot rotate_issuer_eq [OF get] r by simp
  show ?thesis unfolding s'
  proof (rule key_store_inv_store [OF inv1])
    show "issuer_keys_ok i ik'"
      using issuer_keys_ok_rotate [OF key_store_invD(1) [OF inv1 st] r] old new by blast
    show "set (ik_materials ik') \<subseteq> ks_gen s1 ` {..<Suc (ks_drawn s1)}"
      using mats old by (force simp: drawn_materials_def)
    fix j jk assume j: "j \<noteq> i" "dget (ks_stores s1) j = Some jk"
    have "set (ik_materials jk) \<subseteq> drawn_materials s1"
      by (rule key_store_invD(2) [OF inv1 j(2)])
    moreover have "set (ik_materials ik) \<inter> set (ik_materials jk) = {}"
      using key_store_inv_disjoint [OF inv1 j(1) j(2) st] by auto
    ultimately show "set (ik_materials ik') \<inter> set (ik_materials jk) = {}"
      using mats new by blast
  qed simp
qed

lemma rotate_names_inv:
  "key_store_inv s \<Longrightarrow> rotate_names names s = (d, s') \<Longrightarrow> key_store_inv s'"
proof (induction names s arbitrary: d s' rule: rotate_names.induct)
  case (2 name names s)
  obtain k s1 where r: "rotate_issuer name s = (k, s1)" by (cases "rotate_issuer name s")
  obtain d1 s2 where rs: "rotate_names names s1 = (d1, s2)" by (cases "rotate_names names s1")
  have "key_store_inv s2"
    by (rule "2.IH" [OF r [symmetric] refl rotate_issuer_inv [OF "2.prems"(1) r] rs])
  with "2.prems"(2) r rs show ?case by simp
qed simp

text \<open>The published keys of a well-formed bundle have pairwise different kids.\<close>

lemma issuer_keys_ok_kids:
  assumes "issuer_keys_ok i ik"
  shows "map jwk_kid (ik_jwks_keys ik) =
    map ((@) (kid_prefix i)) [''-'' @ int_str (ik_seq ik), ''-ec-1'', ''-d1'', ''-d2'']"
  using assms by (auto simp: issuer_keys_ok_def ik_jwks_keys_def has_key_def list_all2_Cons1)

lemma int_str_no_letter:
  assumes "0 \<le> n" and "c \<in> set w" and "57 < code c"
  shows "int_str n \<noteq> w"
proof -
  have "c \<notin> set (nat_str (nat n))" using assms(3) by (intro nat_str_no_char) simp
  with assms show ?thesis by (auto simp: int_str_def)
qed

lemma issuer_keys_ok_kids_distinct:
  assumes "issuer_keys_ok i ik"
  shows "distinct (map jwk_kid (ik_jwks_keys ik))"
proof -
  have n: "0 \<le> ik_seq ik" using assms by (simp add: issuer_keys_ok_def)
  have "int_str (ik_seq ik) \<noteq> ''ec-1''"
    by (rule int_str_no_letter [OF n, of "CHR ''e''"]) (simp_all add: code_def)
  moreover have "int_str (ik_seq ik) \<noteq> ''d1''" "int_str (ik_seq ik) \<noteq> ''d2''"
    by (rule int_str_no_letter [OF n, of "CHR ''d''"]; simp add: code_def)+
  ultimately show ?thesis
    unfolding issuer_keys_ok_kids [OF assms] by simp
qed

section \<open>The KeyResolver protocol\<close>

text \<open>
  What the handlers call (\<open>token_handler.KeyResolver\<close>), and the laws they rely on: the key a token
  is signed with is published, for its own issuer only; the key of the wrong-signature fixture is
  not published; published kids are distinct; reading the keys twice gives the same keys. The state
  type is the provider's.
\<close>

locale key_resolver =
  fixes signing_key :: "string \<Rightarrow> string \<Rightarrow> 'k \<Rightarrow> jwk \<times> 'k"
    and alt_key :: "string \<Rightarrow> string \<Rightarrow> 'k \<Rightarrow> jwk \<times> 'k"
    and jwks :: "string \<Rightarrow> 'k \<Rightarrow> jwk list \<times> 'k"
    and public_key :: "string \<Rightarrow> 'k \<Rightarrow> jwk \<times> 'k"
    and kinv :: "'k \<Rightarrow> bool"
  assumes signing_inv: "kinv s \<Longrightarrow> kinv (snd (signing_key i a s))"
    and alt_inv: "kinv s \<Longrightarrow> kinv (snd (alt_key i a s))"
    and jwks_inv: "kinv s \<Longrightarrow> kinv (snd (jwks i s))"
    and public_inv: "kinv s \<Longrightarrow> kinv (snd (public_key i s))"
    and signing_published:
      "kinv s \<Longrightarrow> signing_key i a s = (k, s') \<Longrightarrow> k \<in> set (fst (jwks i s'))"
    and signing_foreign:
      "kinv s \<Longrightarrow> i \<noteq> j \<Longrightarrow> signing_key i a s = (k, s') \<Longrightarrow>
       jwk_material k \<notin> jwk_material ` set (fst (jwks j s'))"
    and alt_unpublished:
      "kinv s \<Longrightarrow> alt_key i a s = (k, s') \<Longrightarrow>
       jwk_material k \<notin> jwk_material ` set (fst (jwks i s'))"
    and jwks_stable: "kinv s \<Longrightarrow> jwks i s = (ks, s') \<Longrightarrow> jwks i s' = (ks, s')"
    and kids_distinct: "kinv s \<Longrightarrow> distinct (map jwk_kid (fst (jwks i s)))"
    and signing_type:
      "kinv s \<Longrightarrow> jwk_kty (fst (signing_key i a s)) = (if a = ''ES256'' then EC else RSA)"

text \<open>The global store keeps the laws.\<close>

lemma get_signing_key_for_alg_eq:
  "get_signing_key_for_alg i a s = (k, s') \<longleftrightarrow>
   (\<exists>ik. key_get i s = (ik, s') \<and> k = ik_signing_key_for_alg ik a)"
  by (auto simp: get_signing_key_for_alg_def split: prod.splits)

lemma get_alt_key_for_alg_eq:
  "get_alt_key_for_alg i a s = (k, s') \<longleftrightarrow>
   (\<exists>ik. key_get i s = (ik, s') \<and> k = ik_alt_key_for_alg ik a)"
  by (auto simp: get_alt_key_for_alg_def split: prod.splits)

lemma get_jwks_keys_eq:
  "get_jwks_keys i s = (ks, s') \<longleftrightarrow> (\<exists>ik. key_get i s = (ik, s') \<and> ks = ik_jwks_keys ik)"
  by (auto simp: get_jwks_keys_def split: prod.splits)

lemma get_jwks_keys_hit:
  "dget (ks_stores s) i = Some ik \<Longrightarrow> get_jwks_keys i s = (ik_jwks_keys ik, s)"
  by (simp add: get_jwks_keys_def key_get_hit)

lemma jwks_materials: "jwk_material ` set (ik_jwks_keys ik) \<subseteq> set (ik_materials ik)"
  by (auto simp: ik_jwks_keys_def ik_materials_def ik_keys_def)

lemma alt_not_in_jwks:
  assumes "issuer_keys_ok i ik"
  shows "jwk_material (ik_alt_key_for_alg ik a) \<notin> jwk_material ` set (ik_jwks_keys ik)"
  using assms
  by (auto simp: issuer_keys_ok_def ik_materials_def ik_keys_def ik_jwks_keys_def
      ik_alt_key_for_alg_def)

lemma other_issuer_jwks:
  assumes inv: "key_store_inv s" and st: "dget (ks_stores s) i = Some ik" and ne: "i \<noteq> j"
  shows "set (ik_materials ik) \<inter> jwk_material ` set (fst (get_jwks_keys j s)) = {}"
proof -
  obtain jk s' where j: "key_get j s = (jk, s')" by (cases "key_get j s")
  have st': "dget (ks_stores s') i = Some ik" by (rule key_get_preserves [OF j st])
  have "set (ik_materials ik) \<inter> set (ik_materials jk) = {}"
    by (rule key_store_inv_disjoint [OF key_get_inv [OF inv j] ne st' key_get_stored [OF j]])
  then show ?thesis using jwks_materials [of jk] by (auto simp: get_jwks_keys_def j)
qed

interpretation global_keys: key_resolver
  get_signing_key_for_alg get_alt_key_for_alg get_jwks_keys get_signing_public_key key_store_inv
proof unfold_locales
  fix s :: key_store and i j a k ks s'
  assume inv: "key_store_inv s"
  obtain ik t where g: "key_get i s = (ik, t)" by (cases "key_get i s")
  have t: "key_store_inv t" by (rule key_get_inv [OF inv g])
  have ok: "issuer_keys_ok i ik" by (rule key_get_ok [OF inv g])
  have st: "dget (ks_stores t) i = Some ik" by (rule key_get_stored [OF g])
  show "key_store_inv (snd (get_signing_key_for_alg i a s))"
    "key_store_inv (snd (get_alt_key_for_alg i a s))"
    "key_store_inv (snd (get_jwks_keys i s))"
    "key_store_inv (snd (get_signing_public_key i s))"
    by (simp_all add: get_signing_key_for_alg_def get_alt_key_for_alg_def get_jwks_keys_def
        get_signing_public_key_def g t)
  show "distinct (map jwk_kid (fst (get_jwks_keys i s)))"
    by (simp add: get_jwks_keys_def g issuer_keys_ok_kids_distinct [OF ok])
  show "jwk_kty (fst (get_signing_key_for_alg i a s)) = (if a = ''ES256'' then EC else RSA)"
    using ok by (simp add: get_signing_key_for_alg_def g ik_signing_key_for_alg_def
        issuer_keys_ok_def has_key_def)
  show "k \<in> set (fst (get_jwks_keys i s'))" if "get_signing_key_for_alg i a s = (k, s')"
    using that g st
    by (auto simp: get_signing_key_for_alg_eq get_jwks_keys_hit ik_signing_key_for_alg_def
        ik_jwks_keys_def)
  show "jwk_material k \<notin> jwk_material ` set (fst (get_jwks_keys i s'))"
    if "get_alt_key_for_alg i a s = (k, s')"
    using that g st alt_not_in_jwks [OF ok]
    by (auto simp: get_alt_key_for_alg_eq get_jwks_keys_hit)
  show "get_jwks_keys i s' = (ks, s')" if "get_jwks_keys i s = (ks, s')"
    using that g st by (auto simp: get_jwks_keys_eq get_jwks_keys_hit)
  show "jwk_material k \<notin> jwk_material ` set (fst (get_jwks_keys j s'))"
    if "i \<noteq> j" "get_signing_key_for_alg i a s = (k, s')"
  proof -
    have "s' = t" "jwk_material k \<in> set (ik_materials ik)"
      using that(2) g by (auto simp: get_signing_key_for_alg_eq ik_signing_key_for_alg_def
          ik_materials_def ik_keys_def)
    then show ?thesis using other_issuer_jwks [OF t st that(1)] by blast
  qed
qed

end
