(* ===== verification/Codec.thy ===== *)
theory Codec
  imports PyData
begin

text \<open>
  Base64url, as \<open>_b64url\<close> (tokens.py) writes it and the inner \<open>_b64decode\<close> of \<open>debug_decode\<close>
  (debug.py) reads it. The standard library's encoder and its lenient decoder
  (\<open>binascii.a2b_base64\<close> in its default mode) are written out; a byte is a character.
\<close>

section \<open>Encoding\<close>

definition b64_char :: "nat \<Rightarrow> char" where
  "b64_char n =
     (if n < 26 then char_of (65 + n)
      else if n < 52 then char_of (71 + n)
      else if n < 62 then char_of (n - 4)
      else if n = 62 then CHR ''-'' else CHR ''_'')"

abbreviation pad_char :: char where
  "pad_char \<equiv> CHR ''=''"

text \<open>\<open>base64.urlsafe_b64encode\<close>: three bytes make four characters, the last group is padded.\<close>

fun urlsafe_b64encode :: "string \<Rightarrow> string" where
  "urlsafe_b64encode [] = []"
| "urlsafe_b64encode [a] =
     [b64_char (code a div 4), b64_char (code a mod 4 * 16), pad_char, pad_char]"
| "urlsafe_b64encode [a, b] =
     [b64_char (code a div 4), b64_char (code a mod 4 * 16 + code b div 16),
      b64_char (code b mod 16 * 4), pad_char]"
| "urlsafe_b64encode (a # b # c # r) =
     b64_char (code a div 4) # b64_char (code a mod 4 * 16 + code b div 16) #
     b64_char (code b mod 16 * 4 + code c div 64) # b64_char (code c mod 64) # urlsafe_b64encode r"

definition rstrip_char :: "char \<Rightarrow> string \<Rightarrow> string" where
  "rstrip_char c s = rev (dropWhile (\<lambda>x. x = c) (rev s))"

definition b64url :: "string \<Rightarrow> string" where
  "b64url data = rstrip_char pad_char (urlsafe_b64encode data)"

section \<open>Decoding\<close>

text \<open>The value of a character of either alphabet: the URL-safe one is mapped onto the other first.\<close>

definition b64_val :: "char \<Rightarrow> nat option" where
  "b64_val c =
     (let n = code c in
      if 65 \<le> n \<and> n \<le> 90 then Some (n - 65)
      else if 97 \<le> n \<and> n \<le> 122 then Some (n - 71)
      else if 48 \<le> n \<and> n \<le> 57 then Some (n + 4)
      else if c = CHR ''-'' \<or> c = CHR ''+'' then Some 62
      else if c = CHR ''_'' \<or> c = CHR ''/'' then Some 63
      else None)"

text \<open>
  The decoder's loop: position in the group of four, padding characters seen in it, bits left over.
  Characters outside the alphabet are skipped, enough padding ends the input, and input that stops
  inside a group is an error.
\<close>

fun a2b_base64 :: "nat \<Rightarrow> nat \<Rightarrow> nat \<Rightarrow> string \<Rightarrow> string option" where
  "a2b_base64 quad pads left [] = (if quad = 0 then Some [] else None)"
| "a2b_base64 quad pads left (c # cs) =
     (if c = pad_char
      then (if 2 \<le> quad
            then (if 4 \<le> quad + Suc pads then Some [] else a2b_base64 quad (Suc pads) left cs)
            else a2b_base64 quad pads left cs)
      else (case b64_val c of
              None \<Rightarrow> a2b_base64 quad pads left cs
            | Some v \<Rightarrow>
                if quad = 0 then a2b_base64 1 0 v cs
                else if quad = 1
                  then map_option ((#) (char_of (left * 4 + v div 16))) (a2b_base64 2 0 (v mod 16) cs)
                else if quad = 2
                  then map_option ((#) (char_of (left * 16 + v div 4))) (a2b_base64 3 0 (v mod 4) cs)
                else map_option ((#) (char_of (left * 64 + v))) (a2b_base64 0 0 0 cs)))"

definition is_ascii :: "string \<Rightarrow> bool" where
  "is_ascii s = (\<forall>c \<in> set s. code c < 128)"

definition urlsafe_b64decode :: "string \<Rightarrow> string option" where
  "urlsafe_b64decode s = (if is_ascii s then a2b_base64 0 0 0 s else None)"

text \<open>\<open>seg += '=' * (-len(seg) % 4)\<close>, then decode.\<close>

definition pad_segment :: "string \<Rightarrow> string" where
  "pad_segment seg = seg @ replicate ((4 - length seg mod 4) mod 4) pad_char"

definition b64decode_segment :: "string \<Rightarrow> string option" where
  "b64decode_segment seg = urlsafe_b64decode (pad_segment seg)"

section \<open>Round trip\<close>

lemma code_lt_256 [simp]: "code c < 256"
  by (simp add: code_def)

lemma char_of_code [simp]: "char_of (code c) = c"
  by (simp add: code_def)

lemma code_char_of [simp]: "n < 256 \<Longrightarrow> code (char_of (n::nat)) = n"
  by (simp add: code_def)

lemma b64_char_cases:
  assumes "n < (64::nat)"
  obtains "n < 26" | "26 \<le> n" "n < 52" | "52 \<le> n" "n < 62" | "n = 62" | "n = 63"
  using assms by linarith

lemma code_b64_char:
  assumes "n < 64"
  shows "code (b64_char n) =
    (if n < 26 then 65 + n else if n < 52 then 71 + n else if n < 62 then n - 4
     else if n = 62 then 45 else 95)"
  using assms by (cases rule: b64_char_cases) (simp_all add: b64_char_def, simp_all add: code_def)

lemma b64_val_b64_char [simp]:
  assumes "n < 64"
  shows "b64_val (b64_char n) = Some n"
  using assms
  by (cases rule: b64_char_cases) (simp_all add: b64_val_def Let_def code_b64_char,
      simp_all add: b64_char_def, auto)

lemma b64_char_codes:
  assumes "n < 64"
  shows "code (b64_char n) \<noteq> 61" "code (b64_char n) \<noteq> 46" "code (b64_char n) < 128"
  using assms by (cases rule: b64_char_cases; simp add: code_b64_char)+

lemma b64_char_not_pad [simp]: "n < 64 \<Longrightarrow> b64_char n \<noteq> pad_char"
  using b64_char_codes(1) [of n] by (auto simp: code_def)

text \<open>The bit fields of one group, put back together.\<close>

lemma div_field: "y < k \<Longrightarrow> (m * k + y) div k = (m::nat)"
  and mod_field: "y < k \<Longrightarrow> (m * k + y) mod k = (y::nat)"
  by simp_all

lemma code_div_bounds [simp]: "code a div 4 < 64" "code a div 16 < 16" "code a div 64 < 4"
  by (rule less_mult_imp_div_less, simp)+

lemma b64_field_bounds [simp]:
  "code a mod 4 * 16 < 64" "code a mod 4 * 16 + code b div 16 < 64"
  "code b mod 16 * 4 < 64" "code b mod 16 * 4 + code c div 64 < 64"
proof -
  have "code a mod 4 < 4" "code b mod 16 < 16" by simp_all
  with code_div_bounds(2) [of b] code_div_bounds(3) [of c] show
    "code a mod 4 * 16 < 64" "code a mod 4 * 16 + code b div 16 < 64"
    "code b mod 16 * 4 < 64" "code b mod 16 * 4 + code c div 64 < 64"
    by linarith+
qed

lemma b64_join_first:
  assumes "y < 16"
  shows "x div 4 * 4 + (x mod 4 * 16 + y) div 16 = (x::nat)"
  unfolding div_field [OF assms] by simp

lemma b64_join_second:
  assumes "y div 16 < 16" and "z < 4"
  shows "(x mod 4 * 16 + y div 16) mod 16 * 16 + (y mod 16 * 4 + z) div 4 = (y::nat)"
  unfolding div_field [OF assms(2)] mod_field [OF assms(1)] by simp

lemma b64_join_third:
  assumes "z div 64 < 4"
  shows "(y mod 16 * 4 + z div 64) mod 4 * 64 + z mod 64 = (z::nat)"
  unfolding mod_field [OF assms] by simp

lemmas b64_joins =
  b64_join_first [OF code_div_bounds(2)] b64_join_first [of 0, simplified]
  b64_join_second [OF code_div_bounds(2) code_div_bounds(3)]
  b64_join_second [OF code_div_bounds(2), of 0, simplified]
  b64_join_third [OF code_div_bounds(3)]

lemma a2b_group:
  assumes "v < 64" "w < 64" "x < 64" "y < 64"
  shows "a2b_base64 0 0 0 (b64_char v # b64_char w # b64_char x # b64_char y # cs) =
    map_option (\<lambda>r. char_of (v * 4 + w div 16) # char_of (w mod 16 * 16 + x div 4) #
      char_of (x mod 4 * 64 + y) # r) (a2b_base64 0 0 0 cs)"
  using assms by (simp add: option.map_comp comp_def)

lemma a2b_encode: "a2b_base64 0 0 0 (urlsafe_b64encode s) = Some s"
proof (induction s rule: urlsafe_b64encode.induct)
  case (2 a)
  show ?case by (simp add: b64_joins)
next
  case (3 a b)
  show ?case by (simp add: b64_joins)
next
  case (4 a b c r)
  have m: "code c mod 64 < 64" by simp
  show ?case
    unfolding urlsafe_b64encode.simps
      a2b_group [OF code_div_bounds(1) b64_field_bounds(2) b64_field_bounds(4) m]
    by (simp add: b64_joins "4.IH")
qed simp

lemma rstrip_char_append_not: "x \<noteq> c \<Longrightarrow> rstrip_char c (s @ [x]) = s @ [x]"
  by (simp add: rstrip_char_def)

lemma rstrip_char_append: "rstrip_char c (s @ [c]) = rstrip_char c s"
  by (simp add: rstrip_char_def)

lemma rstrip_char_Cons: "x \<noteq> c \<Longrightarrow> rstrip_char c (x # s) = x # rstrip_char c s"
  by (simp add: rstrip_char_def dropWhile_append)

lemma pad_segment_group: "pad_segment (w # x # y # z # s) = w # x # y # z # pad_segment s"
proof -
  have "length (w # x # y # z # s) = length s + 4" by simp
  then have "length (w # x # y # z # s) mod 4 = length s mod 4" by (metis mod_add_self2)
  then show ?thesis by (simp add: pad_segment_def)
qed

text \<open>Stripping the padding and restoring it are inverse.\<close>

lemma pad_b64url: "pad_segment (b64url s) = urlsafe_b64encode s"
proof (induction s rule: urlsafe_b64encode.induct)
  case (4 a b c r)
  have "b64url (a # b # c # r) =
    b64_char (code a div 4) # b64_char (code a mod 4 * 16 + code b div 16) #
    b64_char (code b mod 16 * 4 + code c div 64) # b64_char (code c mod 64) # b64url r"
    by (simp add: b64url_def rstrip_char_Cons)
  with 4 show ?case by (simp add: pad_segment_group)
qed (simp_all add: b64url_def pad_segment_def rstrip_char_Cons rstrip_char_def numeral_2_eq_2)

lemma is_ascii_encode: "is_ascii (urlsafe_b64encode s)"
proof (induction s rule: urlsafe_b64encode.induct)
  case (4 a b c r)
  then show ?case by (simp add: is_ascii_def b64_char_codes)
qed (simp_all add: is_ascii_def b64_char_codes, simp_all add: code_def)

lemma b64decode_b64url: "b64decode_segment (b64url s) = Some s"
  by (simp add: b64decode_segment_def urlsafe_b64decode_def pad_b64url is_ascii_encode a2b_encode)

lemma b64url_inj: "b64url s = b64url t \<longleftrightarrow> s = t"
  by (metis b64decode_b64url option.inject)

text \<open>A segment has no dot, so the three segments of a token can be told apart.\<close>

lemma b64_char_not_dot: "n < 64 \<Longrightarrow> b64_char n \<noteq> CHR ''.''"
  using b64_char_codes(2) [of n] by (auto simp: code_def)

lemma encode_no_dot: "CHR ''.'' \<notin> set (urlsafe_b64encode s)"
  by (induction s rule: urlsafe_b64encode.induct) (simp_all add: b64_char_not_dot [symmetric])

lemma set_b64url: "c \<in> set (b64url s) \<Longrightarrow> c \<in> set (urlsafe_b64encode s)"
  by (auto simp: b64url_def rstrip_char_def dest: set_dropWhileD)

lemma b64url_no_dot: "CHR ''.'' \<notin> set (b64url s)"
  using encode_no_dot set_b64url by blast

end
