(* ===== verification/JsonText.thy ===== *)
theory JsonText
  imports PyData
begin

text \<open>
  JSON text as the standard library's \<open>json.dumps\<close> writes it (default separators, ASCII output) and
  \<open>json.loads\<close> reads it. \<open>make_unsigned_token\<close> and \<open>make_wrong_alg_token\<close> write claims with the
  first, \<open>debug_decode\<close> and the Postgres store read with the second. Numbers with a fraction or an
  exponent, \<open>NaN\<close> and the infinities, and code points above 255 have no value in the model; the
  reader rejects them. The interpreter's digit limit on integers is not modelled here.
\<close>

section \<open>Writing\<close>

definition esc_char :: "char \<Rightarrow> string" where
  "esc_char c =
     (let n = code c in
      if n = 34 \<or> n = 92 then [CHR 0x5C, c]
      else if n = 10 then [CHR 0x5C, CHR ''n'']
      else if n = 13 then [CHR 0x5C, CHR ''r'']
      else if n = 9 then [CHR 0x5C, CHR ''t'']
      else if n = 8 then [CHR 0x5C, CHR ''b'']
      else if n = 12 then [CHR 0x5C, CHR ''f'']
      else if n < 32 \<or> 126 < n
        then [CHR 0x5C, CHR ''u'', CHR ''0'', CHR ''0'', hex_digit (n div 16), hex_digit (n mod 16)]
      else [c])"

definition dumps_str :: "string \<Rightarrow> string" where
  "dumps_str s = CHR 0x22 # concat (map esc_char s) @ [CHR 0x22]"

fun dumps :: "json \<Rightarrow> string" where
  "dumps JNull = ''null''"
| "dumps (JBool b) = (if b then ''true'' else ''false'')"
| "dumps (JInt i) = int_str i"
| "dumps (JStr s) = dumps_str s"
| "dumps (JList xs) = ''['' @ py_join '', '' (map dumps xs) @ '']''"
| "dumps (JObj kvs) =
     ''{'' @ py_join '', '' (map (\<lambda>(k, v). dumps_str k @ '': '' @ dumps v) kvs) @ ''}''"

section \<open>Reading\<close>

definition json_ws :: "char \<Rightarrow> bool" where
  "json_ws c = (code c \<in> {9, 10, 13, 32})"

abbreviation skip_ws :: "string \<Rightarrow> string" where
  "skip_ws \<equiv> dropWhile json_ws"

definition hex_val :: "char \<Rightarrow> nat option" where
  "hex_val c =
     (let n = code c in
      if 48 \<le> n \<and> n \<le> 57 then Some (n - 48)
      else if 97 \<le> n \<and> n \<le> 102 then Some (n - 87)
      else if 65 \<le> n \<and> n \<le> 70 then Some (n - 55)
      else None)"

text \<open>The character a two-character escape stands for.\<close>

definition simple_escape :: "char \<Rightarrow> char option" where
  "simple_escape e =
     (let n = code e in
      if n = 34 \<or> n = 92 \<or> n = 47 then Some e
      else if e = CHR ''n'' then Some (char_of (10::nat))
      else if e = CHR ''r'' then Some (char_of (13::nat))
      else if e = CHR ''t'' then Some (char_of (9::nat))
      else if e = CHR ''b'' then Some (char_of (8::nat))
      else if e = CHR ''f'' then Some (char_of (12::nat))
      else None)"

definition hex4 :: "char \<Rightarrow> char \<Rightarrow> char \<Rightarrow> char \<Rightarrow> char option" where
  "hex4 a b c d =
     (case (hex_val a, hex_val b, hex_val c, hex_val d) of
        (Some 0, Some 0, Some m, Some n) \<Rightarrow> Some (char_of (16 * m + n))
      | _ \<Rightarrow> None)"

text \<open>The rest of a string literal, after its opening quote.\<close>

fun scan_string :: "string \<Rightarrow> (string \<times> string) option" where
  "scan_string [] = None"
| "scan_string (c # cs) =
     (if code c = 34 then Some ([], cs)
      else if code c < 32 then None
      else if code c = 92 then
        (case cs of
           [] \<Rightarrow> None
         | e # cs' \<Rightarrow>
             if e = CHR ''u'' then
               (case cs' of
                  h1 # h2 # h3 # h4 # cs'' \<Rightarrow>
                    (case hex4 h1 h2 h3 h4 of
                       None \<Rightarrow> None
                     | Some x \<Rightarrow> map_option (\<lambda>(t, r). (x # t, r)) (scan_string cs''))
                | _ \<Rightarrow> None)
             else
               (case simple_escape e of
                  None \<Rightarrow> None
                | Some x \<Rightarrow> map_option (\<lambda>(t, r). (x # t, r)) (scan_string cs')))
      else map_option (\<lambda>(t, r). (c # t, r)) (scan_string cs))"

definition is_digit :: "char \<Rightarrow> bool" where
  "is_digit c = (48 \<le> code c \<and> code c \<le> 57)"

text \<open>\<open>0\<close>, or a run of digits that does not start with \<open>0\<close>.\<close>

definition scan_nat :: "string \<Rightarrow> (nat \<times> string) option" where
  "scan_nat s =
     (case s of
        [] \<Rightarrow> None
      | c # r \<Rightarrow>
          if c = CHR ''0'' then Some (0, r)
          else if is_digit c
            then Some (digits_value (map (\<lambda>d. code d - 48) (takeWhile is_digit s)),
                       dropWhile is_digit s)
          else None)"

definition scan_int :: "string \<Rightarrow> (json \<times> string) option" where
  "scan_int s =
     (case s of
        c # r \<Rightarrow>
          if c = CHR ''-'' then map_option (\<lambda>(n, t). (JInt (- int n), t)) (scan_nat r)
          else map_option (\<lambda>(n, t). (JInt (int n), t)) (scan_nat s)
      | [] \<Rightarrow> None)"

text \<open>
  The recursive descent, with fuel for the nesting and the length of arrays and objects.
  \<open>parse_elems\<close> and \<open>parse_members\<close> start at an element, white space before it skipped.
\<close>

fun parse_value :: "nat \<Rightarrow> string \<Rightarrow> (json \<times> string) option"
and parse_elems :: "nat \<Rightarrow> string \<Rightarrow> (json list \<times> string) option"
and parse_members :: "nat \<Rightarrow> string \<Rightarrow> ((string \<times> json) list \<times> string) option" where
  "parse_value 0 s = None"
| "parse_value (Suc f) s =
     (case s of
        [] \<Rightarrow> None
      | c # r \<Rightarrow>
          if code c = 34 then map_option (\<lambda>(t, r'). (JStr t, r')) (scan_string r)
          else if c = CHR ''{'' then
            (case skip_ws r of
               [] \<Rightarrow> None
             | d # r' \<Rightarrow>
                 if d = CHR ''}'' then Some (JObj [], r')
                 else map_option (\<lambda>(kvs, t). (JObj (dict_of kvs), t)) (parse_members f (d # r')))
          else if c = CHR ''['' then
            (case skip_ws r of
               [] \<Rightarrow> None
             | d # r' \<Rightarrow>
                 if d = CHR '']'' then Some (JList [], r')
                 else map_option (\<lambda>(xs, t). (JList xs, t)) (parse_elems f (d # r')))
          else if prefix ''null'' s then Some (JNull, drop 4 s)
          else if prefix ''true'' s then Some (JBool True, drop 4 s)
          else if prefix ''false'' s then Some (JBool False, drop 5 s)
          else scan_int s)"
| "parse_elems 0 s = None"
| "parse_elems (Suc f) s =
     (case parse_value f s of
        None \<Rightarrow> None
      | Some (x, r) \<Rightarrow>
          (case skip_ws r of
             [] \<Rightarrow> None
           | d # r' \<Rightarrow>
               if d = CHR '','' then map_option (\<lambda>(xs, t). (x # xs, t)) (parse_elems f (skip_ws r'))
               else if d = CHR '']'' then Some ([x], r')
               else None))"
| "parse_members 0 s = None"
| "parse_members (Suc f) s =
     (case s of
        [] \<Rightarrow> None
      | q # r0 \<Rightarrow>
          if code q \<noteq> 34 then None
          else
            (case scan_string r0 of
               None \<Rightarrow> None
             | Some (k, r1) \<Rightarrow>
                 (case skip_ws r1 of
                    [] \<Rightarrow> None
                  | e # r2 \<Rightarrow>
                      if e \<noteq> CHR '':'' then None
                      else
                        (case parse_value f (skip_ws r2) of
                           None \<Rightarrow> None
                         | Some (x, r) \<Rightarrow>
                             (case skip_ws r of
                                [] \<Rightarrow> None
                              | d # r' \<Rightarrow>
                                  if d = CHR '','' then
                                    map_option (\<lambda>(kvs, t). ((k, x) # kvs, t))
                                      (parse_members f (skip_ws r'))
                                  else if d = CHR ''}'' then Some ([(k, x)], r')
                                  else None)))))"

text \<open>One value with white space around it; the text's length is fuel enough.\<close>

definition loads :: "string \<Rightarrow> json option" where
  "loads s =
     (case parse_value (Suc (length s)) (skip_ws s) of
        None \<Rightarrow> None
      | Some (x, r) \<Rightarrow> if skip_ws r = [] then Some x else None)"

section \<open>Reading back what was written\<close>

text \<open>A value whose objects have distinct keys at every level, as Python dictionaries do.\<close>

fun json_ok :: "json \<Rightarrow> bool" where
  "json_ok (JList xs) = list_all json_ok xs"
| "json_ok (JObj kvs) = (dict_ok kvs \<and> list_all (\<lambda>(k, v). json_ok v) kvs)"
| "json_ok _ = True"

lemma hex_val_hex_digit [simp]:
  assumes "n < 16"
  shows "hex_val (hex_digit n) = Some n"
proof (cases "n < 10")
  case True
  then show ?thesis by (simp add: hex_digit_def hex_val_def code_def)
next
  case False
  with assms show ?thesis by (auto simp: hex_digit_def hex_val_def code_def)
qed

lemma char_of_of_char: "char_of (code c) = c"
  by (simp add: code_def)

lemma esc_char_u:
  assumes "n = code c"
  shows "hex4 (CHR ''0'') (CHR ''0'') (hex_digit (n div 16)) (hex_digit (n mod 16)) = Some c"
proof -
  have "code c < 256" by (simp add: code_def)
  then have "n div 16 < 16" using assms by (intro less_mult_imp_div_less) simp
  moreover have "hex_val (CHR ''0'') = Some 0" by (simp add: hex_val_def code_def)
  ultimately show ?thesis using assms by (simp add: hex4_def char_of_of_char)
qed

lemma scan_string_esc:
  "scan_string (esc_char c @ s) = map_option (\<lambda>(t, r). (c # t, r)) (scan_string s)"
proof -
  have bs: "code (CHR 0x5C) = 92" by (simp add: code_def)
  have "code c = 34 \<or> code c = 92 \<Longrightarrow> simple_escape c = Some c"
    by (auto simp: simple_escape_def)
  moreover have "c \<noteq> CHR ''u''" if "code c = 34 \<or> code c = 92" using that by (auto simp: code_def)
  moreover have "simple_escape (CHR ''n'') = Some c" if "code c = 10"
    using that char_of_of_char [of c] by (simp add: simple_escape_def code_def)
  moreover have "simple_escape (CHR ''r'') = Some c" if "code c = 13"
    using that char_of_of_char [of c] by (simp add: simple_escape_def code_def)
  moreover have "simple_escape (CHR ''t'') = Some c" if "code c = 9"
    using that char_of_of_char [of c] by (simp add: simple_escape_def code_def)
  moreover have "simple_escape (CHR ''b'') = Some c" if "code c = 8"
    using that char_of_of_char [of c] by (simp add: simple_escape_def code_def)
  moreover have "simple_escape (CHR ''f'') = Some c" if "code c = 12"
    using that char_of_of_char [of c] by (simp add: simple_escape_def code_def)
  ultimately show ?thesis
    using esc_char_u [OF refl, of c] bs by (simp add: esc_char_def Let_def)
qed

lemma scan_string_dumps:
  "scan_string (concat (map esc_char s) @ CHR 0x22 # r) = Some (s, r)"
proof (induction s)
  case Nil
  show ?case by (simp add: code_def)
qed (simp add: scan_string_esc)

definition no_digit_next :: "string \<Rightarrow> bool" where
  "no_digit_next r = (case r of [] \<Rightarrow> True | c # _ \<Rightarrow> \<not> is_digit c)"

lemma is_digit_digit_char: "d < 10 \<Longrightarrow> is_digit (digit_char d)"
  by (simp add: is_digit_def digit_char_code)

lemma takeWhile_nat_str: "no_digit_next r \<Longrightarrow> takeWhile is_digit (nat_str n @ r) = nat_str n"
  and dropWhile_nat_str: "no_digit_next r \<Longrightarrow> dropWhile is_digit (nat_str n @ r) = r"
proof -
  have all: "\<forall>c \<in> set (nat_str n). is_digit c"
    using nat_str_digits is_digit_digit_char by blast
  assume "no_digit_next r"
  then have "takeWhile is_digit r = []" "dropWhile is_digit r = r"
    by (auto simp: no_digit_next_def split: list.splits)
  with all show "takeWhile is_digit (nat_str n @ r) = nat_str n"
    "dropWhile is_digit (nat_str n @ r) = r"
    by (simp_all add: takeWhile_append2 dropWhile_append2)
qed

lemma nat_str_value: "digits_value (map (\<lambda>d. code d - 48) (nat_str n)) = n"
proof (induction n rule: nat_str.induct)
  case (1 n)
  show ?case
  proof (cases "n < 10")
    case True
    then show ?thesis by (simp add: nat_str.simps [of n] digit_char_code digits_value_def)
  next
    case False
    have "code (digit_char (n mod 10)) = 48 + n mod 10" by (rule digit_char_code) simp
    with False 1 show ?thesis by (simp add: nat_str.simps [of n] digits_value_def)
  qed
qed

text \<open>A printed number starts with \<open>0\<close> only if it is \<open>0\<close>.\<close>

lemma nat_str_hd: "hd (nat_str n) = CHR ''0'' \<Longrightarrow> n = 0"
proof (induction n rule: nat_str.induct)
  case (1 n)
  show ?case
  proof (cases "n < 10")
    case True
    with 1(2) have "digit_char n = CHR ''0''" by (simp add: nat_str.simps [of n])
    then have "code (digit_char n) = 48" by (simp add: code_def)
    with True digit_char_code [of n] show ?thesis by simp
  next
    case False
    with 1(2) have "hd (nat_str (n div 10)) = CHR ''0''" by (simp add: nat_str.simps [of n])
    with False 1(1) have "n div 10 = 0" by blast
    with False show ?thesis by simp
  qed
qed

lemma nat_str_0: "nat_str 0 = ''0''"
  by code_simp

lemma scan_nat_nat_str:
  assumes "no_digit_next r"
  shows "scan_nat (nat_str n @ r) = Some (n, r)"
proof (cases "n = 0")
  case True
  then show ?thesis by (simp add: nat_str_0 scan_nat_def)
next
  case False
  obtain c t where ct: "nat_str n = c # t" by (cases "nat_str n") auto
  from False nat_str_hd [of n] ct have "c \<noteq> CHR ''0''" by auto
  moreover have "is_digit c"
    using nat_str_digits [of c n] ct is_digit_digit_char by auto
  ultimately show ?thesis
    using takeWhile_nat_str [OF assms, of n] dropWhile_nat_str [OF assms, of n]
      nat_str_value [of n] ct
    by (simp add: scan_nat_def)
qed

lemma scan_int_int_str:
  assumes "no_digit_next r"
  shows "scan_int (int_str i @ r) = Some (JInt i, r)"
proof (cases "i < 0")
  case True
  then show ?thesis
    by (simp add: int_str_def scan_int_def scan_nat_nat_str [OF assms])
next
  case False
  obtain c t where ct: "nat_str (nat i) = c # t" by (cases "nat_str (nat i)") auto
  have "CHR ''-'' \<notin> set (nat_str (nat i))" by (rule nat_str_no_char) (simp add: code_def)
  with ct have c: "c \<noteq> CHR ''-''" by auto
  from False have "int_str i = c # t" by (simp add: int_str_def ct)
  with c ct False scan_nat_nat_str [OF assms, of "nat i"] show ?thesis
    by (simp add: scan_int_def)
qed

text \<open>The first character of a printed value says which it is, and is never white space.\<close>

definition value_start :: "char \<Rightarrow> bool" where
  "value_start c =
     (\<not> json_ws c \<and> c \<noteq> CHR '']'' \<and> c \<noteq> CHR ''}'')"

lemma digit_start: "d < 10 \<Longrightarrow> value_start (digit_char d)"
  using digit_char_code [of d]
  by (auto simp: value_start_def json_ws_def digit_char_neq code_def)

lemma int_str_start: "\<exists>c r. int_str i = c # r \<and> (c = CHR ''-'' \<or> (\<exists>d<10. c = digit_char d))"
proof (cases "i < 0")
  case False
  obtain c t where ct: "nat_str (nat i) = c # t" by (cases "nat_str (nat i)") auto
  then have "\<exists>d<10. c = digit_char d" using nat_str_digits [of c "nat i"] by simp
  with False ct show ?thesis by (simp add: int_str_def)
qed (simp add: int_str_def)

lemma dumps_start: "\<exists>c r. dumps j = c # r \<and> value_start c"
proof (cases j)
  case (JInt i)
  then show ?thesis
    using int_str_start [of i] digit_start by (auto simp: value_start_def json_ws_def code_def)
qed (auto simp: dumps_str_def value_start_def json_ws_def code_def)

lemma dumps_not_Nil [simp]: "dumps j \<noteq> []"
  using dumps_start [of j] by auto

lemma skip_ws_dumps [simp]: "skip_ws (dumps j @ r) = dumps j @ r"
  using dumps_start [of j] by (auto simp: value_start_def)

lemma skip_ws_space [simp]: "skip_ws (CHR '' '' # s) = skip_ws s"
  by (simp add: json_ws_def code_def)

lemma json_ws_sep [simp]:
  "\<not> json_ws CHR '','' " "\<not> json_ws CHR '':'' " "\<not> json_ws CHR '']'' " "\<not> json_ws CHR ''}'' "
  "\<not> json_ws CHR 0x22" "json_ws CHR '' ''"
  by (simp_all add: json_ws_def code_def)

lemma skip_ws_quote [simp]: "skip_ws (CHR 0x22 # s) = CHR 0x22 # s"
  and skip_ws_comma [simp]: "skip_ws (CHR '','' # s) = CHR '','' # s"
  and skip_ws_colon [simp]: "skip_ws (CHR '':'' # s) = CHR '':'' # s"
  and skip_ws_bracket [simp]: "skip_ws (CHR '']'' # s) = CHR '']'' # s"
  and skip_ws_brace [simp]: "skip_ws (CHR ''}'' # s) = CHR ''}'' # s"
  by (simp_all add: json_ws_def code_def)

lemma no_digit_next_sep [simp]:
  "no_digit_next (CHR '','' # s)" "no_digit_next (CHR '']'' # s)" "no_digit_next (CHR ''}'' # s)"
  "no_digit_next []"
  by (simp_all add: no_digit_next_def is_digit_def code_def)

abbreviation reads_back :: "json \<Rightarrow> bool" where
  "reads_back j \<equiv> \<forall>f r. length (dumps j) \<le> f \<longrightarrow> no_digit_next r \<longrightarrow>
     parse_value f (dumps j @ r) = Some (j, r)"

lemma py_join_Cons_Cons: "ws \<noteq> [] \<Longrightarrow> py_join sep (w # ws) = w @ sep @ py_join sep ws"
  by (cases ws) auto

lemma parse_elems_join:
  assumes "xs \<noteq> []" and "\<forall>x \<in> set xs. reads_back x"
    and "length (py_join '', '' (map dumps xs)) < f"
  shows "parse_elems f (py_join '', '' (map dumps xs) @ CHR '']'' # r) = Some (xs, r)"
  using assms
proof (induction xs arbitrary: f)
  case (Cons x xs)
  then obtain g where f: "f = Suc g" by (cases f) auto
  show ?case
  proof (cases "xs = []")
    case True
    with Cons.prems f show ?thesis by simp
  next
    case False
    let ?t = "py_join '', '' (map dumps xs)"
    from False have j: "py_join '', '' (map dumps (x # xs)) = dumps x @ '', '' @ ?t"
      by (simp add: py_join_Cons_Cons)
    from Cons.prems(3) f j have len: "length (dumps x) \<le> g" "length ?t < g" by auto
    obtain y ys where "xs = y # ys" using False by (cases xs) auto
    then have sk: "skip_ws (?t @ CHR '']'' # r) = ?t @ CHR '']'' # r"
      by (cases ys) auto
    have "parse_elems g (?t @ CHR '']'' # r) = Some (xs, r)"
      using Cons.IH [OF False] Cons.prems(2) len(2) by simp
    moreover have "parse_value g (dumps x @ CHR '','' # CHR '' '' # ?t @ CHR '']'' # r) =
        Some (x, CHR '','' # CHR '' '' # ?t @ CHR '']'' # r)"
      using Cons.prems(2) len(1) by simp
    ultimately show ?thesis unfolding j f by (simp add: sk)
  qed
qed simp

abbreviation dumps_member :: "string \<times> json \<Rightarrow> string" where
  "dumps_member \<equiv> \<lambda>(k, v). dumps_str k @ '': '' @ dumps v"

lemma scan_string_dumps_str: "dumps_str k @ r = CHR 0x22 # concat (map esc_char k) @ CHR 0x22 # r"
  by (simp add: dumps_str_def)

lemma parse_member_step:
  assumes "reads_back v" and "length (dumps v) \<le> g" and "no_digit_next r"
  shows "parse_members (Suc g) (dumps_member (k, v) @ r) =
    (case skip_ws r of
       [] \<Rightarrow> None
     | d # r' \<Rightarrow>
         if d = CHR '','' then
           map_option (\<lambda>(kvs, t). ((k, v) # kvs, t)) (parse_members g (skip_ws r'))
         else if d = CHR ''}'' then Some ([(k, v)], r') else None)"
proof -
  have q: "code (CHR 0x22) = 34" by (simp add: code_def)
  have "parse_value g (dumps v @ r) = Some (v, r)" using assms by blast
  then show ?thesis
    by (simp add: dumps_str_def q scan_string_dumps del: dropWhile.simps cong: list.case_cong)
qed

lemma parse_members_join:
  assumes "kvs \<noteq> []" and "\<forall>(k, v) \<in> set kvs. reads_back v"
    and "length (py_join '', '' (map dumps_member kvs)) < f"
  shows "parse_members f (py_join '', '' (map dumps_member kvs) @ CHR ''}'' # r) = Some (kvs, r)"
  using assms
proof (induction kvs arbitrary: f)
  case (Cons p kvs)
  obtain k v where p: "p = (k, v)" by (cases p)
  from Cons.prems obtain g where f: "f = Suc g" by (cases f) auto
  have v: "reads_back v" using Cons.prems(2) p by auto
  show ?case
  proof (cases "kvs = []")
    case True
    with Cons.prems f p v show ?thesis
      using parse_member_step [OF v, of g "CHR ''}'' # r" k] by (simp del: parse_members.simps)
  next
    case False
    let ?t = "py_join '', '' (map dumps_member kvs)"
    from False have j: "py_join '', '' (map dumps_member (p # kvs)) = dumps_member p @ '', '' @ ?t"
      by (simp add: py_join_Cons_Cons)
    from Cons.prems(3) f j p have len: "length (dumps v) \<le> g" "length ?t < g" by auto
    obtain q qs where "kvs = q # qs" using False by (cases kvs) auto
    then have sk: "skip_ws (?t @ CHR ''}'' # r) = ?t @ CHR ''}'' # r"
      by (cases qs; cases q) (auto simp: dumps_str_def)
    have "parse_members g (?t @ CHR ''}'' # r) = Some (kvs, r)"
      using Cons.IH [OF False] Cons.prems(2) len(2) by simp
    then show ?thesis
      using sk parse_member_step [OF v len(1), of "CHR '','' # CHR '' '' # ?t @ CHR ''}'' # r" k]
      by (simp add: py_join_Cons_Cons False f p del: parse_members.simps)
  qed
qed simp

lemma join_start:
  assumes "ws \<noteq> []" and "hd ws = c # w"
  shows "\<exists>w'. py_join sep ws = c # w'"
  using assms by (cases ws; cases "tl ws") auto

lemma list_reads_back:
  assumes xs: "\<forall>x \<in> set xs. reads_back x"
  shows "reads_back (JList xs)"
proof (intro allI impI)
  fix f r assume len: "length (dumps (JList xs)) \<le> f" and "no_digit_next r"
  from len obtain g where f: "f = Suc g" by (cases f) auto
  show "parse_value f (dumps (JList xs) @ r) = Some (JList xs, r)"
  proof (cases "xs = []")
    case True
    then show ?thesis by (simp add: f code_def)
  next
    case False
    let ?t = "py_join '', '' (map dumps xs)"
    obtain c w where c: "dumps (hd xs) = c # w" "value_start c"
      using dumps_start [of "hd xs"] by auto
    with False obtain w' where t: "?t = c # w'"
      using join_start [of "map dumps xs" c w "'', ''"] by (auto simp: hd_map)
    have "parse_elems g (?t @ CHR '']'' # r) = Some (xs, r)"
      using parse_elems_join [OF False xs, of g r] len f by simp
    with t c(2) show ?thesis
      by (simp add: f value_start_def code_def)
  qed
qed

lemma object_reads_back:
  assumes kvs: "\<forall>(k, v) \<in> set kvs. reads_back v" and ok: "dict_of kvs = kvs"
  shows "reads_back (JObj kvs)"
proof (intro allI impI)
  fix f r assume len: "length (dumps (JObj kvs)) \<le> f" and "no_digit_next r"
  from len obtain g where f: "f = Suc g" by (cases f) auto
  show "parse_value f (dumps (JObj kvs) @ r) = Some (JObj kvs, r)"
  proof (cases "kvs = []")
    case True
    then show ?thesis by (simp add: f code_def)
  next
    case False
    let ?t = "py_join '', '' (map dumps_member kvs)"
    have "hd (map dumps_member kvs) = CHR 0x22 # tl (hd (map dumps_member kvs))"
      using False by (cases kvs) (auto simp: dumps_str_def)
    with False obtain w' where t: "?t = CHR 0x22 # w'"
      using join_start [of "map dumps_member kvs"] by blast
    have "parse_members g (?t @ CHR ''}'' # r) = Some (kvs, r)"
      using parse_members_join [OF False kvs, of g r] len f by simp
    with t ok show ?thesis
      by (simp add: f code_def)
  qed
qed

lemma int_reads_back: "reads_back (JInt i)"
proof (intro allI impI)
  fix f r assume len: "length (dumps (JInt i)) \<le> f" and nd: "no_digit_next r"
  from int_str_start [of i] obtain c w where c: "int_str i = c # w"
    "c = CHR ''-'' \<or> (\<exists>d<10. c = digit_char d)" by blast
  from len c(1) obtain g where f: "f = Suc g" by (cases f) auto
  have n: "c \<noteq> x" if "57 < code x" for x
    using c(2) that digit_char_code by (auto simp: code_def)
  have "code c \<noteq> 34" using c(2) digit_char_code by (auto simp: code_def)
  moreover have "c \<noteq> CHR ''{''" "c \<noteq> CHR ''[''" "c \<noteq> CHR ''n''" "c \<noteq> CHR ''t''" "c \<noteq> CHR ''f''"
    by (rule n; simp add: code_def)+
  ultimately show "parse_value f (dumps (JInt i) @ r) = Some (JInt i, r)"
    using scan_int_int_str [OF nd, of i] c(1) by (simp add: f)
qed

lemma str_reads_back: "reads_back (JStr s)"
proof (intro allI impI)
  fix f r assume len: "length (dumps (JStr s)) \<le> f"
  then obtain g where "f = Suc g" by (cases f) (auto simp: dumps_str_def)
  moreover have "code CHR 0x22 = 34" by (simp add: code_def)
  ultimately show "parse_value f (dumps (JStr s) @ r) = Some (JStr s, r)"
    by (simp add: dumps_str_def scan_string_dumps)
qed

lemma dumps_reads_back: "json_ok j \<Longrightarrow> reads_back j"
proof (induction j rule: json_ok.induct [case_names Arr Obj Null Bool Int Str])
  case (Arr xs)
  then show ?case by (intro list_reads_back) (auto simp: list_all_iff)
next
  case (Obj kvs)
  have "\<forall>(k, v) \<in> set kvs. reads_back v" using Obj by (fastforce simp: list_all_iff)
  then show ?case using Obj(2) by (intro object_reads_back) (simp_all add: dict_of_id)
next
  case Null
  then show ?case
    by (intro allI impI, rename_tac f r, case_tac f) (simp_all add: code_def)
next
  case (Bool b)
  then show ?case
    by (intro allI impI, rename_tac f r, case_tac f; cases b) (simp_all add: code_def)
qed (rule int_reads_back str_reads_back)+

text \<open>\<open>json.loads(json.dumps(v)) == v\<close>.\<close>

lemma loads_dumps: "json_ok j \<Longrightarrow> loads (dumps j) = Some j"
  using dumps_reads_back [of j, rule_format, of "Suc (length (dumps j))" "[]"] skip_ws_dumps [of j "[]"]
  by (simp add: loads_def)

text \<open>What the parser accepts is well formed: repeated keys are merged.\<close>

lemma json_ok_dict_of: "\<forall>p \<in> set kvs. json_ok (snd p) \<Longrightarrow> json_ok (JObj (dict_of kvs))"
  using set_dict_of_subset [of kvs] by (fastforce simp: list_all_iff)

lemma json_ok_empty: "json_ok (JObj [])"
  by simp

lemma scan_int_ok: "scan_int s = Some (v, r) \<Longrightarrow> json_ok v"
  by (auto simp: scan_int_def split: list.splits if_splits)

lemma parse_ok:
  "(\<forall>s v r. parse_value f s = Some (v, r) \<longrightarrow> json_ok v) \<and>
   (\<forall>s xs r. parse_elems f s = Some (xs, r) \<longrightarrow> list_all json_ok xs) \<and>
   (\<forall>s kvs r. parse_members f s = Some (kvs, r) \<longrightarrow> (\<forall>p \<in> set kvs. json_ok (snd p)))"
proof (induction f)
  case (Suc f)
  then have v: "\<And>s v r. parse_value f s = Some (v, r) \<Longrightarrow> json_ok v"
    and e: "\<And>s xs r. parse_elems f s = Some (xs, r) \<Longrightarrow> list_all json_ok xs"
    and m: "\<And>s kvs r. parse_members f s = Some (kvs, r) \<Longrightarrow> \<forall>p \<in> set kvs. json_ok (snd p)"
    by blast+
  have "json_ok v" if p: "parse_value (Suc f) s = Some (v, r)" for s v r
  proof (cases s)
    case (Cons c t)
    consider (str) "code c = 34" | (obj) "code c \<noteq> 34" "c = CHR ''{''"
      | (arr) "code c \<noteq> 34" "c \<noteq> CHR ''{''" "c = CHR ''[''"
      | (atom) "code c \<noteq> 34" "c \<noteq> CHR ''{''" "c \<noteq> CHR ''[''" by blast
    then show ?thesis
    proof cases
      case obj
      with p Cons show ?thesis
        by (auto simp: json_ok_dict_of json_ok_empty simp del: json_ok.simps(2)
            dest!: m split: list.splits if_splits)
    next
      case arr
      with p Cons show ?thesis by (auto dest!: e split: list.splits if_splits)
    next
      case atom
      with p Cons show ?thesis by (auto simp: scan_int_ok simp del: prefix_code split: if_splits)
    qed (use p Cons in auto)
  qed (use p in simp)
  moreover have "list_all json_ok xs" if "parse_elems (Suc f) s = Some (xs, r)" for s xs r
    using that by (simp split: list.splits if_splits option.splits prod.splits) (auto dest!: v e)
  moreover have "\<forall>p \<in> set kvs. json_ok (snd p)" if "parse_members (Suc f) s = Some (kvs, r)" for s kvs r
    using that
    by (simp split: list.splits if_splits option.splits prod.splits) (auto dest!: v m)
  ultimately show ?case by blast
qed simp

lemma loads_ok: "loads s = Some v \<Longrightarrow> json_ok v"
proof -
  assume a: "loads s = Some v"
  then obtain r where "parse_value (Suc (length s)) (skip_ws s) = Some (v, r)"
    unfolding loads_def by (auto simp del: parse_value.simps split: option.splits if_splits)
  then show ?thesis using parse_ok by blast
qed

end
