(* ===== verification/Jwt.thy ===== *)
theory Jwt
  imports Keys Codec JsonText
begin

text \<open>
  The JOSE library (joserfc) as the program calls it: \<open>jwt.encode(header, claims, key)\<close>,
  \<open>jwt.decode(token, KeySet(keys))\<close>, \<open>key.as_pem(private=False)\<close> and
  \<open>key.as_dict(private=False)\<close>. The library is not part of the repository, so a record of these
  functions is a parameter of every definition that signs, verifies or publishes. \<open>jwt_lawful\<close> states the
  documented behaviour the program relies on. \<open>reference_jwt\<close>, a compact serialisation whose
  signature segment names the key, satisfies it: the hypotheses of the theorems can hold, and
  witnesses can be evaluated.
\<close>

record jwt_lib =
  jwt_encode :: "claims \<Rightarrow> claims \<Rightarrow> jwk \<Rightarrow> string"
  jwt_decode :: "string \<Rightarrow> jwk list \<Rightarrow> claims option"
  jwk_public_pem :: "jwk \<Rightarrow> string"
  jwk_public_dict :: "jwk \<Rightarrow> json"

definition key_alg :: "jwk \<Rightarrow> string" where
  "key_alg k = (case jwk_kty k of EC \<Rightarrow> ''ES256'' | RSA \<Rightarrow> ''RS256'')"

text \<open>The header names the key and an algorithm of its type.\<close>

definition header_for :: "claims \<Rightarrow> jwk \<Rightarrow> bool" where
  "header_for h k =
     (json_ok (JObj h) \<and> dget h ''kid'' = Some (JStr (jwk_kid k)) \<and>
      dget h ''alg'' = Some (JStr (key_alg k)))"

text \<open>
  (1) A token made with a key of the set verifies against the set, when the kids of the set are
  distinct, and gives its claims back. (2) A token made with a key whose material is not in the set
  does not verify. (3) A compact serialisation is a non-empty string without surrounding space.
  (4) Decoded claims are a JSON object, its keys distinct.
\<close>

definition jwt_lawful :: "jwt_lib \<Rightarrow> bool" where
  "jwt_lawful L =
     ((\<forall>h c k ks. header_for h k \<longrightarrow> json_ok (JObj c) \<longrightarrow> k \<in> set ks \<longrightarrow> distinct (map jwk_kid ks) \<longrightarrow>
         jwt_decode L (jwt_encode L h c k) ks = Some c) \<and>
      (\<forall>h c k ks. jwk_material k \<notin> jwk_material ` set ks \<longrightarrow>
         jwt_decode L (jwt_encode L h c k) ks = None) \<and>
      (\<forall>h c k. jwt_encode L h c k \<noteq> [] \<and> py_strip (jwt_encode L h c k) = jwt_encode L h c k) \<and>
      (\<forall>t ks c. jwt_decode L t ks = Some c \<longrightarrow> json_ok (JObj c)))"

lemma jwt_lawful_ok:
  "jwt_lawful L \<Longrightarrow> header_for h k \<Longrightarrow> json_ok (JObj c) \<Longrightarrow> k \<in> set ks \<Longrightarrow> distinct (map jwk_kid ks) \<Longrightarrow>
   jwt_decode L (jwt_encode L h c k) ks = Some c"
  by (simp add: jwt_lawful_def)

lemma jwt_lawful_foreign:
  "jwt_lawful L \<Longrightarrow> jwk_material k \<notin> jwk_material ` set ks \<Longrightarrow>
   jwt_decode L (jwt_encode L h c k) ks = None"
  by (simp add: jwt_lawful_def)

lemma jwt_lawful_token:
  "jwt_lawful L \<Longrightarrow> jwt_encode L h c k \<noteq> []"
  "jwt_lawful L \<Longrightarrow> py_strip (jwt_encode L h c k) = jwt_encode L h c k"
  by (simp_all add: jwt_lawful_def)

lemma jwt_lawful_decoded: "jwt_lawful L \<Longrightarrow> jwt_decode L t ks = Some c \<Longrightarrow> json_ok (JObj c)"
  unfolding jwt_lawful_def by blast

section \<open>A library that satisfies the laws\<close>

definition json_segment :: "json \<Rightarrow> string" where
  "json_segment v = b64url (dumps v)"

definition read_segment :: "string \<Rightarrow> json option" where
  "read_segment s = (case b64decode_segment s of None \<Rightarrow> None | Some t \<Rightarrow> loads t)"

definition ref_signature :: "jwk \<Rightarrow> string" where
  "ref_signature k = b64url (nat_str (jwk_material k))"

definition ref_encode :: "claims \<Rightarrow> claims \<Rightarrow> jwk \<Rightarrow> string" where
  "ref_encode h c k =
     json_segment (JObj h) @ ''.'' @ json_segment (JObj c) @ ''.'' @ ref_signature k"

definition ref_decode :: "string \<Rightarrow> jwk list \<Rightarrow> claims option" where
  "ref_decode t ks =
     (case split_on CHR ''.'' t of
        [h, p, sg] \<Rightarrow>
          (case (read_segment h, read_segment p) of
             (Some (JObj hd'), Some (JObj c)) \<Rightarrow>
               (case dget hd' ''kid'' of
                  Some (JStr kid) \<Rightarrow>
                    (case find (\<lambda>k. jwk_kid k = kid) ks of
                       Some k \<Rightarrow>
                         if dget hd' ''alg'' = Some (JStr (key_alg k)) \<and> sg = ref_signature k
                         then Some c else None
                     | None \<Rightarrow> None)
                | _ \<Rightarrow> None)
           | _ \<Rightarrow> None)
      | _ \<Rightarrow> None)"

definition reference_jwt :: jwt_lib where
  "reference_jwt =
     \<lparr>jwt_encode = ref_encode, jwt_decode = ref_decode,
      jwk_public_pem = (\<lambda>k. nat_str (jwk_material k)),
      jwk_public_dict = (\<lambda>k. JObj [(''kty'', JStr (case jwk_kty k of RSA \<Rightarrow> ''RSA'' | EC \<Rightarrow> ''EC'')),
                                  (''kid'', JStr (jwk_kid k))])\<rparr>"

lemma read_json_segment: "json_ok v \<Longrightarrow> read_segment (json_segment v) = Some v"
  by (simp add: read_segment_def json_segment_def b64decode_b64url loads_dumps)

lemma ref_signature_inj: "ref_signature k = ref_signature l \<longleftrightarrow> jwk_material k = jwk_material l"
  by (metis b64url_inj nat_str_value ref_signature_def)

lemma split_ref_encode:
  "split_on CHR ''.'' (ref_encode h c k) =
     [json_segment (JObj h), json_segment (JObj c), ref_signature k]"
  by (simp add: ref_encode_def json_segment_def ref_signature_def b64url_no_dot
      split_on_append_sep split_on_no_sep)

lemma find_kid:
  "k \<in> set ks \<Longrightarrow> distinct (map jwk_kid ks) \<Longrightarrow> find (\<lambda>x. jwk_kid x = jwk_kid k) ks = Some k"
  by (induction ks) auto

lemma ref_decode_foreign:
  assumes "jwk_material k \<notin> jwk_material ` set ks"
  shows "ref_decode (ref_encode h c k) ks = None"
proof -
  have "ref_signature k \<noteq> ref_signature l" if "find P ks = Some l" for P l
    using that assms by (auto simp: ref_signature_inj find_Some_iff)
  then show ?thesis
    by (auto simp: ref_decode_def split_ref_encode split: option.splits json.splits)
qed

lemma b64url_ends:
  assumes "s \<noteq> []"
  shows "b64url s \<noteq> []" and "c \<in> set (b64url s) \<Longrightarrow> \<not> py_space c"
proof -
  show "b64url s \<noteq> []"
    using b64url_inj [of s "[]"] assms by (auto simp: b64url_def rstrip_char_def)
  have sp: "\<not> py_space (b64_char n)" if "n < 64" for n
    using that code_b64_char [of n] by (auto simp: py_space_def split: if_splits)
  have "x = pad_char \<or> \<not> py_space x" if "x \<in> set (urlsafe_b64encode s)" for x
    using that by (induction s rule: urlsafe_b64encode.induct) (auto simp: sp)
  moreover have "\<not> py_space pad_char" by (simp add: py_space_def code_def)
  ultimately show "\<not> py_space c" if "c \<in> set (b64url s)"
    using set_b64url [OF that] by blast
qed

lemma py_strip_id: "(\<And>c. c \<in> set s \<Longrightarrow> \<not> py_space c) \<Longrightarrow> py_strip s = s"
  unfolding py_strip_def by (rule strip_with_id) simp

lemma ref_encode_no_space: "c \<in> set (ref_encode h cl k) \<Longrightarrow> \<not> py_space c"
  using b64url_ends(2) [OF dumps_not_Nil] b64url_ends(2) [OF nat_str_not_Nil]
  by (auto simp: ref_encode_def json_segment_def ref_signature_def py_space_def [of "CHR ''.''"] code_def
      simp del: dumps.simps)

lemma read_segment_ok: "read_segment s = Some v \<Longrightarrow> json_ok v"
  by (auto simp: read_segment_def loads_ok split: option.splits)

lemma ref_decode_ok:
  assumes "ref_decode t ks = Some c"
  shows "json_ok (JObj c)"
proof -
  from assms obtain p where "read_segment p = Some (JObj c)"
    by (auto simp: ref_decode_def split: list.splits option.splits json.splits if_splits)
  then show ?thesis by (rule read_segment_ok)
qed

lemma reference_jwt_lawful: "jwt_lawful reference_jwt"
proof -
  have "ref_decode (ref_encode h c k) ks = Some c"
    if "header_for h k" "json_ok (JObj c)" "k \<in> set ks" "distinct (map jwk_kid ks)" for h c k ks
    using that
    by (simp add: ref_decode_def split_ref_encode read_json_segment header_for_def find_kid
        del: json_ok.simps)
  moreover have "ref_encode h c k \<noteq> []" for h c k
    by (simp add: ref_encode_def)
  moreover have "py_strip (ref_encode h c k) = ref_encode h c k" for h c k
    by (rule py_strip_id) (rule ref_encode_no_space)
  ultimately show ?thesis
    using ref_decode_foreign ref_decode_ok
    by (simp add: jwt_lawful_def reference_jwt_def del: json_ok.simps)
qed

end
