(* ===== verification/Sha256.thy ===== *)
theory Sha256
  imports PyData "HOL-Library.Word"
begin

text \<open>
  \<open>hashlib.sha256\<close> and \<open>hmac.new(key, msg, hashlib.sha256)\<close> of the standard library, on the 32-bit
  words of FIPS 180-4 and RFC 2104. A byte string is a \<open>string\<close>. The program uses them for the
  algorithm-confusion token and for the hashes of the API keys.
\<close>

unbundle bit_operations_syntax

section \<open>Bytes and words\<close>

type_synonym w32 = "32 word"

definition utf8_encode :: "string \<Rightarrow> string" where
  "utf8_encode s = concat (map (\<lambda>c. let n = code c in
     if n < 128 then [c] else [char_of (192 + n div 64), char_of (128 + n mod 64)]) s)"

definition word_of_bytes :: "char \<Rightarrow> char \<Rightarrow> char \<Rightarrow> char \<Rightarrow> w32" where
  "word_of_bytes a b c d =
     word_of_nat (((code a * 256 + code b) * 256 + code c) * 256 + code d)"

fun words_of :: "string \<Rightarrow> w32 list" where
  "words_of (a # b # c # d # r) = word_of_bytes a b c d # words_of r"
| "words_of _ = []"

definition bytes_of_nat :: "nat \<Rightarrow> nat \<Rightarrow> string" where
  "bytes_of_nat k n = map (\<lambda>i. char_of (n div 256 ^ (k - 1 - i) mod 256)) [0..<k]"

definition bytes_of_word :: "w32 \<Rightarrow> string" where
  "bytes_of_word w = bytes_of_nat 4 (unat w)"

section \<open>SHA-256\<close>

definition rotr :: "nat \<Rightarrow> w32 \<Rightarrow> w32" where
  "rotr n x = drop_bit n x OR push_bit (32 - n) x"

text \<open>
  The constants are defined, as in the standard, by the fractional parts of the square and cube
  roots of the first primes: \<open>root_bits k b n r\<close> extends \<open>r\<close> to the integer \<open>k\<close>-th root of \<open>n\<close>, one
  binary digit at a time.
\<close>

fun root_bits :: "nat \<Rightarrow> nat \<Rightarrow> nat \<Rightarrow> nat \<Rightarrow> nat" where
  "root_bits k 0 n r = r"
| "root_bits k (Suc b) n r = root_bits k b n (if (r + 2 ^ b) ^ k \<le> n then r + 2 ^ b else r)"

definition primes_below :: "nat \<Rightarrow> nat list" where
  "primes_below m = filter (\<lambda>p. list_all (\<lambda>d. p mod d \<noteq> 0) [2..<p]) [2..<m]"

definition root_fraction :: "nat \<Rightarrow> nat \<Rightarrow> w32" where
  "root_fraction k p = word_of_nat (root_bits k 40 (p * 2 ^ (32 * k)) 0 mod 2 ^ 32)"

definition round_constants :: "w32 list" where
  "round_constants = map (root_fraction 3) (primes_below 312)"

record hash_state =
  ha :: w32
  hb :: w32
  hc :: w32
  hd8 :: w32
  he :: w32
  hf :: w32
  hg :: w32
  hh :: w32

definition hash_state_of :: "w32 list \<Rightarrow> hash_state" where
  "hash_state_of ws =
     \<lparr>ha = ws ! 0, hb = ws ! 1, hc = ws ! 2, hd8 = ws ! 3,
      he = ws ! 4, hf = ws ! 5, hg = ws ! 6, hh = ws ! 7\<rparr>"

definition initial_hash :: hash_state where
  "initial_hash = hash_state_of (map (root_fraction 2) (primes_below 20))"

text \<open>The message schedule, newest word first.\<close>

fun extend_schedule :: "nat \<Rightarrow> w32 list \<Rightarrow> w32 list" where
  "extend_schedule 0 ws = ws"
| "extend_schedule (Suc n) ws =
     (let w15 = ws ! 14; w2 = ws ! 1;
          s0 = rotr 7 w15 XOR rotr 18 w15 XOR drop_bit 3 w15;
          s1 = rotr 17 w2 XOR rotr 19 w2 XOR drop_bit 10 w2
      in extend_schedule n ((ws ! 15 + s0 + ws ! 6 + s1) # ws))"

definition schedule :: "string \<Rightarrow> w32 list" where
  "schedule block = rev (extend_schedule 48 (rev (words_of block)))"

definition sha_round :: "w32 \<times> w32 \<Rightarrow> hash_state \<Rightarrow> hash_state" where
  "sha_round kw h =
     (let (k, w) = kw;
          s1 = rotr 6 (he h) XOR rotr 11 (he h) XOR rotr 25 (he h);
          ch = (he h AND hf h) XOR (NOT (he h) AND hg h);
          t1 = hh h + s1 + ch + k + w;
          s0 = rotr 2 (ha h) XOR rotr 13 (ha h) XOR rotr 22 (ha h);
          maj = (ha h AND hb h) XOR (ha h AND hc h) XOR (hb h AND hc h);
          t2 = s0 + maj
      in \<lparr>ha = t1 + t2, hb = ha h, hc = hb h, hd8 = hc h, he = hd8 h + t1, hf = he h, hg = hf h,
           hh = hg h\<rparr>)"

definition compress :: "string \<Rightarrow> hash_state \<Rightarrow> hash_state" where
  "compress block h =
     (let r = fold sha_round (zip round_constants (schedule block)) h
      in \<lparr>ha = ha h + ha r, hb = hb h + hb r, hc = hc h + hc r, hd8 = hd8 h + hd8 r,
           he = he h + he r, hf = hf h + hf r, hg = hg h + hg r, hh = hh h + hh r\<rparr>)"

definition sha_pad :: "string \<Rightarrow> string" where
  "sha_pad m =
     m @ char_of (128::nat) # replicate ((119 - length m mod 64) mod 64) (char_of (0::nat)) @
     bytes_of_nat 8 (8 * length m)"

function blocks :: "string \<Rightarrow> string list" where
  "blocks m = (if m = [] then [] else take 64 m # blocks (drop 64 m))"
  by auto
termination by (relation "measure length") auto

declare blocks.simps [simp del]

definition sha256 :: "string \<Rightarrow> string" where
  "sha256 m =
     (let h = fold compress (blocks (sha_pad m)) initial_hash
      in concat (map bytes_of_word [ha h, hb h, hc h, hd8 h, he h, hf h, hg h, hh h]))"

definition hex_digest :: "string \<Rightarrow> string" where
  "hex_digest s = concat (map (\<lambda>c. [hex_digit (code c div 16), hex_digit (code c mod 16)]) s)"

section \<open>HMAC\<close>

definition xor_byte :: "nat \<Rightarrow> char \<Rightarrow> char" where
  "xor_byte n c = char_of (n XOR code c)"

definition hmac_key :: "string \<Rightarrow> string" where
  "hmac_key key =
     (let k = (if 64 < length key then sha256 key else key)
      in k @ replicate (64 - length k) (char_of (0::nat)))"

definition hmac_sha256 :: "string \<Rightarrow> string \<Rightarrow> string" where
  "hmac_sha256 key msg =
     (let k = hmac_key key
      in sha256 (map (xor_byte 92) k @ sha256 (map (xor_byte 54) k @ msg)))"

section \<open>Lengths\<close>

lemma length_bytes_of_nat [simp]: "length (bytes_of_nat k n) = k"
  by (simp add: bytes_of_nat_def)

lemma length_sha256 [simp]: "length (sha256 m) = 32"
  by (simp add: sha256_def bytes_of_word_def Let_def)

lemma length_sha_pad: "length (sha_pad m) mod 64 = 0"
proof -
  have "length (sha_pad m) = length m + 9 + (119 - length m mod 64) mod 64"
    by (simp add: sha_pad_def)
  also have "\<dots> mod 64 = 0"
  proof -
    obtain q r where l: "length m = 64 * q + r" and r: "r < 64"
      by (rule that [of "length m div 64" "length m mod 64"]) simp_all
    show ?thesis
    proof (cases "r \<le> 55")
      case True
      then have "(119 - r) mod 64 = 55 - r"
        using mod_add_self1 [of 64 "55 - r"] by simp
      with True r have e: "length m + 9 + (119 - length m mod 64) mod 64 = 64 * (q + 1)"
        by (simp add: l)
      show ?thesis unfolding e by simp
    next
      case False
      with r have e: "length m + 9 + (119 - length m mod 64) mod 64 = 64 * (q + 2)"
        by (simp add: l)
      show ?thesis unfolding e by simp
    qed
  qed
  finally show ?thesis .
qed

lemma length_hmac_key [simp]: "length (hmac_key k) = 64"
  by (simp add: hmac_key_def Let_def)

lemma length_hmac_sha256 [simp]: "length (hmac_sha256 k m) = 32"
  by (simp add: hmac_sha256_def Let_def)

lemma hex_digit_inj: "m < 16 \<Longrightarrow> n < 16 \<Longrightarrow> hex_digit m = hex_digit n \<Longrightarrow> m = n"
  by (auto simp: hex_digit_def split: if_splits dest!: arg_cong [where f = "of_char :: char \<Rightarrow> nat"])

lemma length_hex_digest [simp]: "length (hex_digest s) = 2 * length s"
  by (induction s) (simp_all add: hex_digest_def)

lemma hex_digest_inj: "hex_digest s = hex_digest t \<Longrightarrow> s = t"
proof (induction s arbitrary: t)
  case Nil
  then show ?case by (cases t) (simp_all add: hex_digest_def)
next
  case (Cons c s)
  then obtain d u where t: "t = d # u" by (cases t) (simp_all add: hex_digest_def)
  have b: "code x < 256" for x by (simp add: code_def)
  from Cons.prems have "code c div 16 = code d div 16" "code c mod 16 = code d mod 16"
    and "hex_digest s = hex_digest u"
    using b [of c] b [of d] hex_digit_inj [of "code c div 16" "code d div 16"]
      hex_digit_inj [of "code c mod 16" "code d mod 16"]
    by (auto simp: hex_digest_def t)
  moreover from this have "code c = code d" by (metis div_mult_mod_eq)
  ultimately show ?case using Cons.IH [of u] by (simp add: t code_def)
qed

end
