(* ===== verification/Config.thy ===== *)
theory Config
  imports YamlStore
begin

text \<open>
  \<open>config.py\<close>, the store factory of \<open>store/__init__.py\<close> and the configuration watcher of
  \<open>main.py\<close>. The dictionaries the module exports are the store's own objects, updated in place, so
  they are read through the store data; the scalars are copies taken at start and after a reload,
  and may differ from the store's.
\<close>

section \<open>The backend\<close>

datatype backend = YamlBackend string | PostgresBackend string

definition create_store :: "string \<Rightarrow> string \<Rightarrow> string \<Rightarrow> bool \<Rightarrow> py_exn + backend" where
  "create_store name path dsn pg_installed =
     (if name \<in> {''yaml'', ''file''} then Inr (YamlBackend path)
      else if name = ''postgres'' then
        if \<not> pg_installed
        then Inl (ImportError (''Postgres backend requires extra dependencies. '' @
                               ''Install them with:  uv sync --extra postgres''))
        else if dsn = []
        then Inl (ValueError ''MOCK_IDP_PG_DSN must be set when using the postgres backend.'')
        else Inr (PostgresBackend dsn)
      else Inl (ValueError (''Unknown store backend '' @ py_repr_str name @ ''. '' @
                            ''Supported backends: 'yaml', 'postgres'. '' @
                            ''See docs/mock-oidc/ADR-003-store-abstraction.md for adding a new backend.'')))"

definition getenv :: "os_env \<Rightarrow> string \<Rightarrow> string \<Rightarrow> string" where
  "getenv os var dflt = (case dget (os_vars os) var of None \<Rightarrow> dflt | Some v \<Rightarrow> v)"

definition select_backend :: "os_env \<Rightarrow> bool \<Rightarrow> py_exn + backend" where
  "select_backend os pg_installed =
     (if py_lower (getenv os ''MOCK_IDP_BACKEND'' ''yaml'') = ''postgres''
      then create_store ''postgres'' [] (getenv os ''MOCK_IDP_PG_DSN'' []) pg_installed
      else create_store ''yaml'' (getenv os ''CONFIG_PATH'' ''/etc/mock-idp/config.yaml'') [] pg_installed)"

section \<open>The module's variables\<close>

record config =
  cf_data :: store_data
  cf_mode :: string
  cf_admin_token :: string
  cf_cors_origins :: "string list"
  cf_webhooks :: "webhook list"
  cf_iss_base :: string

abbreviation cf_users :: "config \<Rightarrow> (string, user_record) dict" where
  "cf_users cf \<equiv> st_users (cf_data cf)"

abbreviation cf_service_principals :: "config \<Rightarrow> (string, sp_record) dict" where
  "cf_service_principals cf \<equiv> st_service_principals (cf_data cf)"

abbreviation cf_client_apps :: "config \<Rightarrow> (string, client_app) dict" where
  "cf_client_apps cf \<equiv> st_client_apps (cf_data cf)"

abbreviation cf_issuer_modes :: "config \<Rightarrow> (string, string) dict" where
  "cf_issuer_modes cf \<equiv> st_issuer_modes (cf_data cf)"

text \<open>\<open>os.getenv('MOCK_IDP_ADMIN_TOKEN') or store.admin_token\<close>.\<close>

definition effective_admin_token :: "os_env \<Rightarrow> store_data \<Rightarrow> string" where
  "effective_admin_token os d = str_or (dget (os_vars os) ''MOCK_IDP_ADMIN_TOKEN'') (st_admin_token d)"

definition config_init :: "os_env \<Rightarrow> store_data \<Rightarrow> config" where
  "config_init os d =
     \<lparr>cf_data = d, cf_mode = st_mode d, cf_admin_token = effective_admin_token os d,
      cf_cors_origins = st_cors_origins d, cf_webhooks = st_webhooks d,
      cf_iss_base = getenv os ''ISS_BASE'' ''http://localhost:8080''\<rparr>"

text \<open>
  \<open>reload_config\<close>, for the reload of either backend in its current environment: an exception of
  the store leaves the scalars as they were.
\<close>

definition reload_config ::
  "os_env \<Rightarrow> (store_data \<Rightarrow> (py_exn + unit) \<times> store_data) \<Rightarrow> config \<Rightarrow> (py_exn + unit) \<times> config" where
  "reload_config os reload cf =
     (case reload (cf_data cf) of
        (Inl e, d) \<Rightarrow> (Inl e, cf\<lparr>cf_data := d\<rparr>)
      | (Inr u, d) \<Rightarrow>
          (Inr (), cf\<lparr>cf_data := d, cf_mode := st_mode d, cf_admin_token := effective_admin_token os d,
                      cf_cors_origins := st_cors_origins d, cf_webhooks := st_webhooks d\<rparr>))"

section \<open>The watcher\<close>

text \<open>
  \<open>_watch_config\<close>: one reload per change event, until one raises. An exception ends the task; the
  remaining events are never looked at.
\<close>

fun watch_config ::
  "os_env \<Rightarrow> (store_data \<Rightarrow> (py_exn + unit) \<times> store_data) list \<Rightarrow> config \<Rightarrow> py_exn option \<times> config" where
  "watch_config os [] cf = (None, cf)"
| "watch_config os (reload # events) cf =
     (case reload_config os reload cf of
        (Inl e, cf') \<Rightarrow> (Some e, cf')
      | (Inr _, cf') \<Rightarrow> watch_config os events cf')"

section \<open>Scalars and store\<close>

text \<open>The scalars agree with the store.\<close>

definition in_step :: "os_env \<Rightarrow> config \<Rightarrow> bool" where
  "in_step os cf =
     (cf_mode cf = st_mode (cf_data cf) \<and> cf_admin_token cf = effective_admin_token os (cf_data cf) \<and>
      cf_cors_origins cf = st_cors_origins (cf_data cf) \<and> cf_webhooks cf = st_webhooks (cf_data cf))"

lemma config_init_in_step: "in_step os (config_init os d)"
  by (simp add: in_step_def config_init_def)

lemma reload_config_in_step: "reload_config os reload cf = (Inr u, cf') \<Longrightarrow> in_step os cf'"
  by (auto simp: reload_config_def in_step_def split: prod.splits sum.splits)

lemma reload_config_raised:
  "reload_config os reload cf = (Inl e, cf') \<Longrightarrow>
   \<exists>d. reload (cf_data cf) = (Inl e, d) \<and> cf' = cf\<lparr>cf_data := d\<rparr>"
  by (auto simp: reload_config_def split: prod.splits sum.splits)

lemma reload_config_iss_base: "cf_iss_base (snd (reload_config os reload cf)) = cf_iss_base cf"
  by (auto simp: reload_config_def split: prod.splits sum.splits)

lemma reload_config_data: "cf_data (snd (reload_config os reload cf)) = snd (reload (cf_data cf))"
  by (auto simp: reload_config_def split: prod.splits sum.splits)

text \<open>The YAML backend stays in step whatever a reload does: a failed one changes nothing at all.\<close>

lemma yaml_reload_config_in_step:
  assumes "in_step os cf"
  shows "in_step os (snd (reload_config os (yaml_reload path env) cf))"
proof (cases "reload_config os (yaml_reload path env) cf")
  case (Pair r cf')
  show ?thesis
  proof (cases r)
    case (Inl e)
    with Pair obtain d where d: "yaml_reload path env (cf_data cf) = (Inl e, d)"
      and cf': "cf' = cf\<lparr>cf_data := d\<rparr>" using reload_config_raised by blast
    from yaml_reload_raise [OF d] assms show ?thesis by (simp add: Pair cf')
  next
    case (Inr u)
    with Pair show ?thesis using reload_config_in_step by fastforce
  qed
qed

lemma watch_config_yaml:
  assumes "in_step os cf"
  shows "in_step os (snd (watch_config os (map (yaml_reload path) envs) cf))"
  using assms
proof (induction envs arbitrary: cf)
  case (Cons e envs)
  obtain r cf' where r: "reload_config os (yaml_reload path e) cf = (r, cf')"
    by (cases "reload_config os (yaml_reload path e) cf")
  have "in_step os cf'" using yaml_reload_config_in_step [OF Cons.prems, of path e] by (simp add: r)
  with Cons.IH [of cf'] show ?case by (cases r) (simp_all add: r)
qed simp

text \<open>Once the task has died, the events after the fatal one have no effect.\<close>

lemma watch_config_dead:
  "watch_config os es cf = (Some e, cf') \<Longrightarrow> watch_config os (es @ fs) cf = (Some e, cf')"
  by (induction es arbitrary: cf) (auto split: prod.splits sum.splits)

lemma watch_config_append:
  "watch_config os es cf = (None, cf') \<Longrightarrow> watch_config os (es @ fs) cf = watch_config os fs cf'"
  by (induction es arbitrary: cf) (auto split: prod.splits sum.splits)

lemma effective_admin_token_env:
  "dget (os_vars os) ''MOCK_IDP_ADMIN_TOKEN'' = Some t \<Longrightarrow> t \<noteq> [] \<Longrightarrow> effective_admin_token os d = t"
  by (cases t) (simp_all add: effective_admin_token_def)

end
