(* ===== verification/Tokens.thy ===== *)
theory Tokens
  imports Jwt Sha256 Config
begin

text \<open>
  \<open>tokens.py\<close>: how a request selects the audience, the shape, the lifetime and the roles of a
  token, the audience check, the claim overrides of privileged service principals, the claim
  omission hook, the deliberately broken tokens, and signing and verification. Definitions that read
  the module-level configuration take it (the client apps or the mode) as their first argument.
\<close>

type_synonym form = "(string, string) dict"
type_synonym headers = "(string, string) dict"

section \<open>Request parameters\<close>

definition resolve_shape :: "string \<Rightarrow> form \<Rightarrow> string option \<Rightarrow> string" where
  "resolve_shape dflt form header_shape =
     (if header_shape = Some ''v1'' then ''v1''
      else if header_shape = Some ''v2'' then ''v2''
      else (let cid = str_or (dget form ''client_id'') [] in
            if suffix ''-v1'' cid then ''v1''
            else if suffix ''-v2'' cid then ''v2''
            else str_or (Some dflt) ''v2''))"

definition resolve_aud :: "form \<Rightarrow> string" where
  "resolve_aud form =
     (if truthy_str (dget form ''resource'') then the (dget form ''resource'')
      else (let scope = str_or (dget form ''scope'') [] in
            if scope \<noteq> []
            then (if suffix ''/.default'' scope then take (length scope - length ''/.default'') scope
                  else scope)
            else ''api://default''))"

definition resolve_user_aud :: "(string, client_app) dict \<Rightarrow> string \<Rightarrow> string" where
  "resolve_user_aud apps aud =
     (case dget apps aud of
        None \<Rightarrow> aud
      | Some app \<Rightarrow> if truthy_str (app_id app) then the (app_id app) else aud)"

definition resolve_expiry :: "int \<Rightarrow> headers \<Rightarrow> int" where
  "resolve_expiry dflt headers =
     (if truthy_str (dget headers ''x-test-expired'') then -60
      else (let fallback = (if dflt = 0 then 3600 else dflt) in
            case dget headers ''x-test-expires-in'' of
              None \<Rightarrow> fallback
            | Some override \<Rightarrow> (case py_int override of Some n \<Rightarrow> n | None \<Rightarrow> fallback)))"

section \<open>Roles and audience\<close>

definition base_of :: "identity \<Rightarrow> identity_fields" where
  "base_of i = (case i of UserId u \<Rightarrow> identity_fields.truncate u | SpId sp \<Rightarrow> identity_fields.truncate sp)"

definition grants_key :: "string \<Rightarrow> identity \<Rightarrow> string" where
  "grants_key identity_key identity =
     (case identity of
        SpId sp \<Rightarrow> if sp_name sp \<noteq> [] then sp_name sp else identity_key
      | UserId u \<Rightarrow> identity_key)"

text \<open>The loop that keeps the first occurrence of each role.\<close>

fun collect_roles :: "string set \<Rightarrow> string list \<Rightarrow> string list \<Rightarrow> string list" where
  "collect_roles seen result [] = result"
| "collect_roles seen result (r # rs) =
     (if r \<notin> seen then collect_roles (insert r seen) (result @ [r]) rs
      else collect_roles seen result rs)"

definition resolve_roles :: "(string, client_app) dict \<Rightarrow> string \<Rightarrow> identity \<Rightarrow> string \<Rightarrow> string list" where
  "resolve_roles apps identity_key identity aud =
     (let audience_roles =
            (case dget apps aud of
               Some app \<Rightarrow>
                 (case dget (app_grants app) (grants_key identity_key identity) of
                    Some rs \<Rightarrow> rs | None \<Rightarrow> [])
             | None \<Rightarrow> id_roles (base_of identity))
      in collect_roles {} []
           (id_tenant_realm_roles (base_of identity) @ id_realm_roles (base_of identity) @ audience_roles))"

definition overrides_any_claim :: "identity \<Rightarrow> bool" where
  "overrides_any_claim i = (case i of SpId sp \<Rightarrow> sp_override_any_claim sp | UserId _ \<Rightarrow> False)"

definition check_audience ::
  "(string, client_app) dict \<Rightarrow> string \<Rightarrow> string \<Rightarrow> identity \<Rightarrow> string \<Rightarrow> string \<Rightarrow> exn + unit" where
  "check_audience apps global_mode identity_key identity aud mode =
     (let effective_mode = (if mode \<in> {''lax'', ''strict''} then mode else global_mode) in
      if effective_mode \<noteq> ''strict'' then Inr ()
      else if overrides_any_claim identity then Inr ()
      else
        (case dget apps aud of
           Some app \<Rightarrow>
             if \<not> dhas (app_grants app) (grants_key identity_key identity)
             then Inl (http 400 (oauth_detail ''invalid_target''
                    (''Identity '' @ py_repr_str identity_key @ '' has no grant on '' @
                     py_repr_str aud @ ''.'')))
             else Inr ()
         | None \<Rightarrow>
             if aud \<notin> set (id_allowed_audiences (base_of identity))
             then Inl (http 400 (oauth_detail ''invalid_target''
                    (''Audience '' @ py_repr_str aud @
                     '' is not in allowed_audiences for this identity.'')))
             else Inr ()))"

definition apply_roles_override :: "string list \<Rightarrow> headers \<Rightarrow> string list" where
  "apply_roles_override roles headers =
     (case dget headers ''x-override-roles'' of None \<Rightarrow> roles | Some v \<Rightarrow> comma_list v)"

section \<open>Claim overrides and omission\<close>

definition list_claims :: "string set" where
  "list_claims = {''roles'', ''groups'', ''amr''}"

definition reserved_form_fields :: "string set" where
  "reserved_form_fields =
     {''grant_type'', ''client_id'', ''client_secret'', ''username'', ''password'', ''resource'',
      ''scope'', ''iss''}"

definition time_claims :: "string set" where
  "time_claims = {''exp'', ''iat'', ''nbf''}"

fun apply_overrides :: "claims \<Rightarrow> (string \<times> string) list \<Rightarrow> bool \<Rightarrow> claims" where
  "apply_overrides claims [] allow_iss = claims"
| "apply_overrides claims ((k, v) # form) allow_iss =
     (if k = [] then apply_overrides claims form allow_iss
      else if k = ''iss'' then
        apply_overrides (if allow_iss then dset claims ''iss'' (JStr v) else claims) form allow_iss
      else if k \<in> reserved_form_fields then apply_overrides claims form allow_iss
      else if k \<in> list_claims then
        apply_overrides (dset claims k (jstrs (comma_list v))) form allow_iss
      else if k \<in> time_claims then
        apply_overrides
          (dset claims k (case py_int v of Some n \<Rightarrow> JInt n | None \<Rightarrow> JStr v)) form allow_iss
      else apply_overrides (dset claims k (JStr v)) form allow_iss)"

definition omit :: "claims \<Rightarrow> string option \<Rightarrow> claims" where
  "omit claims header_value =
     fold (\<lambda>name c. (let n = py_strip name in if n \<noteq> [] then dpop c n else c))
       (split_on CHR '','' (str_or header_value [])) claims"

section \<open>Test hooks and redaction\<close>

text \<open>
  The milliseconds \<open>apply_test_hooks\<close> sleeps. \<open>int / 1000\<close> rounds to the nearest float and overflows
  when the quotient is at least the midpoint above the largest one; \<open>OverflowError\<close> is not among the
  exceptions the code catches.
\<close>

definition test_delay :: "headers \<Rightarrow> exn + int" where
  "test_delay headers =
     (if truthy_str (dget headers ''x-test-delay-ms'') then
        (case py_int (the (dget headers ''x-test-delay-ms'')) of
           None \<Rightarrow> Inr 0
         | Some n \<Rightarrow>
             if max 0 n \<ge> 1000 * (2 ^ 1024 - 2 ^ 970) then Inl (PyError (LibraryError ''OverflowError''))
             else Inr (max 0 n))
      else Inr 0)"

definition apply_test_hooks :: "headers \<Rightarrow> exn + int" where
  "apply_test_hooks headers =
     bindE (test_delay headers) (\<lambda>ms.
       if truthy_str (dget headers ''x-test-fail'')
       then Inl (http 500 (oauth_detail ''server_error'' ''X-Test-Fail triggered''))
       else Inr ms)"

definition secret_keys :: "string set" where
  "secret_keys = {''password'', ''secret'', ''admin_token''}"

fun redact :: "json \<Rightarrow> json" where
  "redact (JObj kvs) =
     JObj (map (\<lambda>(k, v). (k, if k \<in> secret_keys then JStr ''***'' else redact v)) kvs)"
| "redact (JList xs) = JList (map redact xs)"
| "redact v = v"

section \<open>Tokens\<close>

definition make_unsigned_token :: "claims \<Rightarrow> string" where
  "make_unsigned_token claims =
     (let header = json_segment (JObj [(''alg'', JStr ''none''), (''typ'', JStr ''JWT'')]);
          payload = json_segment (JObj claims)
      in header @ ''.'' @ payload @ ''.'')"

definition make_wrong_alg_token :: "claims \<Rightarrow> string \<Rightarrow> string" where
  "make_wrong_alg_token claims public_key_pem =
     (let header = json_segment (JObj [(''alg'', JStr ''HS256''), (''typ'', JStr ''JWT'')]);
          payload = json_segment (JObj claims);
          signing_input = header @ ''.'' @ payload;
          sig = hmac_sha256 public_key_pem signing_input
      in header @ ''.'' @ payload @ ''.'' @ b64url sig)"

definition sign_header :: "jwk \<Rightarrow> claims" where
  "sign_header key =
     [(''alg'', JStr (if jwk_kty key = EC then ''ES256'' else ''RS256'')),
      (''typ'', JStr ''JWT''), (''kid'', JStr (jwk_kid key))]"

definition sign :: "jwt_lib \<Rightarrow> claims \<Rightarrow> jwk \<Rightarrow> string" where
  "sign L claims key = jwt_encode L (sign_header key) claims key"

definition verify_token :: "jwt_lib \<Rightarrow> string \<Rightarrow> jwk list \<Rightarrow> claims option" where
  "verify_token L token_str keys = (if token_str = [] then None else jwt_decode L token_str keys)"

section \<open>Properties of the parameters\<close>

lemma resolve_shape_range:
  "dflt \<in> {''v1'', ''v2''} \<Longrightarrow> resolve_shape dflt form h \<in> {''v1'', ''v2''}"
  by (auto simp: resolve_shape_def Let_def)

lemma resolve_shape_header:
  "v \<in> {''v1'', ''v2''} \<Longrightarrow> resolve_shape dflt form (Some v) = v"
  by (auto simp: resolve_shape_def)

lemma resolve_aud_resource:
  "dget form ''resource'' = Some (c # r) \<Longrightarrow> resolve_aud form = c # r"
  by (simp add: resolve_aud_def)

lemma resolve_aud_default_scope:
  "\<not> truthy_str (dget form ''resource'') \<Longrightarrow> dget form ''scope'' = Some (a @ ''/.default'') \<Longrightarrow>
   resolve_aud form = a"
  by (simp add: resolve_aud_def str_or_def Let_def suffixI split: list.split)

lemma resolve_expiry_expired:
  "truthy_str (dget headers ''x-test-expired'') \<Longrightarrow> resolve_expiry d headers = -60"
  by (simp add: resolve_expiry_def)

lemma resolve_expiry_in:
  "\<not> truthy_str (dget headers ''x-test-expired'') \<Longrightarrow>
   dget headers ''x-test-expires-in'' = Some v \<Longrightarrow> py_int v = Some n \<Longrightarrow> resolve_expiry d headers = n"
  by (simp add: resolve_expiry_def)

lemma resolve_expiry_default:
  "\<not> truthy_str (dget headers ''x-test-expired'') \<Longrightarrow>
   dget headers ''x-test-expires-in'' = None \<or>
   (\<exists>v. dget headers ''x-test-expires-in'' = Some v \<and> py_int v = None) \<Longrightarrow>
   resolve_expiry d headers = (if d = 0 then 3600 else d)"
  by (auto simp: resolve_expiry_def)

section \<open>Roles\<close>

text \<open>The accumulating loop is the first-occurrence filter of the concatenated layers.\<close>

fun first_occurrences :: "string list \<Rightarrow> string list" where
  "first_occurrences [] = []"
| "first_occurrences (r # rs) = r # filter (\<lambda>x. x \<noteq> r) (first_occurrences rs)"

lemma set_first_occurrences [simp]: "set (first_occurrences rs) = set rs"
  by (induction rs) auto

lemma distinct_first_occurrences [simp]: "distinct (first_occurrences rs)"
  by (induction rs) auto

lemma collect_roles_eq:
  "collect_roles seen result rs = result @ filter (\<lambda>x. x \<notin> seen) (first_occurrences rs)"
proof (induction rs arbitrary: seen result)
  case (Cons r rs)
  have "filter (\<lambda>x. x \<notin> insert r seen) ys = filter (\<lambda>x. x \<notin> seen) (filter (\<lambda>x. x \<noteq> r) ys)" for ys
    by (induction ys) auto
  moreover have "r \<in> seen \<Longrightarrow>
      filter (\<lambda>x. x \<notin> seen) (filter (\<lambda>x. x \<noteq> r) ys) = filter (\<lambda>x. x \<notin> seen) ys" for ys
    by (induction ys) auto
  ultimately show ?case by (simp add: Cons.IH)
qed simp

text \<open>The three layers, in their order.\<close>

definition role_layers :: "(string, client_app) dict \<Rightarrow> string \<Rightarrow> identity \<Rightarrow> string \<Rightarrow> string list" where
  "role_layers apps key identity aud =
     id_tenant_realm_roles (base_of identity) @ id_realm_roles (base_of identity) @
     (case dget apps aud of
        Some app \<Rightarrow>
          (case dget (app_grants app) (grants_key key identity) of None \<Rightarrow> [] | Some rs \<Rightarrow> rs)
      | None \<Rightarrow> id_roles (base_of identity))"

lemma resolve_roles_eq:
  "resolve_roles apps key identity aud = first_occurrences (role_layers apps key identity aud)"
  by (simp add: resolve_roles_def role_layers_def collect_roles_eq Let_def cong: option.case_cong)

text \<open>A role keeps its place: what stands before it in the result stands before it in the layers.\<close>

lemma first_occurrences_prefix:
  "\<exists>ws. first_occurrences (us @ vs) = first_occurrences us @ ws"
  by (induction us) auto

section \<open>The audience check\<close>

definition strict_mode :: "string \<Rightarrow> string \<Rightarrow> bool" where
  "strict_mode global_mode mode = ((if mode \<in> {''lax'', ''strict''} then mode else global_mode) = ''strict'')"

text \<open>The audiences an identity may ask for in strict mode.\<close>

definition audience_allowed :: "(string, client_app) dict \<Rightarrow> string \<Rightarrow> identity \<Rightarrow> string \<Rightarrow> bool" where
  "audience_allowed apps key identity aud =
     (case dget apps aud of
        Some app \<Rightarrow> dget (app_grants app) (grants_key key identity) \<noteq> None
      | None \<Rightarrow> aud \<in> set (id_allowed_audiences (base_of identity)))"

lemma check_audience_ok:
  "check_audience apps gm key identity aud mode = Inr u \<longleftrightarrow>
   \<not> strict_mode gm mode \<or> overrides_any_claim identity \<or> audience_allowed apps key identity aud"
  by (auto simp: check_audience_def strict_mode_def audience_allowed_def dhas_iff Let_def
      split: option.splits)

lemma check_audience_error:
  "check_audience apps gm key identity aud mode = Inl e \<Longrightarrow>
   \<exists>d. e = http 400 (oauth_detail ''invalid_target'' d)"
  by (auto simp: check_audience_def Let_def split: option.splits if_splits)

section \<open>Overrides and omission\<close>

text \<open>What a form field overrides, and with which value.\<close>

definition overridable :: "bool \<Rightarrow> string \<Rightarrow> bool" where
  "overridable allow_iss k =
     (k \<noteq> [] \<and> (if k = ''iss'' then allow_iss else k \<notin> reserved_form_fields))"

definition override_value :: "string \<Rightarrow> string \<Rightarrow> json" where
  "override_value k v =
     (if k \<in> list_claims then jstrs (comma_list v)
      else if k \<in> time_claims then (case py_int v of Some n \<Rightarrow> JInt n | None \<Rightarrow> JStr v)
      else JStr v)"

lemma apply_overrides_Cons:
  "apply_overrides claims ((k, v) # form) a =
   apply_overrides (if overridable a k then dset claims k (override_value k v) else claims) form a"
  by (auto simp: overridable_def override_value_def reserved_form_fields_def list_claims_def time_claims_def)

lemma dget_apply_overrides:
  "dict_ok form \<Longrightarrow>
   dget (apply_overrides claims form a) k =
     (case dget form k of
        Some v \<Rightarrow> if overridable a k then Some (override_value k v) else dget claims k
      | None \<Rightarrow> dget claims k)"
proof (induction form arbitrary: claims)
  case (Cons p form)
  obtain k' v' where p: "p = (k', v')" by (cases p)
  from Cons.prems have "dict_ok form" "dget form k' = None"
    by (auto simp: p dict_ok_def map_of_eq_None_iff)
  with Cons.IH show ?case
    by (auto simp: p apply_overrides_Cons simp del: apply_overrides.simps split: option.splits)
qed simp

lemma dict_ok_apply_overrides [simp]: "dict_ok claims \<Longrightarrow> dict_ok (apply_overrides claims form a)"
proof (induction form arbitrary: claims)
  case (Cons p form)
  then show ?case
    by (cases p) (simp add: apply_overrides_Cons del: apply_overrides.simps)
qed simp

definition omitted_names :: "string option \<Rightarrow> string list" where
  "omitted_names h = comma_list (str_or h [])"

lemma omit_eq: "omit claims h = fold (\<lambda>n c. dpop c n) (omitted_names h) claims"
proof -
  have "fold (\<lambda>name c. (let n = py_strip name in if n \<noteq> [] then dpop c n else c)) ws c =
      fold (\<lambda>n c. dpop c n) (filter (\<lambda>x. x \<noteq> []) (map py_strip ws)) c" for ws and c :: claims
    by (induction ws arbitrary: c) (simp_all add: Let_def)
  then show ?thesis by (simp add: omit_def omitted_names_def comma_list_def)
qed

lemma dget_omit: "dget (omit claims h) k = (if k \<in> set (omitted_names h) then None else dget claims k)"
proof -
  have "dget (fold (\<lambda>n c. dpop c n) ns c) k = (if k \<in> set ns then None else dget c k)"
    for ns and c :: claims
    by (induction ns arbitrary: c) auto
  then show ?thesis by (simp add: omit_eq)
qed

lemma dict_ok_omit [simp]: "dict_ok claims \<Longrightarrow> dict_ok (omit claims h)"
proof -
  have "dict_ok c \<Longrightarrow> dict_ok (fold (\<lambda>n c. dpop c n) ns c)" for ns and c :: claims
    by (induction ns arbitrary: c) auto
  then show "dict_ok claims \<Longrightarrow> dict_ok (omit claims h)" by (simp add: omit_eq)
qed

lemma omit_None [simp]: "omit claims None = claims"
  by (simp add: omit_def Let_def py_strip_def strip_with_def)

section \<open>Serialisable claims\<close>

definition claims_ok :: "claims \<Rightarrow> bool" where
  "claims_ok c = (dict_ok c \<and> (\<forall>(k, v) \<in> set c. json_ok v))"

lemma json_ok_JObj: "json_ok (JObj c) \<longleftrightarrow> claims_ok c"
  by (simp add: claims_ok_def list_all_iff)

declare json_ok.simps(2) [simp del]
declare json_ok_JObj [simp]

lemma json_ok_jstrs [simp]: "list_all json_ok (map JStr ws)"
  by (simp add: list_all_iff)

lemma claims_ok_dset [simp]: "claims_ok c \<Longrightarrow> json_ok v \<Longrightarrow> claims_ok (dset c k v)"
  using set_dset_subset [of k v c] by (auto simp: claims_ok_def)

lemma claims_ok_dpop [simp]: "claims_ok c \<Longrightarrow> claims_ok (dpop c k)"
proof -
  have "set (dpop c k) \<subseteq> set c" by (auto simp: AList.delete_eq)
  then show "claims_ok c \<Longrightarrow> claims_ok (dpop c k)" by (auto simp: claims_ok_def)
qed

lemma claims_ok_dict_update [simp]: "claims_ok c \<Longrightarrow> claims_ok e \<Longrightarrow> claims_ok (dict_update c e)"
  using set_dict_update_subset [of c e] by (auto simp: claims_ok_def)

lemma claims_ok_get: "claims_ok c \<Longrightarrow> dget c k = Some v \<Longrightarrow> json_ok v"
  by (auto simp: claims_ok_def dest!: map_of_SomeD)

lemma json_ok_override_value [simp]: "json_ok (override_value k v)"
  by (auto simp: override_value_def split: option.split)

lemma claims_ok_apply_overrides [simp]: "claims_ok c \<Longrightarrow> claims_ok (apply_overrides c form a)"
proof (induction form arbitrary: c)
  case (Cons p form)
  then show ?case
    by (cases p) (simp add: apply_overrides_Cons del: apply_overrides.simps)
qed simp

lemma claims_ok_omit [simp]: "claims_ok c \<Longrightarrow> claims_ok (omit c h)"
proof -
  have "claims_ok c \<Longrightarrow> claims_ok (fold (\<lambda>n c. dpop c n) ns c)" for ns c
    by (induction ns arbitrary: c) auto
  then show "claims_ok c \<Longrightarrow> claims_ok (omit c h)" by (simp add: omit_eq)
qed

section \<open>Redaction\<close>

text \<open>Replace what stands under a secret key by something else, everywhere.\<close>

fun scramble :: "(string \<Rightarrow> json \<Rightarrow> json) \<Rightarrow> json \<Rightarrow> json" where
  "scramble f (JObj kvs) =
     JObj (map (\<lambda>(k, v). (k, if k \<in> secret_keys then f k v else scramble f v)) kvs)"
| "scramble f (JList xs) = JList (map (scramble f) xs)"
| "scramble f v = v"

text \<open>The redacted document does not depend on the secrets.\<close>

lemma redact_scramble: "redact (scramble f j) = redact j"
  by (induction j rule: redact.induct) auto

lemma redact_idem: "redact (redact j) = redact j"
  by (induction j rule: redact.induct) auto

lemma redact_get:
  "redact (JObj kvs) = JObj d \<Longrightarrow>
   dget d k = (if k \<in> secret_keys then map_option (\<lambda>_. JStr ''***'') (dget kvs k)
               else map_option redact (dget kvs k))"
proof (induction kvs arbitrary: d)
  case (Cons p kvs)
  then show ?case by (cases p) auto
qed simp

section \<open>Broken tokens\<close>

text \<open>An unsigned token has the claims in the clear and an empty signature.\<close>

lemma split_unsigned_token:
  "split_on CHR ''.'' (make_unsigned_token c) =
     [json_segment (JObj [(''alg'', JStr ''none''), (''typ'', JStr ''JWT'')]),
      json_segment (JObj c), []]"
  by (simp add: make_unsigned_token_def json_segment_def b64url_no_dot split_on_append_sep
      split_on_no_sep Let_def)

lemma split_wrong_alg_token:
  "split_on CHR ''.'' (make_wrong_alg_token c pem) =
     [json_segment (JObj [(''alg'', JStr ''HS256''), (''typ'', JStr ''JWT'')]),
      json_segment (JObj c),
      b64url (hmac_sha256 pem
        (json_segment (JObj [(''alg'', JStr ''HS256''), (''typ'', JStr ''JWT'')]) @ ''.'' @
         json_segment (JObj c)))]"
  by (simp add: make_wrong_alg_token_def json_segment_def b64url_no_dot split_on_append_sep
      split_on_no_sep Let_def)

section \<open>Signing and verifying\<close>

lemma verify_token_Nil [simp]: "verify_token L [] ks = None"
  by (simp add: verify_token_def)

lemma key_alg_kty: "key_alg k = (if jwk_kty k = EC then ''ES256'' else ''RS256'')"
  by (simp add: key_alg_def split: kty.split)

lemma sign_header_ok: "header_for (sign_header k) k"
  by (simp add: header_for_def sign_header_def key_alg_kty dict_ok_def claims_ok_def)

lemma verify_signed:
  assumes "jwt_lawful L" and "claims_ok c" and "k \<in> set ks" and "distinct (map jwk_kid ks)"
  shows "verify_token L (sign L c k) ks = Some c"
  using assms jwt_lawful_token(1) [OF assms(1)]
  by (simp add: verify_token_def sign_def jwt_lawful_ok sign_header_ok)

lemma verify_foreign:
  assumes "jwt_lawful L" and "jwk_material k \<notin> jwk_material ` set ks"
  shows "verify_token L (sign L c k) ks = None"
  using assms by (simp add: verify_token_def sign_def jwt_lawful_foreign)

text \<open>What every key provider gives: the lemmas of the clients of the protocol.\<close>

context key_resolver
begin

lemma signed_token_verifies:
  assumes "jwt_lawful L" and "kinv s" and "claims_ok c"
    and "signing_key i a s = (k, s')" and "jwks i s' = (ks, s'')"
  shows "verify_token L (sign L c k) ks = Some c"
proof (rule verify_signed [OF assms(1,3)])
  have "kinv s'" using signing_inv [OF assms(2), of i a] assms(4) by simp
  then show "distinct (map jwk_kid ks)" using kids_distinct [of s' i] assms(5) by simp
  show "k \<in> set ks" using signing_published [OF assms(2,4)] assms(5) by simp
qed

lemma signed_token_foreign:
  assumes "jwt_lawful L" and "kinv s" and "i \<noteq> j"
    and "signing_key i a s = (k, s')" and "jwks j s' = (ks, s'')"
  shows "verify_token L (sign L c k) ks = None"
  using verify_foreign [OF assms(1)] signing_foreign [OF assms(2-4)] assms(5) by simp

lemma alt_token_rejected:
  assumes "jwt_lawful L" and "kinv s"
    and "alt_key i a s = (k, s')" and "jwks i s' = (ks, s'')"
  shows "verify_token L (sign L c k) ks = None"
  using verify_foreign [OF assms(1)] alt_unpublished [OF assms(2,3)] assms(4) by simp

lemma jwks_later:
  assumes "kinv s" and "jwks i s = (ks, s')"
  shows "fst (jwks i s') = ks"
  unfolding jwks_stable [OF assms] by simp

end

end
