(* ===== verification/Providers.thy ===== *)
theory Providers
  imports Tokens
begin

text \<open>
  \<open>providers/\<close>: the claims of a user and of a service principal in the shape of each identity
  provider, and the registry of the providers. What every provider promises is the locale
  \<open>claims_provider\<close>, interpreted on the four modules; \<open>user_claims\<close> and \<open>sp_claims\<close> dispatch on the
  module \<open>get_provider\<close> returns.
\<close>

section \<open>What the modules read\<close>

text \<open>
  \<open>_cfg.ISS_BASE\<close>, \<open>_cfg.CLIENT_APPS\<close>, and the clock: \<open>_common\<close> reads it once; Cognito's
  \<open>user_claims\<close> reads it once before.
\<close>

record provider_env =
  pe_iss_base :: string
  pe_client_apps :: "(string, client_app) dict"
  pe_now :: int
  pe_auth_now :: int

definition update_extra :: "claims \<Rightarrow> claims \<Rightarrow> claims" where
  "update_extra c extra = (if extra \<noteq> [] then dict_update c extra else c)"

definition joined_roles :: "string list \<Rightarrow> string \<Rightarrow> string" where
  "joined_roles roles fallback = (if roles \<noteq> [] then py_join '' '' roles else fallback)"

definition dset_if :: "bool \<Rightarrow> claims \<Rightarrow> string \<Rightarrow> json \<Rightarrow> claims" where
  "dset_if b c k v = (if b then dset c k v else c)"

section \<open>Entra ID\<close>

definition entra_id_common :: "provider_env \<Rightarrow> string \<Rightarrow> string \<Rightarrow> int \<Rightarrow> claims" where
  "entra_id_common E issuer aud expires_in =
     (let now = pe_now E
      in [(''iss'', JStr (pe_iss_base E @ ''/'' @ issuer)), (''aud'', JStr aud), (''iat'', JInt now),
          (''nbf'', JInt now), (''exp'', JInt (now + expires_in))])"

definition entra_id_user_claims ::
  "provider_env \<Rightarrow> string \<Rightarrow> user_record \<Rightarrow> string \<Rightarrow> string \<Rightarrow> int \<Rightarrow> string list \<Rightarrow> string option \<Rightarrow> claims" where
  "entra_id_user_claims E issuer user aud shape expires_in roles oauth_client_id =
     (let c0 = entra_id_common E issuer (resolve_user_aud (pe_client_apps E) aud) expires_in;
          c1 = dset c0 ''sub'' (JStr (u_oid user));
          c2 = dset c1 ''oid'' (JStr (u_oid user));
          c3 = dset c2 ''tid'' (JStr (id_tid user));
          c4 = dset c3 ''roles'' (jstrs roles);
          c5 = dset c4 ''groups'' (jstrs (id_groups user));
          client = JStr (str_or oauth_client_id []);
          c6 = (if shape = ''v1''
                then dset_if (truthy_str oauth_client_id)
                       (dset (dset (dset c5 ''upn'' (jopt (u_upn user)))
                                ''unique_name'' (jopt (u_upn user)))
                             ''ver'' (JStr ''1.0''))
                       ''appid'' client
                else dset_if (truthy_str oauth_client_id)
                       (dset (dset c5 ''preferred_username'' (jopt (u_preferred_username user)))
                             ''ver'' (JStr ''2.0''))
                       ''azp'' client)
      in update_extra c6 (id_extra_claims user))"

definition entra_id_sp_claims ::
  "provider_env \<Rightarrow> string \<Rightarrow> string \<Rightarrow> sp_record \<Rightarrow> string \<Rightarrow> string \<Rightarrow> int \<Rightarrow> string list \<Rightarrow> claims" where
  "entra_id_sp_claims E issuer canonical_id sp aud shape expires_in roles =
     (let c0 = entra_id_common E issuer aud expires_in;
          c1 = dset c0 ''sub'' (JStr canonical_id);
          c2 = dset c1 ''tid'' (JStr (id_tid sp));
          c3 = dset c2 ''roles'' (jstrs roles);
          c4 = dset c3 ''groups'' (jstrs (id_groups sp));
          c5 = (if shape = ''v1''
                then dset (dset c4 ''appid'' (JStr canonical_id)) ''ver'' (JStr ''1.0'')
                else dset (dset c4 ''azp'' (JStr canonical_id)) ''ver'' (JStr ''2.0''))
      in update_extra c5 (id_extra_claims sp))"

section \<open>Okta\<close>

definition okta_common :: "provider_env \<Rightarrow> string \<Rightarrow> string \<Rightarrow> int \<Rightarrow> claims" where
  "okta_common E issuer aud expires_in =
     (let now = pe_now E
      in [(''iss'', JStr (pe_iss_base E @ ''/'' @ issuer)), (''aud'', JStr aud), (''iat'', JInt now),
          (''nbf'', JInt now), (''exp'', JInt (now + expires_in))])"

definition okta_user_claims ::
  "provider_env \<Rightarrow> string \<Rightarrow> user_record \<Rightarrow> string \<Rightarrow> string \<Rightarrow> int \<Rightarrow> string list \<Rightarrow> string option \<Rightarrow> claims" where
  "okta_user_claims E issuer user aud shape expires_in roles oauth_client_id =
     (let c0 = okta_common E issuer aud expires_in;
          c1 = dset c0 ''sub''
                 (JStr (str_or (u_upn user) (str_or (u_preferred_username user) (u_oid user))));
          c2 = dset c1 ''uid'' (JStr (u_oid user));
          c3 = dset c2 ''groups'' (jstrs (id_groups user));
          c4 = dset c3 ''scp'' (JStr (joined_roles roles ''openid profile email''));
          c5 = dset_if (truthy_str oauth_client_id) c4 ''cid'' (JStr (str_or oauth_client_id []))
      in update_extra c5 (id_extra_claims user))"

definition okta_sp_claims ::
  "provider_env \<Rightarrow> string \<Rightarrow> string \<Rightarrow> sp_record \<Rightarrow> string \<Rightarrow> string \<Rightarrow> int \<Rightarrow> string list \<Rightarrow> claims" where
  "okta_sp_claims E issuer canonical_id sp aud shape expires_in roles =
     (let c0 = okta_common E issuer aud expires_in;
          c1 = dset c0 ''sub'' (JStr canonical_id);
          c2 = dset c1 ''cid'' (JStr canonical_id);
          c3 = dset c2 ''scp'' (JStr (joined_roles roles ''openid''));
          c4 = dset c3 ''groups'' (jstrs (id_groups sp))
      in update_extra c4 (id_extra_claims sp))"

section \<open>Cognito\<close>

definition cognito_common :: "provider_env \<Rightarrow> string \<Rightarrow> string \<Rightarrow> int \<Rightarrow> claims" where
  "cognito_common E issuer aud expires_in =
     (let now = pe_now E
      in [(''iss'', JStr (pe_iss_base E @ ''/'' @ issuer)), (''aud'', JStr aud), (''iat'', JInt now),
          (''nbf'', JInt now), (''exp'', JInt (now + expires_in))])"

definition cognito_user_claims ::
  "provider_env \<Rightarrow> string \<Rightarrow> user_record \<Rightarrow> string \<Rightarrow> string \<Rightarrow> int \<Rightarrow> string list \<Rightarrow> string option \<Rightarrow> claims" where
  "cognito_user_claims E issuer user aud shape expires_in roles oauth_client_id =
     (let now = pe_auth_now E;
          c0 = cognito_common E issuer aud expires_in;
          c1 = dset c0 ''sub'' (JStr (u_oid user));
          c2 = dset c1 ''token_use'' (JStr ''access'');
          c3 = dset c2 ''auth_time'' (JInt now);
          c4 = dset c3 ''cognito:username''
                 (JStr (str_or (u_preferred_username user) (str_or (u_upn user) ''unknown'')));
          c5 = dset c4 ''cognito:groups'' (jstrs (id_groups user));
          c6 = dset c5 ''scope'' (JStr (joined_roles roles ''openid profile email''));
          c7 = dset_if (truthy_str oauth_client_id) c6 ''client_id'' (JStr (str_or oauth_client_id []))
      in update_extra c7 (id_extra_claims user))"

definition cognito_sp_claims ::
  "provider_env \<Rightarrow> string \<Rightarrow> string \<Rightarrow> sp_record \<Rightarrow> string \<Rightarrow> string \<Rightarrow> int \<Rightarrow> string list \<Rightarrow> claims" where
  "cognito_sp_claims E issuer canonical_id sp aud shape expires_in roles =
     (let c0 = cognito_common E issuer aud expires_in;
          c1 = dset c0 ''sub'' (JStr canonical_id);
          c2 = dset c1 ''token_use'' (JStr ''access'');
          c3 = dset c2 ''client_id'' (JStr canonical_id);
          c4 = dset c3 ''scope'' (JStr (joined_roles roles ''openid''))
      in update_extra c4 (id_extra_claims sp))"

section \<open>Keycloak\<close>

definition keycloak_common :: "provider_env \<Rightarrow> string \<Rightarrow> string \<Rightarrow> int \<Rightarrow> claims" where
  "keycloak_common E issuer aud expires_in =
     (let now = pe_now E
      in [(''iss'', JStr (pe_iss_base E @ ''/'' @ issuer)), (''aud'', JStr aud), (''iat'', JInt now),
          (''nbf'', JInt now), (''exp'', JInt (now + expires_in))])"

definition keycloak_user_claims ::
  "provider_env \<Rightarrow> string \<Rightarrow> user_record \<Rightarrow> string \<Rightarrow> string \<Rightarrow> int \<Rightarrow> string list \<Rightarrow> string option \<Rightarrow> claims" where
  "keycloak_user_claims E issuer user aud shape expires_in roles oauth_client_id =
     (let c0 = keycloak_common E issuer aud expires_in;
          c1 = dset c0 ''sub'' (JStr (u_oid user));
          c2 = dset c1 ''preferred_username''
                 (JStr (str_or (u_preferred_username user) (str_or (u_upn user) ''unknown'')));
          c3 = dset c2 ''email'' (JStr (str_or (u_upn user) (str_or (u_preferred_username user) [])));
          c4 = dset c3 ''realm_access'' (JObj [(''roles'', jstrs roles)]);
          c5 = dset c4 ''scope'' (JStr ''openid profile email'');
          client = str_or oauth_client_id [];
          c6 = dset_if (truthy_str oauth_client_id) c5 ''azp'' (JStr client);
          c7 = dset_if (truthy_str oauth_client_id) c6 ''resource_access''
                 (JObj [(client, JObj [(''roles'', jstrs roles)])])
      in update_extra c7 (id_extra_claims user))"

definition keycloak_sp_claims ::
  "provider_env \<Rightarrow> string \<Rightarrow> string \<Rightarrow> sp_record \<Rightarrow> string \<Rightarrow> string \<Rightarrow> int \<Rightarrow> string list \<Rightarrow> claims" where
  "keycloak_sp_claims E issuer canonical_id sp aud shape expires_in roles =
     (let c0 = keycloak_common E issuer aud expires_in;
          c1 = dset c0 ''sub'' (JStr canonical_id);
          c2 = dset c1 ''azp'' (JStr canonical_id);
          c3 = dset c2 ''realm_access'' (JObj [(''roles'', jstrs roles)]);
          c4 = dset c3 ''resource_access''
                 (JObj [(canonical_id, JObj [(''roles'', jstrs roles)])]);
          c5 = dset c4 ''scope'' (JStr ''openid'')
      in update_extra c5 (id_extra_claims sp))"

section \<open>The registry\<close>

datatype provider = EntraId | Okta | Cognito | Keycloak

definition provider_registry :: "(string, provider) dict" where
  "provider_registry =
     [(''entra_id'', EntraId), (''okta'', Okta), (''cognito'', Cognito), (''keycloak'', Keycloak)]"

definition get_provider :: "string \<Rightarrow> py_exn + provider" where
  "get_provider name =
     (case dget provider_registry name of
        None \<Rightarrow> Inl (ValueError (''Unknown provider '' @ py_repr_str name @ ''. Available: '' @
                                 py_repr (jstrs [''cognito'', ''entra_id'', ''keycloak'', ''okta''])))
      | Some p \<Rightarrow> Inr p)"

fun user_claims ::
  "provider \<Rightarrow> provider_env \<Rightarrow> string \<Rightarrow> user_record \<Rightarrow> string \<Rightarrow> string \<Rightarrow> int \<Rightarrow> string list \<Rightarrow>
   string option \<Rightarrow> claims" where
  "user_claims EntraId = entra_id_user_claims"
| "user_claims Okta = okta_user_claims"
| "user_claims Cognito = cognito_user_claims"
| "user_claims Keycloak = keycloak_user_claims"

fun sp_claims ::
  "provider \<Rightarrow> provider_env \<Rightarrow> string \<Rightarrow> string \<Rightarrow> sp_record \<Rightarrow> string \<Rightarrow> string \<Rightarrow> int \<Rightarrow> string list \<Rightarrow>
   claims" where
  "sp_claims EntraId = entra_id_sp_claims"
| "sp_claims Okta = okta_sp_claims"
| "sp_claims Cognito = cognito_sp_claims"
| "sp_claims Keycloak = keycloak_sp_claims"

section \<open>What every provider promises\<close>

lemma dget_update_extra:
  "dict_ok extra \<Longrightarrow> dget (update_extra c extra) k = (case dget extra k of None \<Rightarrow> dget c k | Some v \<Rightarrow> Some v)"
  by (simp add: update_extra_def dget_dict_update map_add_def)

lemma dget_dset_if: "dget (dset_if b c k v) = (if b then (dget c)(k \<mapsto> v) else dget c)"
  by (simp add: dset_if_def fun_eq_iff)

lemma claims_ok_dset_if [simp]: "claims_ok c \<Longrightarrow> json_ok v \<Longrightarrow> claims_ok (dset_if b c k v)"
  by (simp add: dset_if_def)

lemma claims_ok_update_extra [simp]: "claims_ok c \<Longrightarrow> claims_ok e \<Longrightarrow> claims_ok (update_extra c e)"
  by (simp add: update_extra_def)

lemma json_ok_jopt [simp]: "json_ok (jopt v)"
  by (simp add: jopt_def split: option.split)

lemma claims_ok_list [simp]:
  "claims_ok []" "claims_ok ((k, v) # c) \<longleftrightarrow> \<not> dhas c k \<and> json_ok v \<and> claims_ok c"
  by (auto simp: claims_ok_def dict_ok_def)

text \<open>
  The extra claims of an identity come last and win; where they are silent, the issuer, the lifetime
  and the subject are the program's; a well-formed identity gives serialisable claims.
\<close>

locale claims_provider =
  fixes user :: "provider_env \<Rightarrow> string \<Rightarrow> user_record \<Rightarrow> string \<Rightarrow> string \<Rightarrow> int \<Rightarrow> string list \<Rightarrow>
      string option \<Rightarrow> claims"
    and service :: "provider_env \<Rightarrow> string \<Rightarrow> string \<Rightarrow> sp_record \<Rightarrow> string \<Rightarrow> string \<Rightarrow> int \<Rightarrow>
      string list \<Rightarrow> claims"
  assumes user_ok: "claims_ok (id_extra_claims u) \<Longrightarrow> claims_ok (user E i u a sh n rs cid)"
    and service_ok: "claims_ok (id_extra_claims sp) \<Longrightarrow> claims_ok (service E i can sp a sh n rs)"
    and user_extra: "dict_ok (id_extra_claims u) \<Longrightarrow> dget (id_extra_claims u) k = Some v \<Longrightarrow>
      dget (user E i u a sh n rs cid) k = Some v"
    and service_extra: "dict_ok (id_extra_claims sp) \<Longrightarrow> dget (id_extra_claims sp) k = Some v \<Longrightarrow>
      dget (service E i can sp a sh n rs) k = Some v"
    and user_exp: "dict_ok (id_extra_claims u) \<Longrightarrow> dget (id_extra_claims u) ''exp'' = None \<Longrightarrow>
      dget (user E i u a sh n rs cid) ''exp'' = Some (JInt (pe_now E + n))"
    and service_exp: "dict_ok (id_extra_claims sp) \<Longrightarrow> dget (id_extra_claims sp) ''exp'' = None \<Longrightarrow>
      dget (service E i can sp a sh n rs) ''exp'' = Some (JInt (pe_now E + n))"
    and user_iss: "dict_ok (id_extra_claims u) \<Longrightarrow> dget (id_extra_claims u) ''iss'' = None \<Longrightarrow>
      dget (user E i u a sh n rs cid) ''iss'' = Some (JStr (pe_iss_base E @ ''/'' @ i))"
    and service_iss: "dict_ok (id_extra_claims sp) \<Longrightarrow> dget (id_extra_claims sp) ''iss'' = None \<Longrightarrow>
      dget (service E i can sp a sh n rs) ''iss'' = Some (JStr (pe_iss_base E @ ''/'' @ i))"
    and service_sub: "dict_ok (id_extra_claims sp) \<Longrightarrow> dget (id_extra_claims sp) ''sub'' = None \<Longrightarrow>
      dget (service E i can sp a sh n rs) ''sub'' = Some (JStr can)"
    and service_aud: "dict_ok (id_extra_claims sp) \<Longrightarrow> dget (id_extra_claims sp) ''aud'' = None \<Longrightarrow>
      dget (service E i can sp a sh n rs) ''aud'' = Some (JStr a)"
begin

text \<open>A principal with no extra claims gets a token that lives exactly as long as requested.\<close>

lemma service_lifetime:
  assumes "id_extra_claims sp = []"
  shows "seconds_left (service E i can sp a sh n rs) (pe_now E) = Inr (max 0 n)"
  using service_exp [of sp E i can a sh n rs] assms by (simp add: seconds_left_int)

lemma user_lifetime:
  assumes "id_extra_claims u = []"
  shows "seconds_left (user E i u a sh n rs cid) (pe_now E) = Inr (max 0 n)"
  using user_exp [of u E i a sh n rs cid] assms by (simp add: seconds_left_int)

end

named_theorems provider_simps \<open>unfolding of the provider modules\<close>

declare entra_id_common_def [provider_simps] okta_common_def [provider_simps]
  cognito_common_def [provider_simps] keycloak_common_def [provider_simps]
  Let_def [provider_simps] dget_update_extra [provider_simps] dget_dset_if [provider_simps]

lemma common_ok [simp]:
  "claims_ok (entra_id_common E i a n)" "claims_ok (okta_common E i a n)"
  "claims_ok (cognito_common E i a n)" "claims_ok (keycloak_common E i a n)"
  by (simp_all add: provider_simps claims_ok_def dict_ok_def)

interpretation entra_id: claims_provider entra_id_user_claims entra_id_sp_claims
  by unfold_locales (simp_all add: entra_id_user_claims_def entra_id_sp_claims_def provider_simps)

interpretation okta: claims_provider okta_user_claims okta_sp_claims
  by unfold_locales (simp_all add: okta_user_claims_def okta_sp_claims_def provider_simps)

interpretation cognito: claims_provider cognito_user_claims cognito_sp_claims
  by unfold_locales (simp_all add: cognito_user_claims_def cognito_sp_claims_def provider_simps)

interpretation keycloak: claims_provider keycloak_user_claims keycloak_sp_claims
  by unfold_locales (simp_all add: keycloak_user_claims_def keycloak_sp_claims_def provider_simps)

text \<open>Hence the dispatching functions keep the promises for every provider.\<close>

interpretation any_provider: claims_provider "user_claims p" "sp_claims p"
  using entra_id.claims_provider_axioms okta.claims_provider_axioms
    cognito.claims_provider_axioms keycloak.claims_provider_axioms
  by (cases p) simp_all

lemma get_provider_cases:
  "get_provider name = Inr p \<longleftrightarrow> dget provider_registry name = Some p"
  by (simp add: get_provider_def split: option.split)

end
