(* ===== verification/Chaos.thy ===== *)
theory Chaos
  imports PyData Complex_Main
begin

text \<open>
  \<open>chaos.py\<close>: the per-issuer fault store and the faults applied before a request is processed. A
  fault is the dictionary the admin endpoint stores; its optional entries are options here. The
  random draw is an argument, a number in [0, 1). A \<open>float\<close> is a rational.
\<close>

record fault =
  f_mode :: string
  f_probability :: "rat option"
  f_value :: "int option"
  f_skew_seconds :: "int option"

type_synonym chaos = "(string, fault) dict"

definition valid_fault_modes :: "string set" where
  "valid_fault_modes =
     {''error_500'', ''delay_ms'', ''invalid_token'', ''invalid_signature'', ''expired_token''}"

definition set_fault :: "string \<Rightarrow> fault \<Rightarrow> chaos \<Rightarrow> chaos" where
  "set_fault issuer f s = dset s issuer f"

definition clear_fault :: "string \<Rightarrow> chaos \<Rightarrow> bool \<times> chaos" where
  "clear_fault issuer s = (dget s issuer \<noteq> None, dpop s issuer)"

definition get_faults :: "chaos \<Rightarrow> chaos" where
  "get_faults s = s"

definition get_fault :: "string \<Rightarrow> chaos \<Rightarrow> fault option" where
  "get_fault issuer s = dget s issuer"

text \<open>The least integer \<open>float\<close> refuses.\<close>

definition float_limit :: int where
  "float_limit = 2 ^ 1024 - 2 ^ 970"

text \<open>\<open>apply_pre\<close> returns the milliseconds it sleeps; a negative delay does not sleep.\<close>

definition apply_pre :: "rat \<Rightarrow> string \<Rightarrow> chaos \<Rightarrow> exn + int" where
  "apply_pre rnd issuer s =
     (case get_fault issuer s of
        None \<Rightarrow> Inr 0
      | Some f \<Rightarrow>
          if f_mode f = ''error_500'' then
            (let prob = (case f_probability f of None \<Rightarrow> 1 | Some p \<Rightarrow> p) in
             if rnd < prob then Inl (http 500 (JObj [(''error'', JStr ''chaos_error_500'')]))
             else Inr 0)
          else if f_mode f = ''delay_ms'' then
            (let v = (case f_value f of None \<Rightarrow> 0 | Some v \<Rightarrow> v) in
             if float_limit \<le> \<bar>v\<bar> then Inl (PyError (LibraryError ''OverflowError''))
             else Inr (max 0 v))
          else Inr 0)"

text \<open>The store's laws.\<close>

lemma get_set_fault: "get_fault i (set_fault j f s) = (if i = j then Some f else get_fault i s)"
  by (simp add: get_fault_def set_fault_def)

lemma get_clear_fault:
  "get_fault i (snd (clear_fault j s)) = (if i = j then None else get_fault i s)"
  by (simp add: get_fault_def clear_fault_def)

lemma clear_fault_found: "fst (clear_fault i s) \<longleftrightarrow> get_fault i s \<noteq> None"
  by (simp add: get_fault_def clear_fault_def)

lemma dict_ok_chaos [simp]:
  "dict_ok s \<Longrightarrow> dict_ok (set_fault i f s)" "dict_ok s \<Longrightarrow> dict_ok (snd (clear_fault i s))"
  by (simp_all add: set_fault_def clear_fault_def)

text \<open>Certain and impossible failures, whatever the draw.\<close>

lemma apply_pre_certain:
  assumes "get_fault i s = Some f" and "f_mode f = ''error_500''"
    and "f_probability f = None \<or> (\<exists>p. f_probability f = Some p \<and> 1 \<le> p)" and "rnd < 1"
  shows "apply_pre rnd i s = Inl (http 500 (JObj [(''error'', JStr ''chaos_error_500'')]))"
  using assms by (auto simp: apply_pre_def)

lemma apply_pre_never:
  assumes "get_fault i s = Some f" and "f_mode f = ''error_500''" and "f_probability f = Some p"
    and "p \<le> 0" and "0 \<le> rnd"
  shows "apply_pre rnd i s = Inr 0"
  using assms by (simp add: apply_pre_def)

lemma apply_pre_corruption:
  "get_fault i s = Some f \<Longrightarrow> f_mode f \<in> {''invalid_token'', ''invalid_signature'', ''expired_token''} \<Longrightarrow>
   apply_pre rnd i s = Inr 0"
  by (auto simp: apply_pre_def)

lemma apply_pre_other_issuer:
  "i \<noteq> j \<Longrightarrow> apply_pre rnd i (set_fault j f s) = apply_pre rnd i s"
  by (simp add: apply_pre_def get_set_fault)

lemma apply_pre_nonneg: "apply_pre rnd i s = Inr ms \<Longrightarrow> 0 \<le> ms"
  by (auto simp: apply_pre_def Let_def split: option.splits if_splits)

end
