(* ===== verification/Webhooks.thy ===== *)
theory Webhooks
  imports Models
begin

text \<open>
  \<open>webhooks.py\<close>: best-effort delivery of an event to the configured hooks. The HTTP client is a
  parameter (\<open>post url body timeout\<close>, with the exception it raised, if any); a delivery is recorded
  in the order it is started, and no failure reaches the caller.
\<close>

record delivery =
  dl_url :: string
  dl_body :: json
  dl_timeout :: rat
  dl_failed :: bool

type_synonym poster = "string \<Rightarrow> json \<Rightarrow> rat \<Rightarrow> string + unit"

definition deliver :: "poster \<Rightarrow> string \<Rightarrow> json \<Rightarrow> rat \<Rightarrow> delivery" where
  "deliver post url body timeout =
     \<lparr>dl_url = url, dl_body = body, dl_timeout = timeout,
      dl_failed = (case post url body timeout of Inl exc \<Rightarrow> True | Inr _ \<Rightarrow> False)\<rparr>"

definition webhook_body :: "string \<Rightarrow> string \<Rightarrow> claims \<Rightarrow> json" where
  "webhook_body event timestamp payload =
     JObj (dict_update [(''event'', JStr event), (''timestamp'', JStr timestamp)] payload)"

definition fire_webhooks ::
  "webhook list \<Rightarrow> poster \<Rightarrow> string \<Rightarrow> string \<Rightarrow> claims \<Rightarrow> delivery list" where
  "fire_webhooks hooks post timestamp event payload =
     (let matching = filter (\<lambda>h. event \<in> set (wh_events h)) hooks in
      if matching = [] then []
      else map (\<lambda>h. deliver post (wh_url h) (webhook_body event timestamp payload)
                             (wh_timeout_seconds h)) matching)"

lemma fire_webhooks_eq:
  "fire_webhooks hooks post ts event payload =
   map (\<lambda>h. deliver post (wh_url h) (webhook_body event ts payload) (wh_timeout_seconds h))
     (filter (\<lambda>h. event \<in> set (wh_events h)) hooks)"
  by (simp add: fire_webhooks_def Let_def)

text \<open>A failing endpoint changes neither what the others receive nor how many deliveries there are.\<close>

lemma fire_webhooks_same_requests:
  "map (\<lambda>d. (dl_url d, dl_body d, dl_timeout d)) (fire_webhooks hooks post ts event payload) =
   map (\<lambda>d. (dl_url d, dl_body d, dl_timeout d)) (fire_webhooks hooks post' ts event payload)"
  by (simp add: fire_webhooks_eq deliver_def)

end
