(* ===== verification/TokenHandler.thy ===== *)
theory TokenHandler
  imports Providers Chaos Webhooks
begin

text \<open>
  \<open>token_handler.py\<close>: the request handlers the flat and the hosted routers share. A handler is a
  program over the \<open>world\<close> (the key state of the resolver, the injected faults, the webhook
  deliveries made, the audit log of the store); an exception leaves the world as it was when raised.
  What a request reads from outside (the clock at each call of \<open>time.time()\<close>, the random draw, the
  libraries, the module configuration) is the record \<open>env\<close>.
\<close>

section \<open>Requests, environment, context, world\<close>

record request =
  rq_form :: "(string \<times> string) list"
  rq_headers :: "(string \<times> string) list"

text \<open>\<open>dict(await request.form())\<close>, and the headers with lower-case names: the last of a name wins.\<close>

definition form_of :: "request \<Rightarrow> form" where
  "form_of rq = dict_of (rq_form rq)"

definition headers_of :: "request \<Rightarrow> headers" where
  "headers_of rq = dict_of (map (\<lambda>(k, v). (py_lower k, v)) (rq_headers rq))"

record env =
  e_lib :: jwt_lib
  e_cfg :: config
  e_random :: rat
  e_check_now :: int      \<comment> \<open>expiry check of a presented token\<close>
  e_auth_now :: int       \<comment> \<open>Cognito's \<open>auth_time\<close>\<close>
  e_build_now :: int      \<comment> \<open>\<open>_common\<close>\<close>
  e_sign_now :: int       \<comment> \<open>the \<open>expired_token\<close> fault\<close>
  e_resp_now :: int       \<comment> \<open>\<open>expires_in\<close> of the response\<close>
  e_timestamp :: string
  e_post :: poster

record ('k, 'a) world =
  w_keys :: 'k
  w_faults :: chaos
  w_posts :: "delivery list"
  w_audit :: 'a

text \<open>\<open>TokenContext\<close>; its key resolver is the four operations of the protocol.\<close>

record ('k, 'a) token_context =
  ctx_iss_base :: string
  ctx_users :: "(string, user_record) dict"
  ctx_service_principals :: "(string, sp_record) dict"
  ctx_clients :: "(string, client_app) dict"
  ctx_mode :: string
  ctx_issuer_modes :: "(string, string) dict"
  ctx_write_token_event :: "claims \<Rightarrow> 'a \<Rightarrow> (py_exn + unit) \<times> 'a"
  ctx_signing_key_for_alg :: "string \<Rightarrow> string \<Rightarrow> 'k \<Rightarrow> jwk \<times> 'k"
  ctx_alt_key_for_alg :: "string \<Rightarrow> string \<Rightarrow> 'k \<Rightarrow> jwk \<times> 'k"
  ctx_jwks_keys :: "string \<Rightarrow> 'k \<Rightarrow> jwk list \<times> 'k"
  ctx_signing_public_key :: "string \<Rightarrow> 'k \<Rightarrow> jwk \<times> 'k"

type_synonym ('k, 'a, 'r) handler = "(exn, ('k, 'a) world, 'r) prog"

text \<open>A call of the key resolver.\<close>

definition keysP :: "('k \<Rightarrow> 'b \<times> 'k) \<Rightarrow> ('k, 'a, 'b) handler" where
  "keysP f = (\<lambda>w. case f (w_keys w) of (x, k) \<Rightarrow> (Inr x, w\<lparr>w_keys := k\<rparr>))"

definition lift_py :: "py_exn + 'a \<Rightarrow> exn + 'a" where
  "lift_py r = (case r of Inl e \<Rightarrow> Inl (PyError e) | Inr x \<Rightarrow> Inr x)"

definition provider_env_of :: "env \<Rightarrow> provider_env" where
  "provider_env_of E =
     \<lparr>pe_iss_base = cf_iss_base (e_cfg E), pe_client_apps = cf_client_apps (e_cfg E),
      pe_now = e_build_now E, pe_auth_now = e_auth_now E\<rparr>"

definition effective_mode :: "('k, 'a) token_context \<Rightarrow> string \<Rightarrow> string" where
  "effective_mode ctx issuer = str_or (dget (ctx_issuer_modes ctx) issuer) (ctx_mode ctx)"

section \<open>Signing, with the token-corruption faults\<close>

definition corrupt_or_sign ::
  "env \<Rightarrow> claims \<Rightarrow> fault option \<Rightarrow> ('k, 'a) token_context \<Rightarrow> string \<Rightarrow> string \<Rightarrow> ('k, 'a, string) handler" where
  "corrupt_or_sign E claims fault ctx alg issuer =
     (let sign_with = (\<lambda>c. bindP (keysP (ctx_signing_key_for_alg ctx issuer alg))
                               (\<lambda>k. retP (sign (e_lib E) c k)))
      in case fault of
           None \<Rightarrow> sign_with claims
         | Some f \<Rightarrow>
             if f_mode f = ''invalid_token'' then retP (make_unsigned_token claims)
             else if f_mode f = ''invalid_signature'' then
               bindP (keysP (ctx_alt_key_for_alg ctx issuer alg)) (\<lambda>k. retP (sign (e_lib E) claims k))
             else if f_mode f = ''expired_token'' then
               sign_with (dset claims ''exp'' (JInt (e_sign_now E +
                 (case f_skew_seconds f of None \<Rightarrow> -3600 | Some n \<Rightarrow> n))))
             else sign_with claims)"

section \<open>The event\<close>

definition emit_event ::
  "env \<Rightarrow> string \<Rightarrow> string \<Rightarrow> string \<Rightarrow> claims \<Rightarrow> ('k, 'a) token_context \<Rightarrow> ('k, 'a) world \<Rightarrow> ('k, 'a) world" where
  "emit_event E event_type issuer grant_type claims ctx w =
     (let payload = [(''issuer'', JStr issuer), (''grant_type'', JStr grant_type), (''claims'', JObj claims)];
          posts = fire_webhooks (cf_webhooks (e_cfg E)) (e_post E) (e_timestamp E) event_type payload;
          (r, audit) = ctx_write_token_event ctx (dset claims ''grant_type'' (JStr grant_type)) (w_audit w)
      in w\<lparr>w_posts := w_posts w @ posts, w_audit := audit\<rparr>)"

definition emitP ::
  "env \<Rightarrow> string \<Rightarrow> string \<Rightarrow> claims \<Rightarrow> ('k, 'a) token_context \<Rightarrow> ('k, 'a, unit) handler" where
  "emitP E issuer grant_type claims ctx =
     (\<lambda>w. (Inr (), emit_event E ''token_issued'' issuer grant_type claims ctx w))"

section \<open>Authentication\<close>

definition authenticate_user :: "('k, 'a) token_context \<Rightarrow> form \<Rightarrow> exn + string \<times> user_record" where
  "authenticate_user ctx form =
     (let user_key = str_or (dget form ''username'') [] in
      case dget (ctx_users ctx) user_key of
        None \<Rightarrow> Inl (http 401 (JStr ''invalid_grant''))
      | Some user \<Rightarrow>
          if dget form ''password'' \<noteq> Some (u_password user)
          then Inl (http 401 (JStr ''invalid_grant'')) else Inr (user_key, user))"

definition authenticate_sp :: "('k, 'a) token_context \<Rightarrow> form \<Rightarrow> exn + string \<times> sp_record" where
  "authenticate_sp ctx form =
     (let sp_key = str_or (dget form ''client_id'') [] in
      case dget (ctx_service_principals ctx) sp_key of
        None \<Rightarrow> Inl (http 401 (JStr ''invalid_client''))
      | Some sp \<Rightarrow>
          if dget form ''client_secret'' \<noteq> Some (sp_secret sp)
          then Inl (http 401 (JStr ''invalid_client'')) else Inr (sp_key, sp))"

text \<open>
  The token a delegation grant presents: present, verified against the issuer's published keys, not
  expired.
\<close>

definition presented_token ::
  "env \<Rightarrow> ('k, 'a) token_context \<Rightarrow> string \<Rightarrow> form \<Rightarrow> string \<Rightarrow> string \<Rightarrow> string \<Rightarrow> ('k, 'a, claims) handler" where
  "presented_token E ctx issuer form field what err =
     (let token_str = py_strip (str_or (dget form field) []) in
      if token_str = [] then throwP (http 400 (oauth_detail ''invalid_request'' (what @ '' required'')))
      else
        bindP (keysP (ctx_jwks_keys ctx issuer)) (\<lambda>ks.
        (case verify_token (e_lib E) token_str ks of
           None \<Rightarrow> throwP (http 400 (oauth_detail err (what @ '' signature invalid'')))
         | Some claims \<Rightarrow>
             bindP (liftP (exp_before claims (e_check_now E))) (\<lambda>expired.
             if expired then throwP (http 400 (oauth_detail err (what @ '' is expired'')))
             else retP claims))))"

section \<open>Claims\<close>

text \<open>
  From the authenticated identity to the claims: the audience check, the shape, the roles, the
  provider. The lifetime and the role override differ between the token endpoint and the fixtures.
\<close>

definition user_token_claims ::
  "env \<Rightarrow> ('k, 'a) token_context \<Rightarrow> string \<Rightarrow> form \<Rightarrow> headers \<Rightarrow> string \<Rightarrow> string \<times> user_record \<Rightarrow>
   int \<Rightarrow> (string list \<Rightarrow> string list) \<Rightarrow> exn + claims" where
  "user_token_claims E ctx issuer form headers aud who expires_in roles_hook =
     (let (user_key, user) = who; apps = cf_client_apps (e_cfg E) in
      bindE (check_audience apps (cf_mode (e_cfg E)) user_key (UserId user) aud
               (effective_mode ctx issuer)) (\<lambda>_.
      let shape = resolve_shape (id_token_version user) form (dget headers ''x-token-shape'');
          roles = roles_hook (resolve_roles apps user_key (UserId user) aud)
      in bindE (lift_py (get_provider (id_provider user))) (\<lambda>p.
         Inr (user_claims p (provider_env_of E) issuer user aud shape expires_in roles
                (dget form ''client_id'')))))"

definition sp_token_claims ::
  "env \<Rightarrow> ('k, 'a) token_context \<Rightarrow> string \<Rightarrow> form \<Rightarrow> headers \<Rightarrow> string \<Rightarrow> string \<times> sp_record \<Rightarrow>
   int \<Rightarrow> (string list \<Rightarrow> string list) \<Rightarrow> exn + claims" where
  "sp_token_claims E ctx issuer form headers aud who expires_in roles_hook =
     (let (sp_key, sp) = who; apps = cf_client_apps (e_cfg E) in
      bindE (check_audience apps (cf_mode (e_cfg E)) sp_key (SpId sp) aud
               (effective_mode ctx issuer)) (\<lambda>_.
      let shape = resolve_shape (id_token_version sp) form (dget headers ''x-token-shape'');
          roles = roles_hook (resolve_roles apps sp_key (SpId sp) aud)
      in bindE (lift_py (get_provider (id_provider sp))) (\<lambda>p.
         Inr (sp_claims p (provider_env_of E) issuer (sp_canonical_id sp) sp aud shape expires_in roles))))"

text \<open>The loop that copies the subject's identity claims over the actor's.\<close>

definition copy_claims :: "string list \<Rightarrow> claims \<Rightarrow> claims \<Rightarrow> claims" where
  "copy_claims names subject claims =
     fold (\<lambda>n c. (case dget subject n of Some v \<Rightarrow> dset c n v | None \<Rightarrow> c)) names claims"

definition exchange_identity :: "string list" where
  "exchange_identity =
     [''sub'', ''oid'', ''tid'', ''upn'', ''preferred_username'', ''unique_name'', ''name'']"

definition obo_identity :: "string list" where
  "obo_identity =
     [''sub'', ''oid'', ''tid'', ''preferred_username'', ''upn'', ''unique_name'', ''name'']"

definition act_claim :: "sp_record \<Rightarrow> json" where
  "act_claim sp = JObj [(''sub'', JStr (sp_canonical_id sp))]"

section \<open>Issuing\<close>

text \<open>The common end of the four grants: omit, sign under the active fault, emit.\<close>

definition issue ::
  "env \<Rightarrow> ('k, 'a) token_context \<Rightarrow> string \<Rightarrow> headers \<Rightarrow> string \<Rightarrow> claims \<Rightarrow> string \<Rightarrow>
   ('k, 'a, string \<times> claims) handler" where
  "issue E ctx issuer headers grant_type claims alg =
     (let claims' = omit claims (dget headers ''x-omit-claims'') in
      bindP (getsP (\<lambda>w. get_fault issuer (w_faults w))) (\<lambda>fault.
      bindP (corrupt_or_sign E claims' fault ctx alg issuer) (\<lambda>token.
      bindP (emitP E issuer grant_type claims' ctx) (\<lambda>_. retP (token, claims')))))"

definition token_response :: "env \<Rightarrow> form \<Rightarrow> string \<times> claims \<Rightarrow> exn + json" where
  "token_response E form tc =
     bindE (seconds_left (snd tc) (e_resp_now E)) (\<lambda>n.
       Inr (JObj [(''access_token'', JStr (fst tc)), (''token_type'', JStr ''Bearer''),
                  (''expires_in'', JInt n),
                  (''scope'', JStr (case dget form ''scope'' of
                                      None \<Rightarrow> ''openid profile email'' | Some s \<Rightarrow> s))]))"

definition exchange_response :: "env \<Rightarrow> string \<times> claims \<Rightarrow> exn + json" where
  "exchange_response E tc =
     bindE (seconds_left (snd tc) (e_resp_now E)) (\<lambda>n.
       Inr (JObj [(''access_token'', JStr (fst tc)),
                  (''issued_token_type'', JStr ''urn:ietf:params:oauth:token-type:access_token''),
                  (''token_type'', JStr ''Bearer''), (''expires_in'', JInt n)]))"

abbreviation grant_exchange :: string where
  "grant_exchange \<equiv> ''urn:ietf:params:oauth:grant-type:token-exchange''"

abbreviation grant_obo :: string where
  "grant_obo \<equiv> ''urn:ietf:params:oauth:grant-type:jwt-bearer''"

section \<open>The token endpoint\<close>

definition password_grant ::
  "env \<Rightarrow> ('k, 'a) token_context \<Rightarrow> string \<Rightarrow> form \<Rightarrow> headers \<Rightarrow> exn + claims \<times> string" where
  "password_grant E ctx issuer form headers =
     bindE (authenticate_user ctx form) (\<lambda>who.
     bindE (user_token_claims E ctx issuer form headers (resolve_aud form) who
              (resolve_expiry (id_token_lifetime_seconds (snd who)) headers)
              (\<lambda>rs. apply_roles_override rs headers)) (\<lambda>claims.
     Inr (claims, id_signing_alg (snd who))))"

definition client_credentials_grant ::
  "env \<Rightarrow> ('k, 'a) token_context \<Rightarrow> string \<Rightarrow> form \<Rightarrow> headers \<Rightarrow> exn + claims \<times> string" where
  "client_credentials_grant E ctx issuer form headers =
     bindE (authenticate_sp ctx form) (\<lambda>who.
     bindE (sp_token_claims E ctx issuer form headers (resolve_aud form) who
              (resolve_expiry (id_token_lifetime_seconds (snd who)) headers)
              (\<lambda>rs. apply_roles_override rs headers)) (\<lambda>claims.
     Inr (if sp_override_any_claim (snd who)
          then apply_overrides claims form (sp_override_iss_too (snd who)) else claims,
          id_signing_alg (snd who))))"

definition token_exchange_grant ::
  "env \<Rightarrow> ('k, 'a) token_context \<Rightarrow> string \<Rightarrow> form \<Rightarrow> headers \<Rightarrow> ('k, 'a, claims \<times> string) handler" where
  "token_exchange_grant E ctx issuer form headers =
     bindP (liftP (authenticate_sp ctx form)) (\<lambda>who.
     bindP (presented_token E ctx issuer form ''subject_token'' ''subject_token'' ''invalid_request'')
       (\<lambda>subject.
     bindP (liftP (sp_token_claims E ctx issuer form headers
                     (str_or (dget form ''audience'') (resolve_aud form)) who
                     (resolve_expiry (id_token_lifetime_seconds (snd who)) headers)
                     (\<lambda>rs. apply_roles_override rs headers))) (\<lambda>claims.
     retP (dset (copy_claims exchange_identity subject claims) ''act'' (act_claim (snd who)),
           id_signing_alg (snd who)))))"

definition jwt_bearer_grant ::
  "env \<Rightarrow> ('k, 'a) token_context \<Rightarrow> string \<Rightarrow> form \<Rightarrow> headers \<Rightarrow> ('k, 'a, claims \<times> string) handler" where
  "jwt_bearer_grant E ctx issuer form headers =
     bindP (liftP (authenticate_sp ctx form)) (\<lambda>who.
     bindP (presented_token E ctx issuer form ''assertion'' ''assertion'' ''invalid_grant'') (\<lambda>subject.
     bindP (liftP (sp_token_claims E ctx issuer form headers (resolve_aud form) who
                     (resolve_expiry (id_token_lifetime_seconds (snd who)) headers)
                     (\<lambda>rs. apply_roles_override rs headers))) (\<lambda>claims.
     retP (dset (copy_claims [''scp''] subject (copy_claims obo_identity subject claims))
             ''act'' (act_claim (snd who)),
           id_signing_alg (snd who)))))"

definition handle_token ::
  "env \<Rightarrow> string \<Rightarrow> request \<Rightarrow> ('k, 'a) token_context \<Rightarrow> ('k, 'a, json) handler" where
  "handle_token E issuer rq ctx =
     (let form = form_of rq; headers = headers_of rq; grant_type = dget form ''grant_type'' in
      bindP (liftP (apply_test_hooks headers)) (\<lambda>_.
      bindP (\<lambda>w. (apply_pre (e_random E) issuer (w_faults w), w)) (\<lambda>_.
      if grant_type = Some ''password'' then
        bindP (liftP (password_grant E ctx issuer form headers)) (\<lambda>(claims, alg).
        bindP (issue E ctx issuer headers ''password'' claims alg) (\<lambda>tc.
        liftP (token_response E form tc)))
      else if grant_type = Some ''client_credentials'' then
        bindP (liftP (client_credentials_grant E ctx issuer form headers)) (\<lambda>(claims, alg).
        bindP (issue E ctx issuer headers ''client_credentials'' claims alg) (\<lambda>tc.
        liftP (token_response E form tc)))
      else if grant_type = Some grant_exchange then
        bindP (token_exchange_grant E ctx issuer form headers) (\<lambda>(claims, alg).
        bindP (issue E ctx issuer headers grant_exchange claims alg) (\<lambda>tc.
        liftP (exchange_response E tc)))
      else if grant_type = Some grant_obo then
        bindP (jwt_bearer_grant E ctx issuer form headers) (\<lambda>(claims, alg).
        bindP (issue E ctx issuer headers grant_obo claims alg) (\<lambda>tc.
        liftP (exchange_response E tc)))
      else throwP (http 400 (JStr ''unsupported_grant_type'')))))"

section \<open>The negative fixtures\<close>

text \<open>Any grant other than \<open>password\<close> is treated as client credentials; lifetime 3600, no hooks.\<close>

definition fixture_claims ::
  "env \<Rightarrow> ('k, 'a) token_context \<Rightarrow> string \<Rightarrow> request \<Rightarrow> exn + claims \<times> string" where
  "fixture_claims E ctx issuer rq =
     (let form = form_of rq; headers = headers_of rq; aud = resolve_aud form in
      if dget form ''grant_type'' = Some ''password'' then
        bindE (authenticate_user ctx form) (\<lambda>who.
        bindE (user_token_claims E ctx issuer form headers aud who 3600 (\<lambda>rs. rs)) (\<lambda>claims.
        Inr (claims, id_signing_alg (snd who))))
      else
        bindE (authenticate_sp ctx form) (\<lambda>who.
        bindE (sp_token_claims E ctx issuer form headers aud who 3600 (\<lambda>rs. rs)) (\<lambda>claims.
        Inr (claims, id_signing_alg (snd who)))))"

definition fixture_response :: "string \<Rightarrow> json" where
  "fixture_response token =
     JObj [(''access_token'', JStr token), (''token_type'', JStr ''Bearer''), (''expires_in'', JInt 3600)]"

definition handle_token_wrong_sig ::
  "env \<Rightarrow> string \<Rightarrow> request \<Rightarrow> ('k, 'a) token_context \<Rightarrow> ('k, 'a, json) handler" where
  "handle_token_wrong_sig E issuer rq ctx =
     bindP (liftP (fixture_claims E ctx issuer rq)) (\<lambda>(claims, alg).
     bindP (keysP (ctx_alt_key_for_alg ctx issuer alg)) (\<lambda>k.
     retP (fixture_response (sign (e_lib E) claims k))))"

definition handle_token_unsigned ::
  "env \<Rightarrow> string \<Rightarrow> request \<Rightarrow> ('k, 'a) token_context \<Rightarrow> ('k, 'a, json) handler" where
  "handle_token_unsigned E issuer rq ctx =
     bindP (liftP (fixture_claims E ctx issuer rq)) (\<lambda>(claims, alg).
     retP (fixture_response (make_unsigned_token claims)))"

definition handle_token_wrong_alg ::
  "env \<Rightarrow> string \<Rightarrow> request \<Rightarrow> ('k, 'a) token_context \<Rightarrow> ('k, 'a, json) handler" where
  "handle_token_wrong_alg E issuer rq ctx =
     bindP (liftP (fixture_claims E ctx issuer rq)) (\<lambda>(claims, alg).
     bindP (keysP (ctx_signing_public_key ctx issuer)) (\<lambda>k.
     retP (fixture_response (make_wrong_alg_token claims (jwk_public_pem (e_lib E) k)))))"

section \<open>Published keys and metadata\<close>

definition handle_jwks ::
  "env \<Rightarrow> string \<Rightarrow> request \<Rightarrow> ('k, 'a) token_context \<Rightarrow> ('k, 'a, json) handler" where
  "handle_jwks E issuer rq ctx =
     bindP (liftP (apply_test_hooks (headers_of rq))) (\<lambda>_.
     bindP (keysP (ctx_jwks_keys ctx issuer)) (\<lambda>ks.
     retP (JObj [(''keys'', JList (map (jwk_public_dict (e_lib E)) ks))])))"

definition handle_discovery :: "string \<Rightarrow> request \<Rightarrow> ('k, 'a) token_context \<Rightarrow> ('k, 'a, json) handler" where
  "handle_discovery issuer rq ctx =
     bindP (liftP (apply_test_hooks (headers_of rq))) (\<lambda>_.
     (let base = ctx_iss_base ctx @ ''/'' @ issuer in
      retP (JObj
        [(''issuer'', JStr base),
         (''authorization_endpoint'', JStr (base @ ''/authorize'')),
         (''token_endpoint'', JStr (base @ ''/token'')),
         (''jwks_uri'', JStr (base @ ''/jwks'')),
         (''userinfo_endpoint'', JStr (base @ ''/userinfo'')),
         (''introspection_endpoint'', JStr (base @ ''/introspect'')),
         (''response_types_supported'', jstrs [''token'', ''id_token'']),
         (''subject_types_supported'', jstrs [''public'']),
         (''id_token_signing_alg_values_supported'', jstrs [''RS256'', ''ES256'']),
         (''scopes_supported'', jstrs [''openid'', ''profile'', ''email'']),
         (''grant_types_supported'',
            jstrs [''client_credentials'', ''password'', grant_exchange, grant_obo]),
         (''introspection_endpoint_auth_methods_supported'', jstrs [''client_secret_post''])])))"

section \<open>Introspection and userinfo\<close>

definition introspect_pass_through :: "string set" where
  "introspect_pass_through =
     {''sub'', ''iss'', ''aud'', ''exp'', ''iat'', ''nbf'', ''jti'', ''scope'',
      ''azp'', ''preferred_username'', ''name'', ''upn'', ''roles'', ''groups'',
      ''scp'', ''tid'', ''appid'', ''ver''}"

definition inactive :: json where
  "inactive = JObj [(''active'', JBool False)]"

definition introspection_response :: "claims \<Rightarrow> claims" where
  "introspection_response claims =
     (let response = fold (\<lambda>(claim, value) r.
             (if claim \<in> introspect_pass_through then dset r claim value else r)) claims
             [(''active'', JBool True), (''token_type'', JStr ''Bearer'')]
      in case dget claims ''azp'' of
           Some azp \<Rightarrow> if \<not> dhas response ''client_id'' then dset response ''client_id'' azp else response
         | None \<Rightarrow> response)"

definition aud_list :: "claims \<Rightarrow> json list" where
  "aud_list claims =
     (case dget claims ''aud'' of
        None \<Rightarrow> []
      | Some (JList xs) \<Rightarrow> xs
      | Some a \<Rightarrow> if truthy a then [a] else [])"

definition authenticate_caller :: "('k, 'a) token_context \<Rightarrow> form \<Rightarrow> exn + string" where
  "authenticate_caller ctx form =
     (let caller_id = str_or (dget form ''client_id'') [];
          caller_secret = str_or (dget form ''client_secret'') [];
          denied = Inl (http 401 (oauth_detail ''invalid_client'' ''invalid client credentials''))
      in case dget (ctx_service_principals ctx) caller_id of
           None \<Rightarrow> denied
         | Some sp \<Rightarrow> if sp_secret sp \<noteq> caller_secret then denied else Inr caller_id)"

definition handle_introspect ::
  "env \<Rightarrow> string \<Rightarrow> request \<Rightarrow> ('k, 'a) token_context \<Rightarrow> ('k, 'a, json) handler" where
  "handle_introspect E issuer rq ctx =
     (let form = form_of rq in
      bindP (liftP (authenticate_caller ctx form)) (\<lambda>caller_id.
      (let token_str = py_strip (str_or (dget form ''token'') []) in
       if token_str = []
       then throwP (http 400 (oauth_detail ''invalid_request'' ''token parameter required''))
       else
         bindP (keysP (ctx_jwks_keys ctx issuer)) (\<lambda>ks.
         (case verify_token (e_lib E) token_str ks of
            None \<Rightarrow> retP inactive
          | Some claims \<Rightarrow>
              bindP (liftP (exp_before claims (e_check_now E))) (\<lambda>expired.
              if expired then retP inactive
              else if dhas (ctx_clients ctx) caller_id \<and> JStr caller_id \<notin> set (aud_list claims)
              then retP inactive
              else retP (JObj (introspection_response claims))))))))"

definition handle_userinfo ::
  "env \<Rightarrow> string \<Rightarrow> string \<Rightarrow> ('k, 'a) token_context \<Rightarrow> ('k, 'a, json) handler" where
  "handle_userinfo E issuer authorization ctx =
     (if \<not> prefix ''Bearer '' authorization then throwP (http 401 (JStr ''missing bearer token''))
      else
        bindP (keysP (ctx_jwks_keys ctx issuer)) (\<lambda>ks.
        (case verify_token (e_lib E) (drop 7 authorization) ks of
           None \<Rightarrow> throwP (http 401 (JStr ''invalid token''))
         | Some claims \<Rightarrow> retP (JObj claims))))"

end
