(* ===== verification/Issuance.thy ===== *)
theory Issuance
  imports TokenHandler
begin

text \<open>
  The lemma base of the handlers: signing and issuing in closed form, the four grants under one
  name, the inversion of a run of the token endpoint that returned, and the frame of one that
  raised. The properties of the token endpoint are a few steps over these.
\<close>

section \<open>The token a run hands out\<close>

definition issued_token ::
  "env \<Rightarrow> claims \<Rightarrow> fault option \<Rightarrow> ('k, 'a) token_context \<Rightarrow> string \<Rightarrow> string \<Rightarrow> 'k \<Rightarrow> string \<times> 'k" where
  "issued_token E c fault ctx alg issuer k =
     (let signed = (\<lambda>c. map_prod (sign (e_lib E) c) id (ctx_signing_key_for_alg ctx issuer alg k)) in
      case fault of
        None \<Rightarrow> signed c
      | Some f \<Rightarrow>
          if f_mode f = ''invalid_token'' then (make_unsigned_token c, k)
          else if f_mode f = ''invalid_signature''
          then map_prod (sign (e_lib E) c) id (ctx_alt_key_for_alg ctx issuer alg k)
          else if f_mode f = ''expired_token''
          then signed (dset c ''exp'' (JInt (e_sign_now E +
                 (case f_skew_seconds f of None \<Rightarrow> -3600 | Some n \<Rightarrow> n))))
          else signed c)"

lemma keysP_apply: "keysP f w = (Inr (fst (f (w_keys w))), w\<lparr>w_keys := snd (f (w_keys w))\<rparr>)"
  by (simp add: keysP_def split: prod.split)

lemma corrupt_or_sign_eq:
  "corrupt_or_sign E c fault ctx alg issuer = keysP (issued_token E c fault ctx alg issuer)"
  by (auto simp: corrupt_or_sign_def issued_token_def fun_eq_iff bindP_apply keysP_apply Let_def
      split: option.split)

lemma issue_eq:
  "issue E ctx issuer headers g c alg w =
     (let c' = omit c (dget headers ''x-omit-claims'');
          t = issued_token E c' (get_fault issuer (w_faults w)) ctx alg issuer (w_keys w)
      in (Inr (fst t, c'), emit_event E ''token_issued'' issuer g c' ctx (w\<lparr>w_keys := snd t\<rparr>)))"
  by (simp add: issue_def corrupt_or_sign_eq bindP_apply keysP_apply emitP_def Let_def)

text \<open>What an event changes.\<close>

lemma emit_event_simps [simp]:
  "w_keys (emit_event E ev i g c ctx w) = w_keys w"
  "w_faults (emit_event E ev i g c ctx w) = w_faults w"
  "w_audit (emit_event E ev i g c ctx w) =
     snd (ctx_write_token_event ctx (dset c ''grant_type'' (JStr g)) (w_audit w))"
  "w_posts (emit_event E ev i g c ctx w) = w_posts w @
     fire_webhooks (cf_webhooks (e_cfg E)) (e_post E) (e_timestamp E) ev
       [(''issuer'', JStr i), (''grant_type'', JStr g), (''claims'', JObj c)]"
  by (auto simp: emit_event_def Let_def split: prod.split)

section \<open>The four grants\<close>

definition supported_grants :: "string set" where
  "supported_grants = {''password'', ''client_credentials'', grant_exchange, grant_obo}"

definition grant_claims ::
  "env \<Rightarrow> ('k, 'a) token_context \<Rightarrow> string \<Rightarrow> form \<Rightarrow> headers \<Rightarrow> string \<Rightarrow> ('k, 'a, claims \<times> string) handler" where
  "grant_claims E ctx issuer form headers g =
     (if g = ''password'' then liftP (password_grant E ctx issuer form headers)
      else if g = ''client_credentials'' then liftP (client_credentials_grant E ctx issuer form headers)
      else if g = grant_exchange then token_exchange_grant E ctx issuer form headers
      else if g = grant_obo then jwt_bearer_grant E ctx issuer form headers
      else throwP (http 400 (JStr ''unsupported_grant_type'')))"

definition grant_response :: "env \<Rightarrow> form \<Rightarrow> string \<Rightarrow> string \<times> claims \<Rightarrow> exn + json" where
  "grant_response E form g tc =
     (if g \<in> {''password'', ''client_credentials''} then token_response E form tc
      else exchange_response E tc)"

lemma handle_token_eq:
  "handle_token E issuer rq ctx =
     bindP (liftP (apply_test_hooks (headers_of rq))) (\<lambda>_.
     bindP (\<lambda>w. (apply_pre (e_random E) issuer (w_faults w), w)) (\<lambda>_.
     case dget (form_of rq) ''grant_type'' of
       None \<Rightarrow> throwP (http 400 (JStr ''unsupported_grant_type''))
     | Some g \<Rightarrow>
         bindP (grant_claims E ctx issuer (form_of rq) (headers_of rq) g) (\<lambda>(claims, alg).
         bindP (issue E ctx issuer (headers_of rq) g claims alg) (\<lambda>tc.
         liftP (grant_response E (form_of rq) g tc)))))"
  by (auto simp: handle_token_def grant_claims_def grant_response_def Let_def fun_eq_iff
      split: option.split)

text \<open>Up to the issuing, a run touches the key state only.\<close>

definition keys_only :: "('k, 'a) world \<Rightarrow> ('k, 'a) world \<Rightarrow> bool" where
  "keys_only w w' = (w' = w\<lparr>w_keys := w_keys w'\<rparr>)"

lemma keys_only_refl [simp]: "keys_only w w"
  by (simp add: keys_only_def)

lemma keys_only_frame:
  "keys_only w w' \<Longrightarrow> w_faults w' = w_faults w \<and> w_posts w' = w_posts w \<and> w_audit w' = w_audit w"
  unfolding keys_only_def by (metis world.select_convs(2-4) world.surjective world.update_convs(1))

lemma presented_token_cases:
  assumes "presented_token E ctx issuer form field what err w = (r, w')"
  obtains (missing) "py_strip (str_or (dget form field) []) = []" "w' = w" "\<exists>e. r = Inl e"
  | (looked) ks k where "ctx_jwks_keys ctx issuer (w_keys w) = (ks, k)" "w' = w\<lparr>w_keys := k\<rparr>"
      "\<And>claims. r = Inr claims \<Longrightarrow>
         verify_token (e_lib E) (py_strip (str_or (dget form field) [])) ks = Some claims \<and>
         exp_before claims (e_check_now E) = Inr False"
proof (cases "py_strip (str_or (dget form field) []) = []")
  case True
  with assms missing show ?thesis by (auto simp: presented_token_def)
next
  case False
  let ?tok = "py_strip (str_or (dget form field) [])"
  obtain ks k where ks: "ctx_jwks_keys ctx issuer (w_keys w) = (ks, k)"
    by (cases "ctx_jwks_keys ctx issuer (w_keys w)")
  have "w' = w\<lparr>w_keys := k\<rparr> \<and>
      (\<forall>claims. r = Inr claims \<longrightarrow>
         verify_token (e_lib E) ?tok ks = Some claims \<and> exp_before claims (e_check_now E) = Inr False)"
  proof (cases "verify_token (e_lib E) ?tok ks")
    case None
    with assms False ks show ?thesis
      by (auto simp: presented_token_def bindP_apply keysP_apply Let_def)
  next
    case (Some c)
    with assms False ks show ?thesis
      by (cases "exp_before c (e_check_now E)")
        (auto simp: presented_token_def bindP_apply keysP_apply Let_def split: if_splits)
  qed
  with ks looked show ?thesis by blast
qed

lemma presented_token_keys_only:
  "presented_token E ctx issuer form field what err w = (r, w') \<Longrightarrow> keys_only w w'"
  by (erule presented_token_cases) (simp_all add: keys_only_def)

lemma grant_claims_keys_only:
  assumes "grant_claims E ctx issuer form headers g w = (r, w')"
  shows "keys_only w w'"
proof -
  have "keys_only w w'"
    if "token_exchange_grant E ctx issuer form headers w = (r, w') \<or>
        jwt_bearer_grant E ctx issuer form headers w = (r, w')"
    using that
    by (auto simp: token_exchange_grant_def jwt_bearer_grant_def bindP_apply
        split: prod.splits sum.splits dest: presented_token_keys_only)
  with assms show ?thesis by (auto simp: grant_claims_def split: if_splits)
qed

lemma grant_claims_supported:
  "grant_claims E ctx issuer form headers g w = (Inr x, w') \<Longrightarrow> g \<in> supported_grants"
  by (auto simp: grant_claims_def supported_grants_def split: if_splits)

section \<open>Inversion\<close>

text \<open>Everything a run that returned went through.\<close>

lemma handle_token_InrE:
  assumes "handle_token E issuer rq ctx w = (Inr r, w')"
  obtains g claims alg w1 where
    "dget (form_of rq) ''grant_type'' = Some g" and "g \<in> supported_grants"
    and "grant_claims E ctx issuer (form_of rq) (headers_of rq) g w = (Inr (claims, alg), w1)"
    and "keys_only w w1"
    and "(\<exists>ms. apply_test_hooks (headers_of rq) = Inr ms) \<and>
         (\<exists>ms. apply_pre (e_random E) issuer (w_faults w) = Inr ms)"
    and "let c = omit claims (dget (headers_of rq) ''x-omit-claims'');
             t = issued_token E c (get_fault issuer (w_faults w)) ctx alg issuer (w_keys w1)
         in grant_response E (form_of rq) g (fst t, c) = Inr r \<and>
            w' = emit_event E ''token_issued'' issuer g c ctx (w1\<lparr>w_keys := snd t\<rparr>)"
proof -
  from assms obtain ms where ms: "apply_test_hooks (headers_of rq) = Inr ms"
    unfolding handle_token_eq by (cases "apply_test_hooks (headers_of rq)") auto
  with assms obtain ms' where ms': "apply_pre (e_random E) issuer (w_faults w) = Inr ms'"
    unfolding handle_token_eq
    by (cases "apply_pre (e_random E) issuer (w_faults w)") (auto simp: bindP_apply)
  from assms ms ms' obtain g where g: "dget (form_of rq) ''grant_type'' = Some g"
    unfolding handle_token_eq by (cases "dget (form_of rq) ''grant_type''") (auto simp: bindP_apply)
  from assms ms ms' g have
    "bindP (grant_claims E ctx issuer (form_of rq) (headers_of rq) g) (\<lambda>(claims, alg).
     bindP (issue E ctx issuer (headers_of rq) g claims alg) (\<lambda>tc.
     liftP (grant_response E (form_of rq) g tc))) w = (Inr r, w')"
    unfolding handle_token_eq by (simp add: bindP_apply)
  then obtain claims alg w1 where
    c: "grant_claims E ctx issuer (form_of rq) (headers_of rq) g w = (Inr (claims, alg), w1)"
    and i: "bindP (issue E ctx issuer (headers_of rq) g claims alg) (\<lambda>tc.
            liftP (grant_response E (form_of rq) g tc)) w1 = (Inr r, w')"
    by (rule bindP_InrE) auto
  have k: "keys_only w w1" by (rule grant_claims_keys_only [OF c])
  show ?thesis
    by (rule that [OF g grant_claims_supported [OF c] c k])
      (use ms ms' i keys_only_frame [OF k] in \<open>simp_all add: bindP_apply issue_eq Let_def\<close>)
qed

text \<open>
  A run that raised an \<open>HTTPException\<close> changed nothing but the key state (a missing key bundle may
  have been created).
\<close>

lemma seconds_left_Inl: "seconds_left c now = Inl e \<Longrightarrow> \<exists>p. e = PyError p"
  by (auto simp: seconds_left_def split: option.splits)

lemma grant_response_Inl: "grant_response E form g tc = Inl e \<Longrightarrow> \<exists>p. e = PyError p"
  by (auto simp: grant_response_def token_response_def exchange_response_def bindE_eq_Inl
      dest: seconds_left_Inl split: if_splits)

lemma handle_token_http_error:
  assumes "handle_token E issuer rq ctx w = (Inl (HTTPException st d hs), w')"
  shows "keys_only w w'"
proof (cases "\<exists>ms ms' g. apply_test_hooks (headers_of rq) = Inr ms \<and>
    apply_pre (e_random E) issuer (w_faults w) = Inr ms' \<and> dget (form_of rq) ''grant_type'' = Some g")
  case False
  with assms show ?thesis
    unfolding handle_token_eq
    by (cases "apply_test_hooks (headers_of rq)"; cases "apply_pre (e_random E) issuer (w_faults w)";
        cases "dget (form_of rq) ''grant_type''") (auto simp: bindP_apply)
next
  case True
  then obtain g where "bindP (grant_claims E ctx issuer (form_of rq) (headers_of rq) g) (\<lambda>(claims, alg).
     bindP (issue E ctx issuer (headers_of rq) g claims alg) (\<lambda>tc.
     liftP (grant_response E (form_of rq) g tc))) w = (Inl (HTTPException st d hs), w')"
    using assms unfolding handle_token_eq by (auto simp: bindP_apply)
  then show ?thesis
    by (auto simp: bindP_apply issue_eq Let_def split: prod.splits sum.splits
        dest: grant_claims_keys_only grant_response_Inl)
qed

section \<open>Authentication\<close>

definition user_presents :: "('k, 'a) token_context \<Rightarrow> form \<Rightarrow> string \<Rightarrow> user_record \<Rightarrow> bool" where
  "user_presents ctx form key u =
     (key = str_or (dget form ''username'') [] \<and> dget (ctx_users ctx) key = Some u \<and>
      dget form ''password'' = Some (u_password u))"

definition sp_presents :: "('k, 'a) token_context \<Rightarrow> form \<Rightarrow> string \<Rightarrow> sp_record \<Rightarrow> bool" where
  "sp_presents ctx form key sp =
     (key = str_or (dget form ''client_id'') [] \<and> dget (ctx_service_principals ctx) key = Some sp \<and>
      dget form ''client_secret'' = Some (sp_secret sp))"

lemma authenticate_user_ok: "authenticate_user ctx form = Inr (key, u) \<longleftrightarrow> user_presents ctx form key u"
  by (auto simp: authenticate_user_def user_presents_def Let_def split: option.splits)

lemma authenticate_sp_ok: "authenticate_sp ctx form = Inr (key, sp) \<longleftrightarrow> sp_presents ctx form key sp"
  by (auto simp: authenticate_sp_def sp_presents_def Let_def split: option.splits)

lemma authenticate_user_error: "authenticate_user ctx form = Inl e \<Longrightarrow> e = http 401 (JStr ''invalid_grant'')"
  by (auto simp: authenticate_user_def Let_def split: option.splits if_splits)

lemma authenticate_sp_error: "authenticate_sp ctx form = Inl e \<Longrightarrow> e = http 401 (JStr ''invalid_client'')"
  by (auto simp: authenticate_sp_def Let_def split: option.splits if_splits)

section \<open>Where the claims come from\<close>

definition requested_audience :: "string \<Rightarrow> form \<Rightarrow> string" where
  "requested_audience g form =
     (if g = grant_exchange then str_or (dget form ''audience'') (resolve_aud form)
      else resolve_aud form)"

text \<open>The claims the provider builds for a user and for a principal at the token endpoint.\<close>

definition user_base ::
  "env \<Rightarrow> string \<Rightarrow> form \<Rightarrow> headers \<Rightarrow> string \<Rightarrow> user_record \<Rightarrow> provider \<Rightarrow> claims" where
  "user_base E issuer form headers key u p =
     user_claims p (provider_env_of E) issuer u (resolve_aud form)
       (resolve_shape (id_token_version u) form (dget headers ''x-token-shape''))
       (resolve_expiry (id_token_lifetime_seconds u) headers)
       (apply_roles_override
          (resolve_roles (cf_client_apps (e_cfg E)) key (UserId u) (resolve_aud form)) headers)
       (dget form ''client_id'')"

definition sp_base ::
  "env \<Rightarrow> string \<Rightarrow> form \<Rightarrow> headers \<Rightarrow> string \<Rightarrow> string \<Rightarrow> sp_record \<Rightarrow> provider \<Rightarrow> claims" where
  "sp_base E issuer form headers aud key sp p =
     sp_claims p (provider_env_of E) issuer (sp_canonical_id sp) sp aud
       (resolve_shape (id_token_version sp) form (dget headers ''x-token-shape''))
       (resolve_expiry (id_token_lifetime_seconds sp) headers)
       (apply_roles_override (resolve_roles (cf_client_apps (e_cfg E)) key (SpId sp) aud) headers)"

definition audience_passed ::
  "env \<Rightarrow> ('k, 'a) token_context \<Rightarrow> string \<Rightarrow> string \<Rightarrow> identity \<Rightarrow> string \<Rightarrow> bool" where
  "audience_passed E ctx issuer key identity aud =
     (\<not> strict_mode (cf_mode (e_cfg E)) (effective_mode ctx issuer) \<or> overrides_any_claim identity \<or>
      audience_allowed (cf_client_apps (e_cfg E)) key identity aud)"

lemma lift_py_Inr: "lift_py r = Inr x \<longleftrightarrow> r = Inr x"
  by (simp add: lift_py_def split: sum.split)

lemma user_token_claims_ok:
  "user_token_claims E ctx issuer form headers aud (key, u) n hook = Inr c \<longleftrightarrow>
   audience_passed E ctx issuer key (UserId u) aud \<and>
   (\<exists>p. get_provider (id_provider u) = Inr p \<and>
        c = user_claims p (provider_env_of E) issuer u aud
              (resolve_shape (id_token_version u) form (dget headers ''x-token-shape'')) n
              (hook (resolve_roles (cf_client_apps (e_cfg E)) key (UserId u) aud))
              (dget form ''client_id''))"
  by (auto simp: user_token_claims_def bindE_eq_Inr lift_py_Inr check_audience_ok audience_passed_def
      Let_def)

lemma sp_token_claims_ok:
  "sp_token_claims E ctx issuer form headers aud (key, sp) n hook = Inr c \<longleftrightarrow>
   audience_passed E ctx issuer key (SpId sp) aud \<and>
   (\<exists>p. get_provider (id_provider sp) = Inr p \<and>
        c = sp_claims p (provider_env_of E) issuer (sp_canonical_id sp) sp aud
              (resolve_shape (id_token_version sp) form (dget headers ''x-token-shape'')) n
              (hook (resolve_roles (cf_client_apps (e_cfg E)) key (SpId sp) aud)))"
  by (auto simp: sp_token_claims_def bindE_eq_Inr lift_py_Inr check_audience_ok audience_passed_def
      Let_def)

lemma password_grant_ok:
  "password_grant E ctx issuer form headers = Inr (c, alg) \<longleftrightarrow>
   (\<exists>key u p. user_presents ctx form key u \<and>
      audience_passed E ctx issuer key (UserId u) (resolve_aud form) \<and>
      get_provider (id_provider u) = Inr p \<and> c = user_base E issuer form headers key u p \<and>
      alg = id_signing_alg u)"
  by (auto simp: password_grant_def bindE_eq_Inr authenticate_user_ok user_token_claims_ok user_base_def)

text \<open>The form's overrides, for a principal that may override.\<close>

definition privileged_claims :: "form \<Rightarrow> sp_record \<Rightarrow> claims \<Rightarrow> claims" where
  "privileged_claims form sp base =
     (if sp_override_any_claim sp then apply_overrides base form (sp_override_iss_too sp) else base)"

lemma client_credentials_grant_ok:
  "client_credentials_grant E ctx issuer form headers = Inr (c, alg) \<longleftrightarrow>
   (\<exists>key sp p. sp_presents ctx form key sp \<and>
      audience_passed E ctx issuer key (SpId sp) (resolve_aud form) \<and>
      get_provider (id_provider sp) = Inr p \<and> alg = id_signing_alg sp \<and>
      c = privileged_claims form sp (sp_base E issuer form headers (resolve_aud form) key sp p))"
  unfolding client_credentials_grant_def privileged_claims_def [symmetric] sp_base_def
  by (auto simp: bindE_eq_Inr authenticate_sp_ok sp_token_claims_ok)

text \<open>
  The claims of a delegated token: the principal's, with the subject's identity copied over and the
  principal as the actor.
\<close>

definition delegated_claims :: "string \<Rightarrow> sp_record \<Rightarrow> claims \<Rightarrow> claims \<Rightarrow> claims" where
  "delegated_claims g sp subject base =
     dset (if g = grant_exchange then copy_claims exchange_identity subject base
           else copy_claims [''scp''] subject (copy_claims obo_identity subject base))
       ''act'' (act_claim sp)"

definition presented_field :: "string \<Rightarrow> string" where
  "presented_field g = (if g = grant_exchange then ''subject_token'' else ''assertion'')"

definition presented_error :: "string \<Rightarrow> string" where
  "presented_error g = (if g = grant_exchange then ''invalid_request'' else ''invalid_grant'')"

lemma delegation_grant_eq:
  "g \<in> {grant_exchange, grant_obo} \<Longrightarrow> grant_claims E ctx issuer form headers g =
   bindP (liftP (authenticate_sp ctx form)) (\<lambda>who.
   bindP (presented_token E ctx issuer form (presented_field g) (presented_field g) (presented_error g)) (\<lambda>subject.
   bindP (liftP (sp_token_claims E ctx issuer form headers (requested_audience g form) who
                   (resolve_expiry (id_token_lifetime_seconds (snd who)) headers)
                   (\<lambda>rs. apply_roles_override rs headers))) (\<lambda>claims.
   retP (delegated_claims g (snd who) subject claims, id_signing_alg (snd who)))))"
  by (auto simp: grant_claims_def token_exchange_grant_def jwt_bearer_grant_def presented_error_def
      delegated_claims_def requested_audience_def presented_field_def fun_eq_iff)

lemma delegation_grant_InrE:
  assumes "grant_claims E ctx issuer form headers g w = (Inr (c, alg), w')"
    and "g \<in> {grant_exchange, grant_obo}"
  obtains key sp p subject ks where "sp_presents ctx form key sp"
    and "audience_passed E ctx issuer key (SpId sp) (requested_audience g form)"
    and "get_provider (id_provider sp) = Inr p" and "alg = id_signing_alg sp"
    and "ctx_jwks_keys ctx issuer (w_keys w) = (ks, w_keys w')"
    and "verify_token (e_lib E) (py_strip (str_or (dget form (presented_field g)) [])) ks = Some subject"
    and "exp_before subject (e_check_now E) = Inr False"
    and "c = delegated_claims g sp subject
               (sp_base E issuer form headers (requested_audience g form) key sp p)"
proof -
  note run = assms(1) [unfolded delegation_grant_eq [OF assms(2)]]
  from run obtain key sp w0 where sp: "authenticate_sp ctx form = Inr (key, sp)" "w0 = w"
    and run: "bindP (presented_token E ctx issuer form (presented_field g) (presented_field g) (presented_error g)) (\<lambda>subject.
     bindP (liftP (sp_token_claims E ctx issuer form headers (requested_audience g form) (key, sp)
                     (resolve_expiry (id_token_lifetime_seconds sp) headers)
                     (\<lambda>rs. apply_roles_override rs headers))) (\<lambda>claims.
     retP (delegated_claims g sp subject claims, id_signing_alg sp))) w0
     = (Inr (c, alg), w')"
    by (rule bindP_InrE) auto
  from run obtain subject w1 where
    pt: "presented_token E ctx issuer form (presented_field g) (presented_field g) (presented_error g) w = (Inr subject, w1)"
    and run: "bindP (liftP (sp_token_claims E ctx issuer form headers (requested_audience g form) (key, sp)
                     (resolve_expiry (id_token_lifetime_seconds sp) headers)
                     (\<lambda>rs. apply_roles_override rs headers))) (\<lambda>claims.
     retP (delegated_claims g sp subject claims, id_signing_alg sp)) w1
     = (Inr (c, alg), w')" unfolding sp(2) by (rule bindP_InrE)
  from run obtain base where base: "sp_token_claims E ctx issuer form headers (requested_audience g form)
      (key, sp) (resolve_expiry (id_token_lifetime_seconds sp) headers)
      (\<lambda>rs. apply_roles_override rs headers) = Inr base"
    and res: "c = delegated_claims g sp subject base" "alg = id_signing_alg sp" "w' = w1"
    by (rule bindP_InrE) auto
  from pt show ?thesis
  proof (cases rule: presented_token_cases)
    case (looked ks k)
    from base obtain p where "get_provider (id_provider sp) = Inr p"
      "audience_passed E ctx issuer key (SpId sp) (requested_audience g form)"
      "base = sp_base E issuer form headers (requested_audience g form) key sp p"
      by (auto simp: sp_token_claims_ok sp_base_def)
    with that [OF sp(1) [unfolded authenticate_sp_ok]] looked res show ?thesis by simp
  qed simp
qed

text \<open>Lookups in the claims of a delegated token.\<close>

lemma dget_copy_claims:
  "dget (copy_claims names subject c) k =
     (if k \<in> set names \<and> dget subject k \<noteq> None then dget subject k else dget c k)"
  by (induction names arbitrary: c) (auto simp: copy_claims_def split: option.split)

lemma claims_ok_copy [simp]:
  "claims_ok c \<Longrightarrow> claims_ok subject \<Longrightarrow> claims_ok (copy_claims names subject c)"
  unfolding copy_claims_def
  by (induction names arbitrary: c) (auto split: option.split dest: claims_ok_get)

lemma dget_delegated:
  "dget (delegated_claims g sp subject base) k =
     (if k = ''act'' then Some (act_claim sp)
      else if (k \<in> set exchange_identity \<or> g \<noteq> grant_exchange \<and> k = ''scp'') \<and> dget subject k \<noteq> None
      then dget subject k else dget base k)"
  by (auto simp: delegated_claims_def dget_copy_claims exchange_identity_def obo_identity_def)

lemma claims_ok_delegated [simp]:
  "claims_ok base \<Longrightarrow> claims_ok subject \<Longrightarrow> claims_ok (delegated_claims g sp subject base)"
  by (simp add: delegated_claims_def act_claim_def)

end
