(* ===== verification/Oidc.thy ===== *)
theory Oidc
  imports Issuance
begin

text \<open>
  \<open>routers/oidc.py\<close>: the flat router. Its context serves the module configuration and the global
  key store; every route delegates to the shared handlers. The audit log is the store's: a no-op
  for the YAML backend. The rate-limit decorator is a third-party limiter that either answers 429
  before the handler or calls it, and is not modelled.
\<close>

definition yaml_write_token_event :: "claims \<Rightarrow> 'a \<Rightarrow> (py_exn + unit) \<times> 'a" where
  "yaml_write_token_event event s = (Inr (), s)"

definition flat_context ::
  "config \<Rightarrow> (claims \<Rightarrow> 'a \<Rightarrow> (py_exn + unit) \<times> 'a) \<Rightarrow> (key_store, 'a) token_context" where
  "flat_context cf wr =
     \<lparr>ctx_iss_base = cf_iss_base cf, ctx_users = cf_users cf,
      ctx_service_principals = cf_service_principals cf, ctx_clients = cf_client_apps cf,
      ctx_mode = cf_mode cf, ctx_issuer_modes = cf_issuer_modes cf, ctx_write_token_event = wr,
      ctx_signing_key_for_alg = get_signing_key_for_alg, ctx_alt_key_for_alg = get_alt_key_for_alg,
      ctx_jwks_keys = get_jwks_keys, ctx_signing_public_key = get_signing_public_key\<rparr>"

type_synonym 'a flat_world = "(key_store, 'a) world"
type_synonym ('a, 'r) flat_handler = "(key_store, 'a, 'r) handler"
type_synonym 'a event_writer = "claims \<Rightarrow> 'a \<Rightarrow> (py_exn + unit) \<times> 'a"

definition healthz :: "bool \<Rightarrow> string \<Rightarrow> json" where
  "healthz rl_enabled rl_limit =
     (let response = [(''status'', JStr ''ok'')] in
      JObj (if rl_enabled
            then dset response ''rate_limit''
                   (JObj [(''enabled'', JBool True), (''limit'', JStr rl_limit)])
            else response))"

definition discovery :: "env \<Rightarrow> 'a event_writer \<Rightarrow> string \<Rightarrow> request \<Rightarrow> ('a, json) flat_handler" where
  "discovery E wr issuer rq = handle_discovery issuer rq (flat_context (e_cfg E) wr)"

definition jwks_route :: "env \<Rightarrow> 'a event_writer \<Rightarrow> string \<Rightarrow> request \<Rightarrow> ('a, json) flat_handler" where
  "jwks_route E wr issuer rq = handle_jwks E issuer rq (flat_context (e_cfg E) wr)"

definition token :: "env \<Rightarrow> 'a event_writer \<Rightarrow> string \<Rightarrow> request \<Rightarrow> ('a, json) flat_handler" where
  "token E wr issuer rq = handle_token E issuer rq (flat_context (e_cfg E) wr)"

definition token_wrong_sig :: "env \<Rightarrow> 'a event_writer \<Rightarrow> string \<Rightarrow> request \<Rightarrow> ('a, json) flat_handler" where
  "token_wrong_sig E wr issuer rq = handle_token_wrong_sig E issuer rq (flat_context (e_cfg E) wr)"

definition token_unsigned :: "env \<Rightarrow> 'a event_writer \<Rightarrow> string \<Rightarrow> request \<Rightarrow> ('a, json) flat_handler" where
  "token_unsigned E wr issuer rq = handle_token_unsigned E issuer rq (flat_context (e_cfg E) wr)"

definition token_wrong_alg :: "env \<Rightarrow> 'a event_writer \<Rightarrow> string \<Rightarrow> request \<Rightarrow> ('a, json) flat_handler" where
  "token_wrong_alg E wr issuer rq = handle_token_wrong_alg E issuer rq (flat_context (e_cfg E) wr)"

definition token_malformed :: json where
  "token_malformed =
     JObj [(''access_token'',
            JStr (''eyJhbGciOiJSUzI1NiJ9'' @ ''.this-is-not-base64-or-json'' @ ''.signature-bytes-garbage''))]"

definition introspect :: "env \<Rightarrow> 'a event_writer \<Rightarrow> string \<Rightarrow> request \<Rightarrow> ('a, json) flat_handler" where
  "introspect E wr issuer rq = handle_introspect E issuer rq (flat_context (e_cfg E) wr)"

definition userinfo :: "env \<Rightarrow> 'a event_writer \<Rightarrow> string \<Rightarrow> string \<Rightarrow> ('a, json) flat_handler" where
  "userinfo E wr issuer authorization = handle_userinfo E issuer authorization (flat_context (e_cfg E) wr)"

lemma flat_context_keys [simp]:
  "ctx_signing_key_for_alg (flat_context cf wr) = get_signing_key_for_alg"
  "ctx_alt_key_for_alg (flat_context cf wr) = get_alt_key_for_alg"
  "ctx_jwks_keys (flat_context cf wr) = get_jwks_keys"
  "ctx_signing_public_key (flat_context cf wr) = get_signing_public_key"
  "ctx_write_token_event (flat_context cf wr) = wr"
  by (simp_all add: flat_context_def)

lemma flat_context_data [simp]:
  "ctx_users (flat_context cf wr) = cf_users cf"
  "ctx_service_principals (flat_context cf wr) = cf_service_principals cf"
  "ctx_clients (flat_context cf wr) = cf_client_apps cf"
  "ctx_mode (flat_context cf wr) = cf_mode cf"
  "ctx_issuer_modes (flat_context cf wr) = cf_issuer_modes cf"
  "ctx_iss_base (flat_context cf wr) = cf_iss_base cf"
  by (simp_all add: flat_context_def)

end
