(* ===== verification/TokenEndpoint.thy ===== *)
theory TokenEndpoint
  imports Oidc
begin

text \<open>
  The properties of \<open>POST /{issuer}/token\<close>: who gets a token, for which audience, with which claims,
  who can verify it, what is recorded, and what happens when a run fails.
\<close>

section \<open>Shared facts\<close>

text \<open>Identities whose extra claims are JSON objects (distinct keys at every level).\<close>

definition identities_ok :: "('k, 'a) token_context \<Rightarrow> bool" where
  "identities_ok ctx =
     ((\<forall>u \<in> snd ` set (ctx_users ctx). claims_ok (id_extra_claims u)) \<and>
      (\<forall>sp \<in> snd ` set (ctx_service_principals ctx). claims_ok (id_extra_claims sp)))"

lemma identities_ok_user:
  "identities_ok ctx \<Longrightarrow> user_presents ctx form key u \<Longrightarrow> claims_ok (id_extra_claims u)"
  by (force simp: identities_ok_def user_presents_def dest!: map_of_SomeD)

lemma identities_ok_sp:
  "identities_ok ctx \<Longrightarrow> sp_presents ctx form key sp \<Longrightarrow> claims_ok (id_extra_claims sp)"
  by (force simp: identities_ok_def sp_presents_def dest!: map_of_SomeD)

lemma sp_base_ok: "claims_ok (id_extra_claims sp) \<Longrightarrow> claims_ok (sp_base E i form headers aud key sp p)"
  unfolding sp_base_def by (rule any_provider.service_ok)

lemma user_base_ok: "claims_ok (id_extra_claims u) \<Longrightarrow> claims_ok (user_base E i form headers key u p)"
  unfolding user_base_def by (rule any_provider.user_ok)

lemma verify_token_ok: "jwt_lawful L \<Longrightarrow> verify_token L t ks = Some c \<Longrightarrow> claims_ok c"
  using jwt_lawful_decoded [of L t ks c] by (simp add: verify_token_def split: if_splits)

lemma supported_grants_cases:
  assumes "g \<in> supported_grants"
  obtains (password) "g = ''password''" | (credentials) "g = ''client_credentials''"
    | (delegation) "g \<in> {grant_exchange, grant_obo}"
  using assms unfolding supported_grants_def by blast

lemma grant_claims_password:
  "grant_claims E ctx issuer form headers ''password'' w = (Inr (c, alg), w') \<longleftrightarrow>
   w' = w \<and> password_grant E ctx issuer form headers = Inr (c, alg)"
  by (auto simp: grant_claims_def)

lemma grant_claims_credentials:
  "grant_claims E ctx issuer form headers ''client_credentials'' w = (Inr (c, alg), w') \<longleftrightarrow>
   w' = w \<and> client_credentials_grant E ctx issuer form headers = Inr (c, alg)"
  by (auto simp: grant_claims_def)

text \<open>The claims a grant produces are serialisable, and what it does to the key state.\<close>

lemma grant_claims_ok:
  assumes run: "grant_claims E ctx issuer form headers g w = (Inr (c, alg), w1)"
    and lib: "jwt_lawful (e_lib E)" and ids: "identities_ok ctx"
  shows "claims_ok c"
  using grant_claims_supported [OF run]
proof (cases rule: supported_grants_cases)
  case password
  with run ids show ?thesis
    by (auto simp: grant_claims_password password_grant_ok user_base_ok identities_ok_user)
next
  case credentials
  with run ids show ?thesis
    by (auto simp: grant_claims_credentials client_credentials_grant_ok privileged_claims_def
        sp_base_ok identities_ok_sp)
next
  case delegation
  from run delegation obtain key sp p subject ks t where sp: "sp_presents ctx form key sp"
    and v: "verify_token (e_lib E) t ks = Some subject"
    and c: "c = delegated_claims g sp subject
              (sp_base E issuer form headers (requested_audience g form) key sp p)"
    by (rule delegation_grant_InrE)
  show ?thesis unfolding c
    by (intro claims_ok_delegated sp_base_ok identities_ok_sp [OF ids sp] verify_token_ok [OF lib v])
qed

lemma grant_claims_keys:
  assumes run: "grant_claims E ctx issuer form headers g w = (Inr (c, alg), w1)"
  shows "w_keys w1 = w_keys w \<or> w_keys w1 = snd (ctx_jwks_keys ctx issuer (w_keys w))"
  using grant_claims_supported [OF run]
proof (cases rule: supported_grants_cases)
  case delegation
  from run delegation show ?thesis by (rule delegation_grant_InrE) simp
qed (use run in \<open>simp_all add: grant_claims_password grant_claims_credentials\<close>)

text \<open>The identity behind a run, for each of the grants.\<close>

definition authenticated_for ::
  "env \<Rightarrow> ('k, 'a) token_context \<Rightarrow> string \<Rightarrow> form \<Rightarrow> string \<Rightarrow> bool" where
  "authenticated_for E ctx issuer form g =
     (if g = ''password''
      then \<exists>key u. user_presents ctx form key u \<and>
             audience_passed E ctx issuer key (UserId u) (requested_audience g form)
      else \<exists>key sp. sp_presents ctx form key sp \<and>
             audience_passed E ctx issuer key (SpId sp) (requested_audience g form))"

lemma grant_claims_authenticated:
  assumes run: "grant_claims E ctx issuer form headers g w = (Inr (c, alg), w1)"
  shows "authenticated_for E ctx issuer form g"
  using grant_claims_supported [OF run]
proof (cases rule: supported_grants_cases)
  case delegation
  then have "g \<noteq> ''password''" by auto
  with delegation run show ?thesis
    by (elim delegation_grant_InrE) (auto simp: authenticated_for_def)
qed (use run in \<open>auto simp: grant_claims_password grant_claims_credentials password_grant_ok
      client_credentials_grant_ok authenticated_for_def requested_audience_def\<close>)

lemma response_fields:
  assumes "grant_response E form g (tok, c) = Inr r"
  shows "field_of r ''access_token'' = Some (JStr tok)"
    and "\<exists>n. seconds_left c (e_resp_now E) = Inr n \<and> field_of r ''expires_in'' = Some (JInt n)"
    and "field_of r ''token_type'' = Some (JStr ''Bearer'')"
  using assms
  by (auto simp: grant_response_def token_response_def exchange_response_def bindE_eq_Inr
      field_of_def split: if_splits)

text \<open>A run reaches the issuing step once its grant has produced claims.\<close>

lemma handle_token_returns:
  assumes "apply_test_hooks (headers_of rq) = Inr ms"
    and "apply_pre (e_random E) issuer (w_faults w) = Inr ms'"
    and "dget (form_of rq) ''grant_type'' = Some g"
    and "grant_claims E ctx issuer (form_of rq) (headers_of rq) g w = (Inr (c, alg), w1)"
    and "dget (omit c (dget (headers_of rq) ''x-omit-claims'')) ''exp'' = Some (JInt e)"
  shows "\<exists>r w'. handle_token E issuer rq ctx w = (Inr r, w')"
  using assms
  by (auto simp: handle_token_eq bindP_apply issue_eq Let_def grant_response_def token_response_def
      exchange_response_def seconds_left_int)

text \<open>What a key provider gives for the token a run hands out.\<close>

definition corrupting :: "fault option \<Rightarrow> bool" where
  "corrupting fault =
     (case fault of None \<Rightarrow> False
      | Some f \<Rightarrow> f_mode f \<in> {''invalid_token'', ''invalid_signature'', ''expired_token''})"

lemma issued_token_plain:
  "\<not> corrupting fault \<Longrightarrow> issued_token E c fault ctx alg i k =
     map_prod (sign (e_lib E) c) id (ctx_signing_key_for_alg ctx i alg k)"
  by (auto simp: issued_token_def corrupting_def split: option.splits)

context key_resolver
begin

lemma issued_token_inv:
  assumes "kinv k" and "ctx_signing_key_for_alg ctx = signing_key" and "ctx_alt_key_for_alg ctx = alt_key"
  shows "kinv (snd (issued_token E c fault ctx alg i k))"
  using assms signing_inv alt_inv
  by (auto simp: issued_token_def Let_def split: option.split)

lemma issued_token_verifies:
  assumes "jwt_lawful (e_lib E)" and "kinv k" and "claims_ok c" and "\<not> corrupting fault"
    and "ctx_signing_key_for_alg ctx = signing_key"
    and "issued_token E c fault ctx alg i k = (tok, k')"
  shows "verify_token (e_lib E) tok (fst (jwks i k')) = Some c"
    and "i \<noteq> j \<Longrightarrow> verify_token (e_lib E) tok (fst (jwks j k')) = None"
proof -
  obtain key where key: "signing_key i alg k = (key, k')" and tok: "tok = sign (e_lib E) c key"
    using assms(4-6) by (cases "signing_key i alg k") (auto simp: issued_token_plain)
  show "verify_token (e_lib E) tok (fst (jwks i k')) = Some c"
    using signed_token_verifies [OF assms(1-3) key] by (cases "jwks i k'") (simp add: tok)
  show "verify_token (e_lib E) tok (fst (jwks j k')) = None" if "i \<noteq> j"
    using signed_token_foreign [OF assms(1,2) that key] by (cases "jwks j k'") (simp add: tok)
qed

lemma invalid_signature_rejected:
  assumes "jwt_lawful (e_lib E)" and "kinv k" and "f_mode f = ''invalid_signature''"
    and "ctx_alt_key_for_alg ctx = alt_key"
    and "issued_token E c (Some f) ctx alg i k = (tok, k')"
  shows "verify_token (e_lib E) tok (fst (jwks i k')) = None"
proof -
  obtain key where key: "alt_key i alg k = (key, k')" and tok: "tok = sign (e_lib E) c key"
    using assms(3-5) by (cases "alt_key i alg k") (auto simp: issued_token_def)
  show ?thesis
    using alt_token_rejected [OF assms(1,2) key] by (cases "jwks i k'") (simp add: tok)
qed

lemma expired_token_claims:
  assumes "jwt_lawful (e_lib E)" and "kinv k" and "claims_ok c" and "f_mode f = ''expired_token''"
    and "f_skew_seconds f = Some n" and "ctx_signing_key_for_alg ctx = signing_key"
    and "issued_token E c (Some f) ctx alg i k = (tok, k')"
  shows "verify_token (e_lib E) tok (fst (jwks i k')) = Some (dset c ''exp'' (JInt (e_sign_now E + n)))"
proof -
  let ?c = "dset c ''exp'' (JInt (e_sign_now E + n))"
  obtain key where key: "signing_key i alg k = (key, k')" and tok: "tok = sign (e_lib E) ?c key"
    using assms(4-7) by (cases "signing_key i alg k") (auto simp: issued_token_def)
  have "claims_ok ?c" using assms(3) by simp
  then show ?thesis
    using signed_token_verifies [OF assms(1,2) _ key, of ?c] by (cases "jwks i k'") (simp add: tok)
qed

text \<open>Any run that returned, for a context that uses this resolver, without a corrupting fault.\<close>

lemma handled_token:
  assumes "handle_token E issuer rq ctx w = (Inr r, w')"
    and lib: "jwt_lawful (e_lib E)" and inv: "kinv (w_keys w)" and ids: "identities_ok ctx"
    and fault: "\<not> corrupting (get_fault issuer (w_faults w))"
    and keys: "ctx_signing_key_for_alg ctx = signing_key" "ctx_alt_key_for_alg ctx = alt_key"
      "ctx_jwks_keys ctx = jwks"
  obtains g claims alg key k where "dget (form_of rq) ''grant_type'' = Some g"
    and "field_of r ''access_token'' = Some (JStr (sign (e_lib E) claims key))"
    and "kinv k" and "signing_key issuer alg k = (key, w_keys w')" and "claims_ok claims"
    and "w_audit w' = snd (ctx_write_token_event ctx (dset claims ''grant_type'' (JStr g)) (w_audit w))"
  using assms(1)
proof (rule handle_token_InrE)
  fix g c0 alg w1
  let ?c = "omit c0 (dget (headers_of rq) ''x-omit-claims'')"
  assume g: "dget (form_of rq) ''grant_type'' = Some g"
    and c: "grant_claims E ctx issuer (form_of rq) (headers_of rq) g w = (Inr (c0, alg), w1)"
    and k: "keys_only w w1"
    and res: "let c = ?c; t = issued_token E c (get_fault issuer (w_faults w)) ctx alg issuer (w_keys w1)
      in grant_response E (form_of rq) g (fst t, c) = Inr r \<and>
         w' = emit_event E ''token_issued'' issuer g c ctx (w1\<lparr>w_keys := snd t\<rparr>)"
  obtain key k' where key: "signing_key issuer alg (w_keys w1) = (key, k')" by (cases "signing_key issuer alg (w_keys w1)")
  have t: "issued_token E ?c (get_fault issuer (w_faults w)) ctx alg issuer (w_keys w1) = (sign (e_lib E) ?c key, k')"
    using fault keys(1) key by (simp add: issued_token_plain)
  have inv1: "kinv (w_keys w1)"
    using grant_claims_keys [OF c] jwks_inv [OF inv, of issuer] inv keys(3) by auto
  have ok: "claims_ok ?c" using grant_claims_ok [OF c lib ids] by simp
  have gr: "grant_response E (form_of rq) g (sign (e_lib E) ?c key, ?c) = Inr r" using res t by (simp add: Let_def)
  have w': "w_keys w' = k'" "w_audit w' = snd (ctx_write_token_event ctx (dset ?c ''grant_type'' (JStr g)) (w_audit w))"
    using res t keys_only_frame [OF k] by (simp_all add: Let_def)
  show thesis by (rule that [OF g response_fields(1) [OF gr] inv1 _ ok]) (use key w' in simp_all)
qed

end

section \<open>A client-credentials run in full\<close>

text \<open>
  The run of a client-credentials request of a principal without extra claims or overrides, in full.
\<close>

definition credentials_claims ::
  "env \<Rightarrow> string \<Rightarrow> request \<Rightarrow> string \<Rightarrow> sp_record \<Rightarrow> provider \<Rightarrow> claims" where
  "credentials_claims E issuer rq key sp p =
     omit (sp_base E issuer (form_of rq) (headers_of rq) (resolve_aud (form_of rq)) key sp p)
       (dget (headers_of rq) ''x-omit-claims'')"

definition serves_principal ::
  "env \<Rightarrow> ('k, 'a) token_context \<Rightarrow> string \<Rightarrow> request \<Rightarrow> ('k, 'a) world \<Rightarrow> string \<Rightarrow> sp_record \<Rightarrow> provider \<Rightarrow> bool" where
  "serves_principal E ctx issuer rq w key sp p =
     ((\<exists>ms. apply_test_hooks (headers_of rq) = Inr ms) \<and>
      (\<exists>ms. apply_pre (e_random E) issuer (w_faults w) = Inr ms) \<and>
      dget (form_of rq) ''grant_type'' = Some ''client_credentials'' \<and>
      ''exp'' \<notin> set (omitted_names (dget (headers_of rq) ''x-omit-claims'')) \<and>
      sp_presents ctx (form_of rq) key sp \<and>
      audience_passed E ctx issuer key (SpId sp) (resolve_aud (form_of rq)) \<and>
      get_provider (id_provider sp) = Inr p \<and> id_extra_claims sp = [] \<and> \<not> sp_override_any_claim sp)"

definition token_lifetime :: "env \<Rightarrow> request \<Rightarrow> sp_record \<Rightarrow> int" where
  "token_lifetime E rq sp = resolve_expiry (id_token_lifetime_seconds sp) (headers_of rq)"

lemma credentials_claims_exp:
  "serves_principal E ctx issuer rq w key sp p \<Longrightarrow>
   dget (credentials_claims E issuer rq key sp p) ''exp'' =
     Some (JInt (e_build_now E + token_lifetime E rq sp))"
  unfolding credentials_claims_def sp_base_def serves_principal_def dget_omit token_lifetime_def
  by (subst any_provider.service_exp) (simp_all add: provider_env_of_def)

lemma credentials_claims_ok:
  "serves_principal E ctx issuer rq w key sp p \<Longrightarrow> claims_ok (credentials_claims E issuer rq key sp p)"
  unfolding credentials_claims_def serves_principal_def by (simp add: sp_base_ok)

lemma credentials_run:
  assumes s: "serves_principal E ctx issuer rq w key sp p"
  defines "c \<equiv> credentials_claims E issuer rq key sp p"
  defines "t \<equiv> issued_token E c (get_fault issuer (w_faults w)) ctx (id_signing_alg sp) issuer (w_keys w)"
  shows "\<exists>r. handle_token E issuer rq ctx w =
      (Inr r, emit_event E ''token_issued'' issuer ''client_credentials'' c ctx (w\<lparr>w_keys := snd t\<rparr>)) \<and>
      field_of r ''access_token'' = Some (JStr (fst t)) \<and>
      field_of r ''expires_in'' =
        Some (JInt (max 0 (e_build_now E + token_lifetime E rq sp - e_resp_now E)))"
proof -
  have "grant_claims E ctx issuer (form_of rq) (headers_of rq) ''client_credentials'' w
      = (Inr (sp_base E issuer (form_of rq) (headers_of rq) (resolve_aud (form_of rq)) key sp p,
              id_signing_alg sp), w)"
    using s unfolding grant_claims_credentials client_credentials_grant_ok serves_principal_def
    by (auto simp: privileged_claims_def)
  moreover obtain ms ms' where "apply_test_hooks (headers_of rq) = Inr ms"
      "apply_pre (e_random E) issuer (w_faults w) = Inr ms'"
      "dget (form_of rq) ''grant_type'' = Some ''client_credentials''"
    using s unfolding serves_principal_def by blast
  ultimately show ?thesis
    using credentials_claims_exp [OF s] unfolding c_def t_def credentials_claims_def
    by (simp add: handle_token_eq bindP_apply issue_eq Let_def grant_response_def token_response_def
        seconds_left_int field_of_def)
qed

text \<open>The same on the flat router, without a corrupting fault: the token verifies.\<close>

lemma flat_credentials_run:
  assumes s: "serves_principal E (flat_context (e_cfg E) wr) issuer rq w key sp p"
    and lib: "jwt_lawful (e_lib E)" and inv: "key_store_inv (w_keys w)"
    and fault: "\<not> corrupting (get_fault issuer (w_faults w))"
  obtains r w' tok where "token E wr issuer rq w = (Inr r, w')"
    and "field_of r ''access_token'' = Some (JStr tok)"
    and "field_of r ''expires_in'' =
          Some (JInt (max 0 (e_build_now E + token_lifetime E rq sp - e_resp_now E)))"
    and "tok \<noteq> []" and "py_strip tok = tok"
    and "key_store_inv (w_keys w')" and "w_faults w' = w_faults w"
    and "verify_token (e_lib E) tok (fst (get_jwks_keys issuer (w_keys w'))) =
          Some (credentials_claims E issuer rq key sp p)"
proof -
  let ?c = "credentials_claims E issuer rq key sp p" and ?ctx = "flat_context (e_cfg E) wr"
  obtain tok k' where t: "issued_token E ?c (get_fault issuer (w_faults w)) ?ctx (id_signing_alg sp)
      issuer (w_keys w) = (tok, k')"
    by (cases "issued_token E ?c (get_fault issuer (w_faults w)) ?ctx (id_signing_alg sp) issuer (w_keys w)")
  from credentials_run [OF s] t obtain r where
    r: "token E wr issuer rq w = (Inr r, emit_event E ''token_issued'' issuer ''client_credentials'' ?c ?ctx
          (w\<lparr>w_keys := k'\<rparr>))"
      "field_of r ''access_token'' = Some (JStr tok)"
      "field_of r ''expires_in'' =
          Some (JInt (max 0 (e_build_now E + token_lifetime E rq sp - e_resp_now E)))"
    unfolding token_def by auto
  have "key_store_inv k'"
    using global_keys.issued_token_inv [OF inv, of ?ctx E ?c _ "id_signing_alg sp" issuer] t by (metis flat_context_keys(1,2) snd_conv)
  moreover have "tok \<noteq> []" "py_strip tok = tok"
    using t jwt_lawful_token [OF lib] by (auto simp: issued_token_plain [OF fault] map_prod_def sign_def split: prod.splits)
  ultimately show ?thesis
    using global_keys.issued_token_verifies(1) [OF lib inv credentials_claims_ok [OF s] fault _ t] r that
    by simp
qed

end
