(* ===== verification/Demo.thy ===== *)
theory Demo
  imports TokenEndpoint
begin

text \<open>
  A small concrete configuration: two users, two service principals and one resource application in
  strict mode, the reference JOSE library, and a fresh key store. The closed instances of the
  theorems are stated about it.
\<close>

section \<open>Identities\<close>

definition demo_user :: user_record where
  "demo_user = (new_user ''pw'')\<lparr>id_tid := ''t1'', u_upn := Some ''alice@t1'', u_oid := ''oid-alice'',
     id_roles := [''reader''], id_allowed_audiences := [''api://default'']\<rparr>"

definition demo_sp :: sp_record where
  "demo_sp = (new_sp ''s3cret'')\<lparr>id_tid := ''t1'', sp_name := ''svc'', sp_canonical_id := ''svc'',
     id_roles := [''writer'', ''reader''], id_tenant_realm_roles := [''base'', ''reader''],
     id_allowed_audiences := [''api://default'']\<rparr>"

definition demo_admin_sp :: sp_record where
  "demo_admin_sp = (new_sp ''root'')\<lparr>id_tid := ''t1'', sp_name := ''ops'', sp_canonical_id := ''ops'',
     sp_override_any_claim := True\<rparr>"

definition demo_app :: client_app where
  "demo_app = \<lparr>app_id = Some ''app-1'', app_label = None, app_roles = [''admin''],
     app_grants = [(''svc'', [''admin''])]\<rparr>"

definition demo_data :: store_data where
  "demo_data = initial_store\<lparr>st_mode := ''strict'', st_admin_token := ''adm'',
     st_users := [(''alice'', demo_user)],
     st_service_principals := [(''svc'', demo_sp), (''ops'', demo_admin_sp)],
     st_service_principals_raw := [(''svc'', demo_sp), (''ops'', demo_admin_sp)],
     st_client_apps := [(''api://orders'', demo_app)]\<rparr>"

definition demo_cfg :: config where
  "demo_cfg = config_init \<lparr>os_vars = [], os_read = (\<lambda>_. FileMissing)\<rparr> demo_data"

definition demo_env :: env where
  "demo_env = \<lparr>e_lib = reference_jwt, e_cfg = demo_cfg, e_random = 0, e_check_now = 1000,
     e_auth_now = 1000, e_build_now = 1000, e_sign_now = 1001, e_resp_now = 1002,
     e_timestamp = ''2026-01-01T00:00:00+00:00'', e_post = (\<lambda>_ _ _. Inr ())\<rparr>"

definition demo_keys :: key_store where
  "demo_keys = \<lparr>ks_gen = (\<lambda>n. n), ks_drawn = 0, ks_stores = []\<rparr>"

text \<open>The audit log of the instances keeps the events in order.\<close>

definition log_event :: "claims \<Rightarrow> claims list \<Rightarrow> (py_exn + unit) \<times> claims list" where
  "log_event e s = (Inr (), s @ [e])"

definition demo_world :: "(key_store, claims list) world" where
  "demo_world = \<lparr>w_keys = demo_keys, w_faults = [], w_posts = [], w_audit = []\<rparr>"

definition demo_context :: "(key_store, claims list) token_context" where
  "demo_context = flat_context demo_cfg log_event"

definition demo_request :: request where
  "demo_request = \<lparr>rq_form = [(''grant_type'', ''client_credentials''), (''client_id'', ''svc''),
     (''client_secret'', ''s3cret'')], rq_headers = []\<rparr>"

section \<open>Its well-formedness\<close>

lemmas demo_defs = demo_user_def demo_sp_def demo_admin_sp_def demo_app_def demo_data_def demo_cfg_def
  demo_env_def demo_keys_def demo_world_def demo_context_def new_user_def new_sp_def initial_store_def
  config_init_def getenv_def effective_admin_token_def

lemma demo_env_simps [simp]:
  "e_lib demo_env = reference_jwt" "e_cfg demo_env = demo_cfg" "e_random demo_env = 0"
  "e_check_now demo_env = 1000" "e_build_now demo_env = 1000" "e_resp_now demo_env = 1002"
  "e_sign_now demo_env = 1001" "e_auth_now demo_env = 1000"
  by (simp_all add: demo_env_def)

lemma demo_world_simps [simp]:
  "w_keys demo_world = demo_keys" "w_faults demo_world = []" "w_posts demo_world = []"
  "w_audit demo_world = []"
  by (simp_all add: demo_world_def)

lemma demo_keys_inv: "key_store_inv demo_keys"
  by (simp add: demo_keys_def key_store_inv_def)

lemma demo_identities: "identities_ok demo_context"
  by (simp add: identities_ok_def demo_defs)

lemma demo_lookup [simp]:
  "dget (cf_service_principals demo_cfg) ''svc'' = Some demo_sp"
  "dget (cf_service_principals demo_cfg) ''ops'' = Some demo_admin_sp"
  "dget (cf_users demo_cfg) ''alice'' = Some demo_user"
  "dget (cf_client_apps demo_cfg) ''api://orders'' = Some demo_app"
  "dget (cf_client_apps demo_cfg) ''api://default'' = None"
  "cf_mode demo_cfg = ''strict''" "cf_issuer_modes demo_cfg = []" "cf_admin_token demo_cfg = ''adm''"
  by (simp_all add: demo_defs)

lemma demo_store_ok: "store_ok (cf_data demo_cfg)"
  by (simp add: store_ok_def demo_defs sp_entry_ok_def canonical_of_def dict_ok_def)

section \<open>Its request\<close>

lemma demo_form [simp]:
  "form_of demo_request =
     [(''grant_type'', ''client_credentials''), (''client_id'', ''svc''), (''client_secret'', ''s3cret'')]"
  by (simp add: demo_request_def form_of_def dict_of_def)

lemma demo_headers [simp]: "headers_of demo_request = []"
  by (simp add: demo_request_def headers_of_def dict_of_def)

lemma no_headers [simp]: "apply_test_hooks [] = Inr 0" "omitted_names None = []"
  by (simp_all add: apply_test_hooks_def test_delay_def omitted_names_def comma_list_def py_strip_def
      strip_with_def)

lemma no_faults [simp]: "apply_pre rnd i [] = Inr 0" "get_fault i [] = None"
  by (simp_all add: apply_pre_def get_fault_def)

lemma demo_sp_simps [simp]:
  "sp_secret demo_sp = ''s3cret''" "id_extra_claims demo_sp = []" "\<not> sp_override_any_claim demo_sp"
  "sp_canonical_id demo_sp = ''svc''" "sp_name demo_sp = ''svc''"
  "id_signing_alg demo_sp = ''RS256''" "id_token_lifetime_seconds demo_sp = 3600"
  "get_provider (id_provider demo_sp) = Inr EntraId"
  "id_allowed_audiences (base_of (SpId demo_sp)) = [''api://default'']"
  by (simp_all add: demo_sp_def new_sp_def get_provider_def provider_registry_def base_of_def
      identity_fields.defs)

lemma demo_presents: "sp_presents demo_context (form_of demo_request) ''svc'' demo_sp"
  by (simp add: sp_presents_def demo_context_def)

lemma demo_aud: "resolve_aud (form_of demo_request) = ''api://default''"
  by (simp add: resolve_aud_def)

lemma demo_passed:
  "audience_passed demo_env demo_context ''acme'' ''svc'' (SpId demo_sp) ''api://default''"
  by (simp add: audience_passed_def audience_allowed_def)

lemma demo_serves:
  "serves_principal demo_env demo_context ''acme'' demo_request demo_world ''svc'' demo_sp EntraId"
  unfolding serves_principal_def using demo_presents demo_passed demo_aud by auto

lemma demo_no_corruption [simp]: "\<not> corrupting None"
  by (simp add: corrupting_def)

lemma demo_run:
  obtains r w' tok where "token demo_env log_event ''acme'' demo_request demo_world = (Inr r, w')"
    and "field_of r ''access_token'' = Some (JStr tok)" and "tok \<noteq> []" and "py_strip tok = tok"
    and "key_store_inv (w_keys w')" and "w_faults w' = []"
    and "verify_token reference_jwt tok (fst (get_jwks_keys ''acme'' (w_keys w'))) =
          Some (credentials_claims demo_env ''acme'' demo_request ''svc'' demo_sp EntraId)"
proof -
  have s: "serves_principal demo_env (flat_context (e_cfg demo_env) log_event) ''acme'' demo_request
      demo_world ''svc'' demo_sp EntraId"
    using demo_serves by (simp only: demo_context_def demo_env_simps)
  have lib: "jwt_lawful (e_lib demo_env)" by (simp add: reference_jwt_lawful)
  have inv: "key_store_inv (w_keys demo_world)" by (simp add: demo_keys_inv)
  have fault: "\<not> corrupting (get_fault ''acme'' (w_faults demo_world))" by simp
  show ?thesis
    by (rule flat_credentials_run [OF s lib inv fault])
      (rule that, assumption+, simp, simp)
qed

lemma demo_authenticated_run:
  "\<exists>r w'. handle_token demo_env ''acme'' demo_request demo_context demo_world = (Inr r, w')"
proof -
  obtain r w' tok where "token demo_env log_event ''acme'' demo_request demo_world = (Inr r, w')"
    by (rule demo_run)
  then show ?thesis by (auto simp: token_def demo_context_def)
qed

end
