(* ===== verification/TokenProperties.thy ===== *)
theory TokenProperties
  imports Demo
begin

text \<open>
  The properties of \<open>POST /{issuer}/token\<close>, each with a closed instance: who gets a token, for which
  audience, with which claims, who can verify it, what is recorded, and what a failed run leaves.
\<close>

section \<open>Who gets a token\<close>

text \<open>
  C1: the token endpoint answers only a request that authenticates: for the password grant as a user
  whose stored password it presents, for the three other grants as a service principal whose secret
  it presents. Every other grant type is refused.
\<close>

theorem token_needs_credentials:
  assumes "handle_token E issuer rq ctx w = (Inr r, w')"
  shows "\<exists>g. dget (form_of rq) ''grant_type'' = Some g \<and> g \<in> supported_grants \<and>
    (if g = ''password'' then \<exists>key u. user_presents ctx (form_of rq) key u
     else \<exists>key sp. sp_presents ctx (form_of rq) key sp)"
  using assms
proof (rule handle_token_InrE)
  fix g claims alg w1
  assume g: "dget (form_of rq) ''grant_type'' = Some g" "g \<in> supported_grants"
    and c: "grant_claims E ctx issuer (form_of rq) (headers_of rq) g w = (Inr (claims, alg), w1)"
  from grant_claims_authenticated [OF c] g show ?thesis
    unfolding authenticated_for_def by (auto split: if_splits)
qed

theorem token_needs_credentials_witness:
  "\<exists>r w'. handle_token demo_env ''acme'' demo_request demo_context demo_world = (Inr r, w') \<and>
     (\<exists>g. dget (form_of demo_request) ''grant_type'' = Some g \<and> g \<in> supported_grants \<and>
        (if g = ''password'' then \<exists>key u. user_presents demo_context (form_of demo_request) key u
         else \<exists>key sp. sp_presents demo_context (form_of demo_request) key sp))"
  using demo_authenticated_run token_needs_credentials by blast

text \<open>
  C2: in strict mode a token is issued only for an audience the identity is entitled to: one whose
  client application grants the identity something, or, where there is no application, one in the
  identity's list. The single exception is a service principal that may override any claim.
\<close>

theorem strict_mode_audience:
  assumes "handle_token E issuer rq ctx w = (Inr r, w')"
    and "strict_mode (cf_mode (e_cfg E)) (effective_mode ctx issuer)"
  shows "\<exists>g. dget (form_of rq) ''grant_type'' = Some g \<and>
    (if g = ''password''
     then \<exists>key u. user_presents ctx (form_of rq) key u \<and>
            audience_allowed (cf_client_apps (e_cfg E)) key (UserId u) (requested_audience g (form_of rq))
     else \<exists>key sp. sp_presents ctx (form_of rq) key sp \<and>
            (sp_override_any_claim sp \<or>
             audience_allowed (cf_client_apps (e_cfg E)) key (SpId sp) (requested_audience g (form_of rq))))"
  using assms(1)
proof (rule handle_token_InrE)
  fix g claims alg w1
  assume g: "dget (form_of rq) ''grant_type'' = Some g"
    and c: "grant_claims E ctx issuer (form_of rq) (headers_of rq) g w = (Inr (claims, alg), w1)"
  from grant_claims_authenticated [OF c] g assms(2) show ?thesis
    unfolding authenticated_for_def audience_passed_def overrides_any_claim_def
    by (cases "g = ''password''") auto
qed

theorem strict_mode_audience_witness:
  "\<exists>r w'. handle_token demo_env ''acme'' demo_request demo_context demo_world = (Inr r, w') \<and>
     (\<exists>g. dget (form_of demo_request) ''grant_type'' = Some g \<and>
       (if g = ''password''
        then \<exists>key u. user_presents demo_context (form_of demo_request) key u \<and>
            audience_allowed (cf_client_apps (e_cfg demo_env)) key (UserId u)
              (requested_audience g (form_of demo_request))
        else \<exists>key sp. sp_presents demo_context (form_of demo_request) key sp \<and>
            (sp_override_any_claim sp \<or>
             audience_allowed (cf_client_apps (e_cfg demo_env)) key (SpId sp)
               (requested_audience g (form_of demo_request)))))"
proof -
  have "strict_mode (cf_mode (e_cfg demo_env)) (effective_mode demo_context ''acme'')"
    by (simp add: strict_mode_def effective_mode_def demo_context_def)
  then show ?thesis using demo_authenticated_run strict_mode_audience by blast
qed

section \<open>Who can verify it\<close>

text \<open>
  C3: a token the flat endpoint issues with no token-corrupting fault verifies against the keys its
  issuer publishes right after, gives back exactly the claims the event recorded, and does not
  verify against the keys of any other issuer.
\<close>

theorem flat_token_verifies:
  assumes "token E wr issuer rq w = (Inr r, w')"
    and "jwt_lawful (e_lib E)" and "key_store_inv (w_keys w)"
    and "identities_ok (flat_context (e_cfg E) wr)"
    and "\<not> corrupting (get_fault issuer (w_faults w))"
  shows "\<exists>tok claims g.
    dget (form_of rq) ''grant_type'' = Some g \<and>
    field_of r ''access_token'' = Some (JStr tok) \<and>
    verify_token (e_lib E) tok (fst (get_jwks_keys issuer (w_keys w'))) = Some claims \<and>
    (\<forall>other. other \<noteq> issuer \<longrightarrow>
       verify_token (e_lib E) tok (fst (get_jwks_keys other (w_keys w'))) = None) \<and>
    w_audit w' = snd (wr (dset claims ''grant_type'' (JStr g)) (w_audit w))"
  using assms(1) unfolding token_def
proof (rule global_keys.handled_token [OF _ assms(2-5)])
  fix g claims alg key k
  let ?tok = "sign (e_lib E) claims key"
  assume g: "dget (form_of rq) ''grant_type'' = Some g" "field_of r ''access_token'' = Some (JStr ?tok)"
    and k: "key_store_inv k" "get_signing_key_for_alg issuer alg k = (key, w_keys w')" and ok: "claims_ok claims"
    and a: "w_audit w' = snd (ctx_write_token_event (flat_context (e_cfg E) wr) (dset claims ''grant_type'' (JStr g)) (w_audit w))"
  have "verify_token (e_lib E) ?tok (fst (get_jwks_keys issuer (w_keys w'))) = Some claims"
    using global_keys.signed_token_verifies [OF assms(2) k(1) ok k(2)]
    by (cases "get_jwks_keys issuer (w_keys w')") simp
  moreover have "verify_token (e_lib E) ?tok (fst (get_jwks_keys other (w_keys w'))) = None" if "other \<noteq> issuer" for other
    using global_keys.signed_token_foreign [OF assms(2) k(1) that [symmetric] k(2)]
    by (cases "get_jwks_keys other (w_keys w')") simp
  ultimately show ?thesis using g a by auto
qed simp_all

theorem flat_token_verifies_witness:
  "\<exists>r w' tok claims g.
     token demo_env log_event ''acme'' demo_request demo_world = (Inr r, w') \<and>
     dget (form_of demo_request) ''grant_type'' = Some g \<and>
     field_of r ''access_token'' = Some (JStr tok) \<and>
     verify_token reference_jwt tok (fst (get_jwks_keys ''acme'' (w_keys w'))) = Some claims \<and>
     (\<forall>other. other \<noteq> ''acme'' \<longrightarrow>
       verify_token reference_jwt tok (fst (get_jwks_keys other (w_keys w'))) = None) \<and>
     w_audit w' = snd (log_event (dset claims ''grant_type'' (JStr g)) (w_audit demo_world))"
proof -
  obtain r w' where run: "token demo_env log_event ''acme'' demo_request demo_world = (Inr r, w')"
    using demo_authenticated_run unfolding token_def demo_context_def by auto
  have "identities_ok (flat_context (e_cfg demo_env) log_event)"
    using demo_identities by (simp add: demo_context_def)
  then show ?thesis
    using flat_token_verifies [OF run] run
    by (simp add: reference_jwt_lawful demo_keys_inv corrupting_def del: demo_form)
qed

section \<open>Failures\<close>

definition demo_bad_request :: request where
  "demo_bad_request = \<lparr>rq_form = [(''grant_type'', ''client_credentials''), (''client_id'', ''svc''),
     (''client_secret'', ''wrong'')], rq_headers = []\<rparr>"

text \<open>
  C4: a token request refused with an HTTP error leaves no trace: no audit event, no webhook
  delivery, no change of the injected faults. (The issuer's key bundle may have been created.)
\<close>

theorem refused_request_no_trace:
  assumes "handle_token E issuer rq ctx w = (Inl (HTTPException st d hs), w')"
  shows "w_audit w' = w_audit w \<and> w_posts w' = w_posts w \<and> w_faults w' = w_faults w"
  using keys_only_frame [OF handle_token_http_error [OF assms]] by simp

lemma demo_refused:
  "handle_token demo_env ''acme'' demo_bad_request demo_context demo_world =
     (Inl (http 401 (JStr ''invalid_client'')), demo_world)"
proof -
  have f: "form_of demo_bad_request =
      [(''grant_type'', ''client_credentials''), (''client_id'', ''svc''), (''client_secret'', ''wrong'')]"
    by (simp add: demo_bad_request_def form_of_def dict_of_def)
  have h: "headers_of demo_bad_request = []"
    by (simp add: demo_bad_request_def headers_of_def dict_of_def)
  show ?thesis
    by (simp add: handle_token_eq f h bindP_apply grant_claims_def client_credentials_grant_def
        authenticate_sp_def demo_context_def)
qed

theorem refused_request_no_trace_witness:
  "handle_token demo_env ''acme'' demo_bad_request demo_context demo_world =
     (Inl (http 401 (JStr ''invalid_client'')), demo_world) \<and>
   w_audit demo_world = w_audit demo_world \<and> w_posts demo_world = w_posts demo_world \<and>
   w_faults demo_world = w_faults demo_world"
  using refused_request_no_trace [OF demo_refused] demo_refused by simp

section \<open>Delegation\<close>


text \<open>A delegation request whose subject token is good is served.\<close>

lemma delegation_run:
  assumes "apply_test_hooks (headers_of rq) = Inr ms"
    and "apply_pre (e_random E) issuer (w_faults w) = Inr ms'"
    and g: "dget (form_of rq) ''grant_type'' = Some g" "g \<in> {grant_exchange, grant_obo}"
    and om: "''exp'' \<notin> set (omitted_names (dget (headers_of rq) ''x-omit-claims''))"
    and sp: "sp_presents ctx (form_of rq) key sp"
      "audience_passed E ctx issuer key (SpId sp) (requested_audience g (form_of rq))"
      "get_provider (id_provider sp) = Inr p" "id_extra_claims sp = []"
    and tok: "py_strip (str_or (dget (form_of rq) (presented_field g)) []) = tok" "tok \<noteq> []"
    and v: "verify_token (e_lib E) tok (fst (ctx_jwks_keys ctx issuer (w_keys w))) = Some subject"
      "exp_before subject (e_check_now E) = Inr False"
  shows "\<exists>r w'. handle_token E issuer rq ctx w = (Inr r, w')"
proof -
  let ?base = "sp_base E issuer (form_of rq) (headers_of rq) (requested_audience g (form_of rq)) key sp p"
  let ?c = "delegated_claims g sp subject ?base"
  obtain ks k where ks: "ctx_jwks_keys ctx issuer (w_keys w) = (ks, k)"
    by (cases "ctx_jwks_keys ctx issuer (w_keys w)")
  have auth: "authenticate_sp ctx (form_of rq) = Inr (key, sp)" using sp(1) by (simp add: authenticate_sp_ok)
  have pt: "presented_token E ctx issuer (form_of rq) (presented_field g) what err w =
      (Inr subject, w\<lparr>w_keys := k\<rparr>)" for what err
    using tok v ks by (simp add: presented_token_def Let_def bindP_apply keysP_apply)
  have cl: "sp_token_claims E ctx issuer (form_of rq) (headers_of rq) (requested_audience g (form_of rq))
      (key, sp) (resolve_expiry (id_token_lifetime_seconds sp) (headers_of rq))
      (\<lambda>rs. apply_roles_override rs (headers_of rq)) = Inr ?base"
    using sp by (simp add: sp_token_claims_ok sp_base_def)
  have run: "grant_claims E ctx issuer (form_of rq) (headers_of rq) g w = (Inr (?c, id_signing_alg sp), w\<lparr>w_keys := k\<rparr>)"
    by (simp add: delegation_grant_eq [OF g(2)] bindP_apply auth pt cl)
  have "dget ?base ''exp'' = Some (JInt (e_build_now E + token_lifetime E rq sp))"
    unfolding sp_base_def token_lifetime_def
    by (subst any_provider.service_exp) (simp_all add: sp(4) provider_env_of_def)
  then have "dget (omit ?c (dget (headers_of rq) ''x-omit-claims'')) ''exp'' =
      Some (JInt (e_build_now E + token_lifetime E rq sp))"
    using om by (simp add: dget_omit dget_delegated exchange_identity_def)
  then show ?thesis using handle_token_returns [OF assms(1,2) g(1) run] by blast
qed

lemma demo_context_simps [simp]:
  "ctx_jwks_keys demo_context = get_jwks_keys" "ctx_write_token_event demo_context = log_event"
  by (simp_all add: demo_context_def)

lemma str_or_Some: "s \<noteq> [] \<Longrightarrow> str_or (Some s) d = s"
  by (simp add: str_or_def)

definition demo_exchange :: "string \<Rightarrow> request" where
  "demo_exchange tok = \<lparr>rq_form = [(''grant_type'', grant_exchange), (''client_id'', ''svc''),
     (''client_secret'', ''s3cret''), (''subject_token'', tok)], rq_headers = []\<rparr>"

lemma demo_exchange_run:
  obtains r0 w0 tok r w' where
    "handle_token demo_env ''acme'' demo_request demo_context demo_world = (Inr r0, w0)"
    and "field_of r0 ''access_token'' = Some (JStr tok)"
    and "handle_token demo_env ''acme'' (demo_exchange tok) demo_context w0 = (Inr r, w')"
proof -
  obtain r0 w0 tok where run: "token demo_env log_event ''acme'' demo_request demo_world = (Inr r0, w0)"
      "field_of r0 ''access_token'' = Some (JStr tok)" and tok: "tok \<noteq> []" "py_strip tok = tok"
    and w0: "w_faults w0 = []"
    and v: "verify_token reference_jwt tok (fst (get_jwks_keys ''acme'' (w_keys w0))) =
          Some (credentials_claims demo_env ''acme'' demo_request ''svc'' demo_sp EntraId)"
    by (rule demo_run)
  have f: "form_of (demo_exchange tok) = [(''grant_type'', grant_exchange), (''client_id'', ''svc''),
     (''client_secret'', ''s3cret''), (''subject_token'', tok)]"
    by (simp add: demo_exchange_def form_of_def dict_of_def)
  have h: "headers_of (demo_exchange tok) = []"
    by (simp add: demo_exchange_def headers_of_def dict_of_def)
  have e: "exp_before (credentials_claims demo_env ''acme'' demo_request ''svc'' demo_sp EntraId)
      (e_check_now demo_env) = Inr False"
    by (subst exp_before_int [OF credentials_claims_exp [OF demo_serves]])
      (simp add: token_lifetime_def resolve_expiry_def)
  have "requested_audience grant_exchange (form_of (demo_exchange tok)) = ''api://default''"
    by (simp add: f requested_audience_def resolve_aud_def)
  then have "\<exists>r w'. handle_token demo_env ''acme'' (demo_exchange tok) demo_context w0 = (Inr r, w')"
    using demo_passed v tok e w0
    by (intro delegation_run [of _ 0 _ _ _ 0 grant_exchange _ "''svc''" demo_sp EntraId tok])
      (simp_all add: f h sp_presents_def presented_field_def str_or_Some demo_context_def)
  with run show ?thesis by (auto intro: that simp: token_def demo_context_def)
qed


end
