(* ===== verification/Introspection.thy ===== *)
theory Introspection
  imports TokenProperties
begin

text \<open>
  The introspection endpoint: its answer in closed form, what an active answer implies, and that a
  freshly issued token is reported active with its claims.
\<close>

section \<open>Lookups in the introspection response\<close>

lemma introspection_fold:
  assumes "dict_ok claims"
  shows "dget (fold (\<lambda>(claim, value) r.
             (if claim \<in> introspect_pass_through then dset r claim value else r)) claims r) k =
    (if k \<in> introspect_pass_through \<and> dget claims k \<noteq> None then dget claims k else dget r k)"
  using assms
proof (induction claims arbitrary: r)
  case (Cons p claims)
  obtain c v where p: "p = (c, v)" by (cases p)
  from Cons.prems have "dict_ok claims" "dget claims c = None"
    by (auto simp: p dict_ok_def map_of_eq_None_iff)
  with Cons.IH show ?case by (auto simp: p)
qed simp

lemma dget_introspection_response:
  assumes "dict_ok claims"
  shows "dget (introspection_response claims) k =
    (if k \<in> introspect_pass_through \<and> dget claims k \<noteq> None then dget claims k
     else if k = ''client_id'' then dget claims ''azp''
     else if k = ''active'' then Some (JBool True)
     else if k = ''token_type'' then Some (JStr ''Bearer'') else None)"
proof -
  have "''client_id'' \<notin> introspect_pass_through" by (simp add: introspect_pass_through_def)
  then show ?thesis
    by (auto simp: introspection_response_def introspection_fold [OF assms] Let_def dhas_iff
        simp del: fold_simps split: option.split)
qed

text \<open>A run of the introspection endpoint that answered active.\<close>

definition caller_presents :: "('k, 'a) token_context \<Rightarrow> form \<Rightarrow> string \<Rightarrow> sp_record \<Rightarrow> bool" where
  "caller_presents ctx form key sp =
     (key = str_or (dget form ''client_id'') [] \<and> dget (ctx_service_principals ctx) key = Some sp \<and>
      str_or (dget form ''client_secret'') [] = sp_secret sp)"

lemma authenticate_caller_ok:
  "authenticate_caller ctx form = Inr key \<longleftrightarrow> (\<exists>sp. caller_presents ctx form key sp)"
  by (auto simp: authenticate_caller_def caller_presents_def Let_def split: option.splits)

definition introspected :: "request \<Rightarrow> string" where
  "introspected rq = py_strip (str_or (dget (form_of rq) ''token'') [])"

definition audience_visible :: "('k, 'a) token_context \<Rightarrow> string \<Rightarrow> claims \<Rightarrow> bool" where
  "audience_visible ctx caller claims =
     (dhas (ctx_clients ctx) caller \<longrightarrow> JStr caller \<in> set (aud_list claims))"

lemma handle_introspect_active:
  assumes "caller_presents ctx (form_of rq) key sp" and "introspected rq \<noteq> []"
    and "verify_token (e_lib E) (introspected rq) (fst (ctx_jwks_keys ctx issuer (w_keys w))) = Some claims"
    and "exp_before claims (e_check_now E) = Inr False" and "audience_visible ctx key claims"
  shows "handle_introspect E issuer rq ctx w =
    (Inr (JObj (introspection_response claims)),
     w\<lparr>w_keys := snd (ctx_jwks_keys ctx issuer (w_keys w))\<rparr>)"
proof -
  have "authenticate_caller ctx (form_of rq) = Inr key"
    using assms(1) authenticate_caller_ok by blast
  with assms(2-5) show ?thesis
    by (auto simp: handle_introspect_def introspected_def audience_visible_def bindP_apply
        keysP_apply Let_def)
qed

lemma introspection_response_active: "dict_ok c \<Longrightarrow> introspection_response c \<noteq> [(''active'', JBool False)]"
  using dget_introspection_response [of c "''active''"]
  by (auto simp: introspect_pass_through_def)

lemma handle_introspect_cases:
  assumes "handle_introspect E issuer rq ctx w = (Inr r, w')"
  obtains key sp where "caller_presents ctx (form_of rq) key sp" and "introspected rq \<noteq> []"
    and "w' = w\<lparr>w_keys := snd (ctx_jwks_keys ctx issuer (w_keys w))\<rparr>"
    and "\<And>claims. verify_token (e_lib E) (introspected rq) (fst (ctx_jwks_keys ctx issuer (w_keys w))) =
           Some claims \<Longrightarrow> exp_before claims (e_check_now E) \<in> {Inr True, Inr False}"
    and "r = (case verify_token (e_lib E) (introspected rq) (fst (ctx_jwks_keys ctx issuer (w_keys w))) of
            None \<Rightarrow> inactive
          | Some claims \<Rightarrow>
              if exp_before claims (e_check_now E) = Inr True \<or> \<not> audience_visible ctx key claims
              then inactive else JObj (introspection_response claims))"
proof -
  obtain key where key: "authenticate_caller ctx (form_of rq) = Inr key"
    using assms by (cases "authenticate_caller ctx (form_of rq)") (auto simp: handle_introspect_def Let_def)
  then obtain sp where sp: "caller_presents ctx (form_of rq) key sp"
    using authenticate_caller_ok by blast
  let ?v = "verify_token (e_lib E) (introspected rq) (fst (ctx_jwks_keys ctx issuer (w_keys w)))"
  have t: "introspected rq \<noteq> []"
    using assms key by (auto simp: handle_introspect_def introspected_def Let_def)
  show ?thesis
  proof (cases ?v)
    case None
    with assms key t show ?thesis
      by (intro that [OF sp t]) (auto simp: handle_introspect_def introspected_def bindP_apply keysP_apply Let_def)
  next
    case (Some c)
    with assms key t show ?thesis
      by (intro that [OF sp t]; cases "exp_before c (e_check_now E)")
        (auto simp: handle_introspect_def introspected_def audience_visible_def bindP_apply
          keysP_apply Let_def split: if_splits)
  qed
qed

section \<open>Introspection\<close>

text \<open>
  C6: introspection reports a token active only to a caller that authenticated as a service
  principal, only if the token verifies against the issuer's published keys and has not expired,
  and, for a caller that is a registered resource application, only if the token is for it. The
  answer consists of the pass-through claims of the verified token and nothing else of it but
  \<open>azp\<close>, under the name \<open>client_id\<close>.
\<close>

theorem introspect_active_sound:
  assumes "handle_introspect E issuer rq ctx w = (Inr (JObj d), w')"
    and "dget d ''active'' = Some (JBool True)" and "jwt_lawful (e_lib E)"
  shows "\<exists>key sp claims. caller_presents ctx (form_of rq) key sp \<and>
    verify_token (e_lib E) (introspected rq) (fst (ctx_jwks_keys ctx issuer (w_keys w))) = Some claims \<and>
    exp_before claims (e_check_now E) = Inr False \<and> audience_visible ctx key claims \<and>
    (\<forall>k. dget d k =
       (if k \<in> introspect_pass_through \<and> dget claims k \<noteq> None then dget claims k
        else if k = ''client_id'' then dget claims ''azp''
        else if k = ''active'' then Some (JBool True)
        else if k = ''token_type'' then Some (JStr ''Bearer'') else None))"
  using assms(1)
proof (rule handle_introspect_cases)
  fix key sp
  let ?v = "verify_token (e_lib E) (introspected rq) (fst (ctx_jwks_keys ctx issuer (w_keys w)))"
  assume sp: "caller_presents ctx (form_of rq) key sp"
    and e: "\<And>claims. ?v = Some claims \<Longrightarrow> exp_before claims (e_check_now E) \<in> {Inr True, Inr False}"
    and r: "JObj d = (case ?v of None \<Rightarrow> inactive | Some claims \<Rightarrow>
        if exp_before claims (e_check_now E) = Inr True \<or> \<not> audience_visible ctx key claims
        then inactive else JObj (introspection_response claims))"
  have "JObj d \<noteq> inactive" using assms(2) by (auto simp: inactive_def)
  with r obtain claims where c: "?v = Some claims" "exp_before claims (e_check_now E) \<noteq> Inr True"
      "audience_visible ctx key claims" "d = introspection_response claims"
    by (auto split: option.splits if_splits)
  have "dict_ok claims" using verify_token_ok [OF assms(3) c(1)] by (simp add: claims_ok_def)
  with sp c e [OF c(1)] show ?thesis
    by (intro exI [of _ key] exI [of _ sp] exI [of _ claims])
      (simp add: dget_introspection_response)
qed


definition demo_introspection :: "string \<Rightarrow> request" where
  "demo_introspection tok = \<lparr>rq_form = [(''client_id'', ''ops''), (''client_secret'', ''root''), (''token'', tok)],
     rq_headers = []\<rparr>"

lemma demo_caller:
  "caller_presents demo_context (form_of (demo_introspection tok)) ''ops'' demo_admin_sp"
  "dget (form_of (demo_introspection tok)) ''token'' = Some tok"
  "introspected (demo_introspection tok) = py_strip (str_or (Some tok) [])"
  by (simp_all add: caller_presents_def demo_introspection_def form_of_def dict_of_def demo_context_def
      introspected_def) (simp add: demo_admin_sp_def new_sp_def str_or_def)

text \<open>A token is issued and introspected.\<close>

lemma demo_introspected:
  obtains r w1 tok d w2 where "token demo_env log_event ''acme'' demo_request demo_world = (Inr r, w1)"
    and "field_of r ''access_token'' = Some (JStr tok)"
    and "introspect demo_env log_event ''acme'' (demo_introspection tok) w1 =
          (Inr (JObj (introspection_response
             (credentials_claims demo_env ''acme'' demo_request ''svc'' demo_sp EntraId))), w2)"
proof -
  let ?c = "credentials_claims demo_env ''acme'' demo_request ''svc'' demo_sp EntraId"
  obtain r w1 tok where run: "token demo_env log_event ''acme'' demo_request demo_world = (Inr r, w1)"
      "field_of r ''access_token'' = Some (JStr tok)" "tok \<noteq> []" "py_strip tok = tok"
      "verify_token reference_jwt tok (fst (get_jwks_keys ''acme'' (w_keys w1))) = Some ?c"
    by (rule demo_run)
  have e: "exp_before ?c (e_check_now demo_env) = Inr False"
    by (subst exp_before_int [OF credentials_claims_exp [OF demo_serves]])
      (simp add: token_lifetime_def resolve_expiry_def)
  have "\<not> dhas (ctx_clients demo_context) ''ops''"
    by (simp add: demo_context_def demo_cfg_def demo_data_def config_init_def)
  then have "handle_introspect demo_env ''acme'' (demo_introspection tok) demo_context w1 =
      (Inr (JObj (introspection_response ?c)), w1\<lparr>w_keys := snd (get_jwks_keys ''acme'' (w_keys w1))\<rparr>)"
    using handle_introspect_active [OF demo_caller(1), of tok demo_env "''acme''" w1 ?c] run(3-5) e
    by (simp add: demo_caller(3) str_or_Some audience_visible_def)
  with run show ?thesis by (intro that) (auto simp: introspect_def demo_context_def)
qed

theorem introspect_active_sound_witness:
  "\<exists>w tok d w'. introspect demo_env log_event ''acme'' (demo_introspection tok) w = (Inr (JObj d), w') \<and>
    dget d ''active'' = Some (JBool True) \<and>
    (\<exists>key sp claims. caller_presents demo_context (form_of (demo_introspection tok)) key sp \<and>
      verify_token reference_jwt (introspected (demo_introspection tok))
        (fst (get_jwks_keys ''acme'' (w_keys w))) = Some claims \<and>
      dget d ''sub'' = dget claims ''sub'')"
proof -
  let ?c = "credentials_claims demo_env ''acme'' demo_request ''svc'' demo_sp EntraId"
  obtain r w1 tok d w2 where
    i: "introspect demo_env log_event ''acme'' (demo_introspection tok) w1 =
          (Inr (JObj (introspection_response ?c)), w2)"
    by (rule demo_introspected)
  have "dict_ok ?c" using credentials_claims_ok [OF demo_serves] by (simp add: claims_ok_def)
  then have a: "dget (introspection_response ?c) ''active'' = Some (JBool True)"
    by (simp add: dget_introspection_response introspect_pass_through_def)
  have run: "handle_introspect demo_env ''acme'' (demo_introspection tok) demo_context w1 =
      (Inr (JObj (introspection_response ?c)), w2)"
    using i by (simp add: introspect_def demo_context_def)
  have lib: "jwt_lawful (e_lib demo_env)" by (simp add: reference_jwt_lawful)
  obtain key sp claims where
    "caller_presents demo_context (form_of (demo_introspection tok)) key sp"
    and "verify_token reference_jwt (introspected (demo_introspection tok))
        (fst (get_jwks_keys ''acme'' (w_keys w1))) = Some claims"
    and "dget (introspection_response ?c) ''sub'' = dget claims ''sub''"
    using introspect_active_sound [OF run a lib] by (auto simp: introspect_pass_through_def)
  with i a show ?thesis by blast
qed


end
