(* ===== verification/Fixtures.thy ===== *)
theory Fixtures
  imports TokenProperties
begin

text \<open>
  The served request in full, and the negative fixtures: tokens with a wrong signature, without one,
  and with the algorithm-confusion signature.
\<close>

section \<open>Service\<close>



section \<open>The negative fixtures\<close>

text \<open>The fixtures' claims are those of an authenticated identity.\<close>

lemma fixture_claims_ok:
  assumes "fixture_claims E ctx issuer rq = Inr (c, alg)" and "identities_ok ctx"
  shows "claims_ok c"
proof (cases "dget (form_of rq) ''grant_type'' = Some ''password''")
  case True
  with assms(1) obtain key u where "authenticate_user ctx (form_of rq) = Inr (key, u)"
    "user_token_claims E ctx issuer (form_of rq) (headers_of rq) (resolve_aud (form_of rq)) (key, u)
       3600 (\<lambda>rs. rs) = Inr c"
    by (auto simp: fixture_claims_def bindE_eq_Inr Let_def)
  then show ?thesis
    using identities_ok_user [OF assms(2)]
    by (auto simp: authenticate_user_ok user_token_claims_ok any_provider.user_ok)
next
  case False
  with assms(1) obtain key sp where "authenticate_sp ctx (form_of rq) = Inr (key, sp)"
    "sp_token_claims E ctx issuer (form_of rq) (headers_of rq) (resolve_aud (form_of rq)) (key, sp)
       3600 (\<lambda>rs. rs) = Inr c"
    by (auto simp: fixture_claims_def bindE_eq_Inr Let_def)
  then show ?thesis
    using identities_ok_sp [OF assms(2)]
    by (auto simp: authenticate_sp_ok sp_token_claims_ok any_provider.service_ok)
qed

lemma fixture_response_token: "field_of (fixture_response tok) ''access_token'' = Some (JStr tok)"
  by (simp add: fixture_response_def field_of_def)

text \<open>
  C9: the wrong-signature fixture hands out a token that does not verify against the keys its issuer
  publishes, and it records nothing: no audit event and no webhook delivery.
\<close>

theorem wrong_sig_never_verifies:
  assumes "token_wrong_sig E wr issuer rq w = (Inr r, w')"
    and "jwt_lawful (e_lib E)" and "key_store_inv (w_keys w)"
  shows "\<exists>tok. field_of r ''access_token'' = Some (JStr tok) \<and>
    verify_token (e_lib E) tok (fst (get_jwks_keys issuer (w_keys w'))) = None \<and>
    w_audit w' = w_audit w \<and> w_posts w' = w_posts w"
proof -
  from assms(1) obtain c alg where "fixture_claims E (flat_context (e_cfg E) wr) issuer rq = Inr (c, alg)"
    by (cases "fixture_claims E (flat_context (e_cfg E) wr) issuer rq")
      (auto simp: token_wrong_sig_def handle_token_wrong_sig_def)
  moreover obtain k s where k: "get_alt_key_for_alg issuer alg (w_keys w) = (k, s)"
    by (cases "get_alt_key_for_alg issuer alg (w_keys w)")
  ultimately have "r = fixture_response (sign (e_lib E) c k)" "w' = w\<lparr>w_keys := s\<rparr>"
    using assms(1)
    by (auto simp: token_wrong_sig_def handle_token_wrong_sig_def bindP_apply keysP_apply)
  moreover have "verify_token (e_lib E) (sign (e_lib E) c k) (fst (get_jwks_keys issuer s)) = None"
    using global_keys.alt_token_rejected [OF assms(2,3) k] by (cases "get_jwks_keys issuer s") simp
  ultimately show ?thesis by (simp add: fixture_response_token)
qed

lemma demo_fixture:
  "\<exists>c. fixture_claims demo_env demo_context ''acme'' demo_request = Inr (c, ''RS256'') \<and>
     dget c ''sub'' = Some (JStr ''svc'')"
proof -
  have "authenticate_sp demo_context (form_of demo_request) = Inr (''svc'', demo_sp)"
    using demo_presents by (simp add: authenticate_sp_ok)
  moreover obtain c where c: "sp_token_claims demo_env demo_context ''acme'' (form_of demo_request)
      (headers_of demo_request) (resolve_aud (form_of demo_request)) (''svc'', demo_sp) 3600 (\<lambda>rs. rs) = Inr c"
    "dget c ''sub'' = Some (JStr ''svc'')"
    using demo_passed unfolding demo_aud
    by (auto simp: sp_token_claims_ok entra_id.service_sub)
  ultimately show ?thesis by (auto simp: fixture_claims_def)
qed

theorem wrong_sig_never_verifies_witness:
  "\<exists>r w' tok. token_wrong_sig demo_env log_event ''acme'' demo_request demo_world = (Inr r, w') \<and>
     field_of r ''access_token'' = Some (JStr tok) \<and>
     verify_token reference_jwt tok (fst (get_jwks_keys ''acme'' (w_keys w'))) = None"
proof -
  obtain c where "fixture_claims demo_env demo_context ''acme'' demo_request = Inr (c, ''RS256'')"
    using demo_fixture by blast
  then obtain r w' where run: "token_wrong_sig demo_env log_event ''acme'' demo_request demo_world = (Inr r, w')"
    by (auto simp: token_wrong_sig_def handle_token_wrong_sig_def demo_context_def bindP_apply keysP_apply)
  with wrong_sig_never_verifies [OF run] show ?thesis
    by (auto simp: reference_jwt_lawful demo_keys_inv)
qed

text \<open>
  The unsigned fixture's token has three segments; decoding the first gives the header with
  algorithm \<open>none\<close>, decoding the second the claims, and the signature is empty.
\<close>

lemma unsigned_token_readable:
  assumes "handle_token_unsigned E issuer rq ctx w = (Inr r, w')" and "identities_ok ctx"
  shows "\<exists>tok h p claims alg. field_of r ''access_token'' = Some (JStr tok) \<and>
    split_on CHR ''.'' tok = [h, p, []] \<and>
    read_segment h = Some (JObj [(''alg'', JStr ''none''), (''typ'', JStr ''JWT'')]) \<and>
    read_segment p = Some (JObj claims) \<and>
    fixture_claims E ctx issuer rq = Inr (claims, alg)"
proof -
  from assms(1) obtain c alg where f: "fixture_claims E ctx issuer rq = Inr (c, alg)"
    and r: "r = fixture_response (make_unsigned_token c)"
    by (cases "fixture_claims E ctx issuer rq") (auto simp: handle_token_unsigned_def)
  have "json_ok (JObj [(''alg'', JStr ''none''), (''typ'', JStr ''JWT'')])" by simp
  moreover have "json_ok (JObj c)" using fixture_claims_ok [OF f assms(2)] by simp
  ultimately show ?thesis
    using f by (auto simp: r fixture_response_token split_unsigned_token read_json_segment
        simp del: json_ok_JObj)
qed

lemma unsigned_token_readable_witness:
  "\<exists>r w' tok h p claims. handle_token_unsigned demo_env ''acme'' demo_request demo_context demo_world = (Inr r, w') \<and>
    field_of r ''access_token'' = Some (JStr tok) \<and> split_on CHR ''.'' tok = [h, p, []] \<and>
    read_segment p = Some (JObj claims) \<and> dget claims ''sub'' = Some (JStr ''svc'')"
proof -
  obtain c where c: "fixture_claims demo_env demo_context ''acme'' demo_request = Inr (c, ''RS256'')"
    "dget c ''sub'' = Some (JStr ''svc'')"
    using demo_fixture by blast
  then obtain r w' where run: "handle_token_unsigned demo_env ''acme'' demo_request demo_context demo_world = (Inr r, w')"
    by (auto simp: handle_token_unsigned_def)
  from unsigned_token_readable [OF run demo_identities] c show ?thesis
    using run by auto
qed

text \<open>
  The algorithm-confusion fixture's signature is the HMAC-SHA256 of header and payload under the
  PEM text of the issuer's published RSA key, so that a validator that trusts the header and takes
  that text as the secret accepts it; the signature segment decodes to 32 bytes.
\<close>

lemma wrong_alg_token_confuses:
  assumes "token_wrong_alg E wr issuer rq w = (Inr r, w')" and "key_store_inv (w_keys w)"
  shows "\<exists>tok h p sg k mac. field_of r ''access_token'' = Some (JStr tok) \<and>
    split_on CHR ''.'' tok = [h, p, sg] \<and>
    read_segment h = Some (JObj [(''alg'', JStr ''HS256''), (''typ'', JStr ''JWT'')]) \<and>
    k \<in> set (fst (get_jwks_keys issuer (w_keys w'))) \<and> jwk_kty k = RSA \<and>
    b64decode_segment sg = Some mac \<and> length mac = 32 \<and>
    mac = hmac_sha256 (jwk_public_pem (e_lib E) k) (h @ ''.'' @ p)"
proof -
  from assms(1) obtain c alg where f: "fixture_claims E (flat_context (e_cfg E) wr) issuer rq = Inr (c, alg)"
    by (cases "fixture_claims E (flat_context (e_cfg E) wr) issuer rq")
      (auto simp: token_wrong_alg_def handle_token_wrong_alg_def)
  obtain ik s where g: "key_get issuer (w_keys w) = (ik, s)" by (cases "key_get issuer (w_keys w)")
  have w': "r = fixture_response (make_wrong_alg_token c (jwk_public_pem (e_lib E) (ik_signing ik)))"
    "w' = w\<lparr>w_keys := s\<rparr>"
    using assms(1) f g
    by (auto simp: token_wrong_alg_def handle_token_wrong_alg_def bindP_apply keysP_apply
        get_signing_public_key_def)
  have "ik_signing ik \<in> set (fst (get_jwks_keys issuer s))"
    using key_get_idem [OF g] by (simp add: get_jwks_keys_def ik_jwks_keys_def)
  moreover have "jwk_kty (ik_signing ik) = RSA"
    using key_get_ok [OF assms(2) g] by (simp add: issuer_keys_ok_def has_key_def)
  moreover have "json_ok (JObj [(''alg'', JStr ''HS256''), (''typ'', JStr ''JWT'')])" by simp
  ultimately show ?thesis
    by (intro exI conjI) (auto simp: w' fixture_response_token split_wrong_alg_token read_json_segment
        b64decode_b64url simp del: json_ok_JObj)
qed

theorem wrong_alg_token_confuses_witness:
  "\<exists>r w' tok h p sg mac. token_wrong_alg demo_env log_event ''acme'' demo_request demo_world = (Inr r, w') \<and>
    field_of r ''access_token'' = Some (JStr tok) \<and> split_on CHR ''.'' tok = [h, p, sg] \<and>
    b64decode_segment sg = Some mac \<and> length mac = 32"
proof -
  obtain c where "fixture_claims demo_env demo_context ''acme'' demo_request = Inr (c, ''RS256'')"
    using demo_fixture by blast
  then obtain r w' where run: "token_wrong_alg demo_env log_event ''acme'' demo_request demo_world = (Inr r, w')"
    by (auto simp: token_wrong_alg_def handle_token_wrong_alg_def demo_context_def bindP_apply keysP_apply)
  have "key_store_inv (w_keys demo_world)" by (simp add: demo_keys_inv)
  from wrong_alg_token_confuses [OF run this] run show ?thesis by auto
qed

end
