(* ===== verification/Faults.thy ===== *)
theory Faults
  imports TokenProperties
begin

text \<open>
  The token endpoint under an injected fault, and key rotation seen from the verifier: what the
  faults do to the tokens handed out, and which tokens a rotation revokes.
\<close>

section \<open>Injected token faults\<close>

text \<open>A run of the flat endpoint that returned, with the token under the active fault.\<close>

lemma flat_run_token:
  fixes w w' :: "(key_store, 'a) world"
  assumes "token E wr issuer rq w = (Inr r, w')"
    and "jwt_lawful (e_lib E)" and "key_store_inv (w_keys w)"
    and "identities_ok (flat_context (e_cfg E) wr)"
  obtains tok c alg k where "field_of r ''access_token'' = Some (JStr tok)" and "claims_ok c"
    and "key_store_inv k" and "key_store_inv (w_keys w')"
    and "issued_token E c (get_fault issuer (w_faults w)) (flat_context (e_cfg E) wr) alg issuer k =
          (tok, w_keys w')"
  using assms(1) unfolding token_def
proof (rule handle_token_InrE)
  fix g claims alg and w1 :: "(key_store, 'a) world"
  let ?ctx = "flat_context (e_cfg E) wr"
  let ?c = "omit claims (dget (headers_of rq) ''x-omit-claims'')"
  let ?t = "issued_token E ?c (get_fault issuer (w_faults w)) ?ctx alg issuer (w_keys w1)"
  assume c: "grant_claims E ?ctx issuer (form_of rq) (headers_of rq) g w = (Inr (claims, alg), w1)"
    and res: "let c = ?c; t = issued_token E c (get_fault issuer (w_faults w)) ?ctx alg issuer (w_keys w1)
      in grant_response E (form_of rq) g (fst t, c) = Inr r \<and>
         w' = emit_event E ''token_issued'' issuer g c ?ctx (w1\<lparr>w_keys := snd t\<rparr>)"
  have inv: "key_store_inv (w_keys w1)"
    using grant_claims_keys [OF c] global_keys.jwks_inv [OF assms(3), of issuer] assms(3) by auto
  have ok: "claims_ok ?c" using grant_claims_ok [OF c assms(2,4)] by simp
  have gr: "grant_response E (form_of rq) g (fst ?t, ?c) = Inr r" and w': "w_keys w' = snd ?t"
    using res by (simp_all add: Let_def)
  have "key_store_inv (snd ?t)"
    by (rule global_keys.issued_token_inv [OF inv]) simp_all
  with that [OF response_fields(1) [OF gr] ok inv] w' show ?thesis by simp
qed


text \<open>
  While the fault \<open>expired_token\<close> is set, every token handed out verifies, but with an expiry
  moved to the signing time plus the skew: the introspection endpoint reports it inactive from then on.
\<close>

lemma fault_expired_token:
  assumes "token E wr issuer rq w = (Inr r, w')" and "get_fault issuer (w_faults w) = Some f"
    and "f_mode f = ''expired_token''" and "f_skew_seconds f = Some skew"
    and "jwt_lawful (e_lib E)" and "key_store_inv (w_keys w)"
    and "identities_ok (flat_context (e_cfg E) wr)"
  shows "\<exists>tok claims. field_of r ''access_token'' = Some (JStr tok) \<and>
    verify_token (e_lib E) tok (fst (get_jwks_keys issuer (w_keys w'))) = Some claims \<and>
    (\<forall>now. exp_before claims now = Inr (e_sign_now E + skew < now))"
  using assms(1,5-7)
proof (rule flat_run_token)
  fix tok c alg k
  assume tok: "field_of r ''access_token'' = Some (JStr tok)" and inv: "key_store_inv k" and c: "claims_ok c"
    and t: "issued_token E c (get_fault issuer (w_faults w)) (flat_context (e_cfg E) wr) alg issuer k =
          (tok, w_keys w')"
  have "verify_token (e_lib E) tok (fst (get_jwks_keys issuer (w_keys w'))) =
      Some (dset c ''exp'' (JInt (e_sign_now E + skew)))"
    by (rule global_keys.expired_token_claims [OF assms(5) inv c assms(3,4) flat_context_keys(1)
          t [unfolded assms(2)]])
  with tok show ?thesis by (simp add: exp_before_int)
qed

definition demo_fault :: "string \<Rightarrow> fault" where
  "demo_fault m = \<lparr>f_mode = m, f_probability = Some 1, f_value = Some 2000, f_skew_seconds = Some (-3600)\<rparr>"

definition demo_faulty :: "string \<Rightarrow> (key_store, claims list) world" where
  "demo_faulty m = demo_world\<lparr>w_faults := [(''acme'', demo_fault m)]\<rparr>"

lemma demo_faulty_run:
  assumes "m \<in> {''invalid_signature'', ''expired_token''}"
  shows "\<exists>r w'. token demo_env log_event ''acme'' demo_request (demo_faulty m) = (Inr r, w')"
proof -
  have "serves_principal demo_env (flat_context (e_cfg demo_env) log_event) ''acme'' demo_request
      (demo_faulty m) ''svc'' demo_sp EntraId"
    using demo_serves assms
    by (auto simp: serves_principal_def demo_faulty_def demo_context_def apply_pre_def get_fault_def
        demo_fault_def)
  from credentials_run [OF this] show ?thesis by (auto simp: token_def)
qed

lemma demo_faulty_simps [simp]:
  "w_keys (demo_faulty m) = demo_keys" "get_fault ''acme'' (w_faults (demo_faulty m)) = Some (demo_fault m)"
  by (simp_all add: demo_faulty_def get_fault_def)

lemma demo_flat_identities: "identities_ok (flat_context (e_cfg demo_env) log_event)"
  "identities_ok (flat_context demo_cfg log_event)"
  using demo_identities by (simp_all add: demo_context_def)


theorem fault_expired_token_witness:
  "\<exists>r w' tok claims. token demo_env log_event ''acme'' demo_request (demo_faulty ''expired_token'') = (Inr r, w') \<and>
     field_of r ''access_token'' = Some (JStr tok) \<and>
     verify_token reference_jwt tok (fst (get_jwks_keys ''acme'' (w_keys w'))) = Some claims \<and>
     exp_before claims 1000 = Inr True"
proof -
  obtain r w' where run: "token demo_env log_event ''acme'' demo_request (demo_faulty ''expired_token'') = (Inr r, w')"
    using demo_faulty_run by blast
  from fault_expired_token [OF run demo_faulty_simps(2), of "-3600"] run show ?thesis
    by (auto simp: demo_fault_def reference_jwt_lawful demo_keys_inv demo_flat_identities)
qed

section \<open>Rotation\<close>

lemma rotate_effect:
  assumes "key_store_inv s" and "rotate_issuer i s = (k, s')"
  shows "\<exists>old new. fst (key_get i s) = old \<and> dget (ks_stores s') i = Some new \<and>
    ik_signing new = k \<and> jwk_kid k = kid_prefix i @ ''-'' @ int_str (ik_seq old + 1) \<and>
    k \<in> set (fst (get_jwks_keys i s')) \<and>
    jwk_material (ik_signing old) \<notin> jwk_material ` set (fst (get_jwks_keys i s')) \<and>
    ik_ec_signing new = ik_ec_signing old \<and> ik_decoys new = ik_decoys old \<and>
    (\<forall>j. j \<noteq> i \<longrightarrow> dget (ks_stores s') j = dget (ks_stores s) j)"
proof -
  obtain old s1 where get: "key_get i s = (old, s1)" by (cases "key_get i s")
  have inv1: "key_store_inv s1" by (rule key_get_inv [OF assms(1) get])
  have ok: "issuer_keys_ok i old" by (rule key_get_ok [OF assms(1) get])
  have old: "set (ik_materials old) \<subseteq> drawn_materials s1"
    by (rule key_store_invD(2) [OF inv1 key_get_stored [OF get]])
  have new: "ks_gen s1 (ks_drawn s1) \<notin> drawn_materials s1"
    using inv1 by (intro fresh_material) (simp_all add: key_store_inv_def)
  let ?new = "fst (ik_rotate old s1)"
  have k: "k = ik_signing ?new"
    "s' = s1\<lparr>ks_drawn := Suc (ks_drawn s1), ks_stores := dset (ks_stores s1) i ?new\<rparr>"
    using assms(2) rotate_issuer_eq [OF get] by simp_all
  have jw: "fst (get_jwks_keys i s') = ik_jwks_keys ?new"
    using get_jwks_keys_hit [of s' i ?new] k(2) by simp
  have "jwk_material (ik_signing old) \<noteq> ks_gen s1 (ks_drawn s1)"
    using old new by (auto simp: ik_materials_def ik_keys_def)
  moreover have "jwk_material (ik_signing old) \<notin> jwk_material ` set (ik_decoys old)"
      "jwk_material (ik_signing old) \<noteq> jwk_material (ik_ec_signing old)"
    using ok by (auto simp: issuer_keys_ok_def ik_materials_def ik_keys_def)
  ultimately have gone: "jwk_material (ik_signing old) \<notin> jwk_material ` set (ik_jwks_keys ?new)"
    by (auto simp: ik_jwks_keys_def ik_rotate_eq)
  have "ik_issuer old = i" using ok by (simp add: issuer_keys_ok_def)
  then show ?thesis
    using get k gone jw key_get_other [OF get]
    by (intro exI [of _ old] exI [of _ ?new]) (auto simp: ik_rotate_eq ik_jwks_keys_def)
qed

text \<open>
  Rotating an issuer replaces its RSA signing key: the new key is published, the old one no
  longer is, the sequence number in the key id goes up by one, the EC signing key and the decoys
  stay, and the keys of every other issuer are untouched.
\<close>

lemma rotate_issuer_effect:
  assumes "key_store_inv s" and "rotate_issuer i s = (k, s')"
  shows "\<exists>old new. fst (key_get i s) = old \<and> dget (ks_stores s') i = Some new \<and>
    ik_signing new = k \<and> jwk_kid k = kid_prefix i @ ''-'' @ int_str (ik_seq old + 1) \<and>
    k \<in> set (fst (get_jwks_keys i s')) \<and>
    jwk_material (ik_signing old) \<notin> jwk_material ` set (fst (get_jwks_keys i s')) \<and>
    ik_ec_signing new = ik_ec_signing old \<and> ik_decoys new = ik_decoys old \<and>
    (\<forall>j. j \<noteq> i \<longrightarrow> dget (ks_stores s') j = dget (ks_stores s) j)"
  by (rule rotate_effect [OF assms])

theorem rotate_issuer_effect_witness:
  "\<exists>k s' old. rotate_issuer ''acme'' demo_keys = (k, s') \<and> fst (key_get ''acme'' demo_keys) = old \<and>
     jwk_kid k = ''mock-acme-2'' \<and>
     jwk_material (ik_signing old) \<notin> jwk_material ` set (fst (get_jwks_keys ''acme'' s'))"
proof -
  obtain k s' where r: "rotate_issuer ''acme'' demo_keys = (k, s')"
    by (cases "rotate_issuer ''acme'' demo_keys")
  have "int_str (1 + 1) = ''2''" by code_simp
  moreover have "ik_seq (fst (key_get ''acme'' demo_keys)) = 1"
    by (simp add: key_get_miss demo_keys_def bundle_at_def)
  ultimately show ?thesis
    using rotate_issuer_effect [OF demo_keys_inv r] r by (auto simp: kid_prefix_def)
qed

text \<open>
  C11: rotation revokes: a token signed with the RSA key in force does not verify against the keys
  published after the rotation, however often other keys are read in between; one signed with the
  EC key still does.
\<close>

theorem rotation_revokes_rsa:
  assumes "jwt_lawful L" and "key_store_inv s" and "claims_ok c"
    and "get_signing_key_for_alg i alg s = (key, s1)" and "rotate_issuer i s1 = (k, s2)"
  shows "verify_token L (sign L c key) (fst (get_jwks_keys i s2)) = (if alg = ''ES256'' then Some c else None)"
proof -
  obtain ik where g: "key_get i s = (ik, s1)" and key: "key = ik_signing_key_for_alg ik alg"
    using assms(4) by (auto simp: get_signing_key_for_alg_eq)
  have inv1: "key_store_inv s1" by (rule key_get_inv [OF assms(2) g])
  have inv2: "key_store_inv s2" by (rule rotate_issuer_inv [OF inv1 assms(5)])
  from rotate_effect [OF inv1 assms(5)] key_get_idem [OF g] obtain new where
    new: "dget (ks_stores s2) i = Some new" "ik_ec_signing new = ik_ec_signing ik"
      "jwk_material (ik_signing ik) \<notin> jwk_material ` set (fst (get_jwks_keys i s2))"
    by auto
  have "distinct (map jwk_kid (fst (get_jwks_keys i s2)))" by (rule global_keys.kids_distinct [OF inv2])
  moreover have "ik_ec_signing ik \<in> set (fst (get_jwks_keys i s2))"
    using new(1,2) by (simp add: get_jwks_keys_hit ik_jwks_keys_def)
  ultimately show ?thesis
    using verify_signed [OF assms(1,3)] verify_foreign [OF assms(1) new(3)] key
    by (simp add: ik_signing_key_for_alg_def)
qed

theorem rotation_revokes_rsa_witness:
  "\<exists>key s1 k s2. get_signing_key_for_alg ''acme'' ''RS256'' demo_keys = (key, s1) \<and>
     rotate_issuer ''acme'' s1 = (k, s2) \<and>
     verify_token reference_jwt (sign reference_jwt [(''sub'', JStr ''svc'')] key)
       (fst (get_jwks_keys ''acme'' s2)) = None"
proof -
  obtain key s1 k s2 where g: "get_signing_key_for_alg ''acme'' ''RS256'' demo_keys = (key, s1)"
    and r: "rotate_issuer ''acme'' s1 = (k, s2)"
    by (metis surj_pair)
  have "claims_ok [(''sub'', JStr ''svc'')]" by (simp add: claims_ok_def dict_ok_def)
  from rotation_revokes_rsa [OF reference_jwt_lawful demo_keys_inv this g r] g r show ?thesis by auto
qed

end
