(* ===== verification/Database.thy ===== *)
theory Database
  imports JsonText "HOL-Library.List_Lexorder" "HOL-Library.Char_ord"
begin

text \<open>
  The Postgres tables the program reads and writes (created by the migrations under
  \<open>alembic/versions/\<close>) and the meaning of the SQL statements in \<open>store/pg_store.py\<close> and
  \<open>org_registry.py\<close>. The rows carry the columns the statements name. The server is outside the
  program: which statements fail (\<open>db_fails\<close>, by position), how a \<open>JSONB\<close> cast rewrites a text
  (\<open>db_jsonb\<close>) and the timestamps are fields of the database, about which nothing is assumed but
  \<open>jsonb_lawful\<close> where a property needs it. A failing statement leaves the tables as they were.
\<close>

section \<open>JSON up to the order of members\<close>

text \<open>\<open>JSONB\<close> keeps the value but not the order of an object's members.\<close>

fun canon :: "json \<Rightarrow> json" where
  "canon (JList xs) = JList (map canon xs)"
| "canon (JObj kvs) = JObj (sort_key fst (map (\<lambda>(k, v). (k, canon v)) kvs))"
| "canon v = v"

lemma dget_sort_key:
  assumes "dict_ok d"
  shows "dget (sort_key fst d) = dget d"
proof (rule map_of_inject_set [THEN iffD2])
  show "distinct (map fst d)" using assms by (simp add: dict_ok_def)
  then show "distinct (map fst (sort_key fst d))"
    by (metis distinct_map distinct_sort set_sort)
qed simp

lemma dget_map_canon: "dget (map (\<lambda>(k, v). (k, canon v)) d) k = map_option canon (dget d k)"
  by (induction d) auto

text \<open>Equal canonical forms: the same members, each with the same canonical form.\<close>

lemma canon_dget:
  assumes "canon (JObj d) = canon (JObj e)" and "dict_ok d" and "dict_ok e"
  shows "map_option canon (dget d k) = map_option canon (dget e k)"
proof -
  have "dget (sort_key fst (map (\<lambda>(k, v). (k, canon v)) f)) k = map_option canon (dget f k)"
    if "dict_ok f" for f
  proof -
    have "dict_ok (map (\<lambda>(k, v). (k, canon v)) f)"
      using that by (simp add: dict_ok_def comp_def case_prod_unfold)
    then show ?thesis by (simp add: dget_sort_key dget_map_canon)
  qed
  from this [OF assms(2)] this [OF assms(3)] assms(1) show ?thesis by simp
qed

lemma canon_eq_simps [simp]:
  "canon v = JInt i \<longleftrightarrow> v = JInt i" "canon v = JStr s \<longleftrightarrow> v = JStr s"
  "JInt i = canon v \<longleftrightarrow> v = JInt i" "JStr s = canon v \<longleftrightarrow> v = JStr s"
  "canon v = JNull \<longleftrightarrow> v = JNull" "canon v = JBool b \<longleftrightarrow> v = JBool b"
  by (cases v; auto)+

lemma canon_obj: "canon v = canon (JObj d) \<Longrightarrow> \<exists>e. v = JObj e"
  by (cases v) auto

lemma canon_list: "canon v = JList xs \<Longrightarrow> \<exists>ys. v = JList ys \<and> map canon ys = xs"
  by (cases v) auto

section \<open>Rows\<close>

text \<open>
  A \<open>JSONB\<close> column as the driver hands it out: the text by default, a dictionary when a codec is
  installed.
\<close>

datatype jsonb = JsonbNull | JsonbText string | JsonbDict "(string, json) dict"

record cfg_row =
  cr_auth_mode :: string
  cr_admin_token :: string
  cr_cors_allow_origins :: "string list option"
  cr_issuer_modes :: jsonb

record user_row =
  ur_username :: string
  ur_tid :: string
  ur_password :: string
  ur_upn :: "string option"
  ur_preferred_username :: "string option"
  ur_oid :: string
  ur_token_version :: string
  ur_token_lifetime_seconds :: int
  ur_roles :: "string list option"
  ur_groups :: "string list option"
  ur_allowed_audiences :: "string list option"
  ur_extra_claims :: jsonb

record sp_row =
  sr_name :: string
  sr_tid :: string
  sr_client_id :: "string option"
  sr_secret :: string
  sr_label :: "string option"
  sr_token_version :: string
  sr_token_lifetime_seconds :: int
  sr_roles :: "string list option"
  sr_groups :: "string list option"
  sr_allowed_audiences :: "string list option"
  sr_extra_claims :: jsonb
  sr_override_any_claim :: bool
  sr_override_iss_too :: bool

record app_row =
  ar_audience :: string
  ar_app_id :: "string option"
  ar_label :: "string option"
  ar_roles :: "string list option"
  ar_grants :: jsonb

record event_row =
  te_id :: int
  te_org_id :: string
  te_issuer :: string
  te_grant_type :: string
  te_sub :: string
  te_aud :: "string option"
  te_iat :: int
  te_exp :: int
  te_jti :: "string option"
  te_raw_claims :: jsonb
  te_created_at :: string

record org_row =
  og_org_id :: string
  og_slug :: string
  og_tier :: string
  og_api_key_hash :: "string option"

section \<open>The database\<close>

record database =
  db_app_config :: "(string, cfg_row) dict"
  db_tenants :: "(string \<times> string, string) dict"
  db_users :: "(string \<times> user_row) list"
  db_service_principals :: "(string \<times> sp_row) list"
  db_client_apps :: "(string \<times> app_row) list"
  db_token_events :: "event_row list"
  db_next_event :: int
  db_orgs :: "org_row list"
  db_org_jwks :: "(string \<times> string, string) dict"
  db_statements :: nat
  db_fails :: "nat \<Rightarrow> bool"
  db_jsonb :: "string \<Rightarrow> string option"
  db_timestamp :: "nat \<Rightarrow> string"

type_synonym 'r sql = "(py_exn, database, 'r) prog"

abbreviation driver_error :: py_exn where
  "driver_error \<equiv> LibraryError ''asyncpg''"

text \<open>One statement: it counts, and either fails or does its work.\<close>

definition statement :: "'r sql \<Rightarrow> 'r sql" where
  "statement f db =
     (let db' = db\<lparr>db_statements := Suc (db_statements db)\<rparr>
      in if db_fails db (db_statements db) then (Inl driver_error, db') else f db')"

text \<open>What the server promises of a \<open>JSONB\<close> cast: the value stays, up to the order of members.\<close>

definition jsonb_lawful :: "(string \<Rightarrow> string option) \<Rightarrow> bool" where
  "jsonb_lawful J =
     (\<forall>s t v. J s = Some t \<longrightarrow> loads s = Some v \<longrightarrow> (\<exists>w. loads t = Some w \<and> canon w = canon v))"

lemma jsonb_lawful_id: "jsonb_lawful Some"
  by (simp add: jsonb_lawful_def)

lemma jsonb_lawfulD:
  "jsonb_lawful J \<Longrightarrow> J s = Some t \<Longrightarrow> loads s = Some v \<Longrightarrow> \<exists>w. loads t = Some w \<and> canon w = canon v"
  unfolding jsonb_lawful_def by blast

section \<open>The identity queries\<close>

definition select_config :: "string \<Rightarrow> cfg_row option sql" where
  "select_config org = statement (getsP (\<lambda>db. dget (db_app_config db) org))"

text \<open>
  The inner joins with \<open>tenants\<close>, which add the tenant's provider; without an \<open>ORDER BY\<close>, the rows
  come in the order of the tables.
\<close>

definition org_users :: "string \<Rightarrow> database \<Rightarrow> (user_row \<times> string) list" where
  "org_users org db =
     [(u, p). (o', u) \<leftarrow> db_users db, o' = org,
              ((q, tid), p) \<leftarrow> db_tenants db, q = org \<and> tid = ur_tid u]"

definition org_service_principals :: "string \<Rightarrow> database \<Rightarrow> (sp_row \<times> string) list" where
  "org_service_principals org db =
     [(s, p). (o', s) \<leftarrow> db_service_principals db, o' = org,
              ((q, tid), p) \<leftarrow> db_tenants db, q = org \<and> tid = sr_tid s]"

definition org_client_apps :: "string \<Rightarrow> database \<Rightarrow> app_row list" where
  "org_client_apps org db = [a. (o', a) \<leftarrow> db_client_apps db, o' = org]"

definition select_users :: "string \<Rightarrow> (user_row \<times> string) list sql" where
  "select_users org = statement (getsP (org_users org))"

definition select_service_principals :: "string \<Rightarrow> (sp_row \<times> string) list sql" where
  "select_service_principals org = statement (getsP (org_service_principals org))"

definition select_client_apps :: "string \<Rightarrow> app_row list sql" where
  "select_client_apps org = statement (getsP (org_client_apps org))"

lemma org_tables_counter [simp]:
  "org_users org (db\<lparr>db_statements := n\<rparr>) = org_users org db"
  "org_service_principals org (db\<lparr>db_statements := n\<rparr>) = org_service_principals org db"
  "org_client_apps org (db\<lparr>db_statements := n\<rparr>) = org_client_apps org db"
  by (simp_all add: org_users_def org_service_principals_def org_client_apps_def cong: if_cong)

section \<open>The audit log\<close>

text \<open>The id and the timestamp are the server's.\<close>

definition insert_token_event ::
  "string \<Rightarrow> string \<Rightarrow> string \<Rightarrow> string \<Rightarrow> string option \<Rightarrow> int \<Rightarrow> int \<Rightarrow> string option \<Rightarrow> string \<Rightarrow> unit sql" where
  "insert_token_event org issuer grant_type sub aud iat exp jti raw = statement (\<lambda>db.
     case db_jsonb db raw of
       None \<Rightarrow> (Inl driver_error, db)
     | Some text \<Rightarrow>
         (Inr (), db\<lparr>db_token_events := db_token_events db @
            [\<lparr>te_id = db_next_event db, te_org_id = org, te_issuer = issuer, te_grant_type = grant_type,
              te_sub = sub, te_aud = aud, te_iat = iat, te_exp = exp, te_jti = jti,
              te_raw_claims = JsonbText text, te_created_at = db_timestamp db (db_statements db)\<rparr>],
          db_next_event := db_next_event db + 1\<rparr>))"

definition select_events :: "string \<Rightarrow> int \<Rightarrow> nat \<Rightarrow> event_row list sql" where
  "select_events org cursor n = statement (getsP (\<lambda>db.
     take n (sort_key te_id (filter (\<lambda>r. te_org_id r = org \<and> cursor < te_id r) (db_token_events db)))))"

section \<open>Organisations and their keys\<close>

definition select_orgs :: "org_row list sql" where
  "select_orgs = statement (getsP db_orgs)"

text \<open>\<open>org_id\<close> is the primary key, \<open>slug\<close> is unique.\<close>

definition insert_org :: "org_row \<Rightarrow> unit sql" where
  "insert_org r = statement (\<lambda>db.
     if \<exists>s \<in> set (db_orgs db). og_org_id s = og_org_id r \<or> og_slug s = og_slug r
     then (Inl driver_error, db)
     else (Inr (), db\<lparr>db_orgs := db_orgs db @ [r]\<rparr>))"

text \<open>\<open>ON CONFLICT (org_id) DO NOTHING\<close>.\<close>

definition insert_app_config :: "string \<Rightarrow> cfg_row \<Rightarrow> unit sql" where
  "insert_app_config org r = statement (\<lambda>db.
     (Inr (), if dhas (db_app_config db) org then db
              else db\<lparr>db_app_config := dset (db_app_config db) org r\<rparr>))"

text \<open>\<open>org_jwks\<close> goes with its organisation (\<open>ON DELETE CASCADE\<close>); the result is the row count.\<close>

definition delete_org :: "string \<Rightarrow> nat sql" where
  "delete_org slug = statement (\<lambda>db.
     let gone = filter (\<lambda>r. og_slug r = slug) (db_orgs db) in
     (Inr (length gone),
      db\<lparr>db_orgs := filter (\<lambda>r. og_slug r \<noteq> slug) (db_orgs db),
         db_org_jwks := filter (\<lambda>((org, i), t). org \<notin> og_org_id ` set gone) (db_org_jwks db)\<rparr>))"

definition select_key_data :: "string \<Rightarrow> string \<Rightarrow> string option sql" where
  "select_key_data org issuer = statement (getsP (\<lambda>db. dget (db_org_jwks db) (org, issuer)))"

text \<open>The upsert; the organisation must exist (a foreign key).\<close>

definition upsert_key_data :: "string \<Rightarrow> string \<Rightarrow> string \<Rightarrow> unit sql" where
  "upsert_key_data org issuer raw = statement (\<lambda>db.
     case db_jsonb db raw of
       None \<Rightarrow> (Inl driver_error, db)
     | Some text \<Rightarrow>
         if org \<notin> og_org_id ` set (db_orgs db) then (Inl driver_error, db)
         else (Inr (), db\<lparr>db_org_jwks := dset (db_org_jwks db) (org, issuer) text\<rparr>))"

section \<open>Frames\<close>

text \<open>Reading changes the statement counter only.\<close>

definition same_tables :: "database \<Rightarrow> database \<Rightarrow> bool" where
  "same_tables db db' = (\<exists>n. db' = db\<lparr>db_statements := n\<rparr>)"

lemma same_tables_refl [simp]: "same_tables db db"
  unfolding same_tables_def by (rule exI [of _ "db_statements db"]) simp

lemma same_tables_trans: "same_tables a b \<Longrightarrow> same_tables b c \<Longrightarrow> same_tables a c"
  by (auto simp: same_tables_def)

lemma same_tables_simps:
  assumes "same_tables db db'"
  shows "db_app_config db' = db_app_config db" "db_tenants db' = db_tenants db"
    "db_users db' = db_users db" "db_service_principals db' = db_service_principals db"
    "db_client_apps db' = db_client_apps db" "db_token_events db' = db_token_events db"
    "db_next_event db' = db_next_event db" "db_orgs db' = db_orgs db"
    "db_org_jwks db' = db_org_jwks db" "db_fails db' = db_fails db" "db_jsonb db' = db_jsonb db"
  using assms by (auto simp: same_tables_def)

lemma statement_gets: "statement (getsP g) db = (r, db') \<Longrightarrow> same_tables db db'"
  by (auto simp: statement_def same_tables_def Let_def split: if_splits)

lemma statement_gets_InrD: "statement (getsP g) db = (Inr x, db') \<Longrightarrow> x = g db'"
  by (simp add: statement_def Let_def split: if_splits) blast

text \<open>A database on which no statement fails, and what a read gives there.\<close>

definition db_healthy :: "database \<Rightarrow> bool" where
  "db_healthy db = (\<forall>n. \<not> db_fails db n)"

lemma statement_healthy:
  "db_healthy db \<Longrightarrow> statement f db = f (db\<lparr>db_statements := Suc (db_statements db)\<rparr>)"
  by (simp add: statement_def db_healthy_def Let_def)

end
