(* ===== verification/PgStore.thy ===== *)
theory PgStore
  imports Config Database
begin

text \<open>
  \<open>store/pg_store.py\<close>: the Postgres backend of one organisation. The identity cache is refreshed from
  four queries, in place and in the order of the code: the scalars and issuer modes first, then, once
  every row has been validated, the tables. The audit log is written row by row and read by pages.
\<close>

section \<open>State\<close>

record pg_store =
  pg_data :: store_data
  pg_org_id :: string
  pg_pool :: bool   \<comment> \<open>whether the connection pool exists\<close>

definition pg_init :: "os_env \<Rightarrow> bool \<Rightarrow> py_exn + pg_store" where
  "pg_init os installed =
     (if \<not> installed
      then Inl (ImportError (''asyncpg is required for the Postgres backend. '' @
                             ''Install it with:  uv sync --extra postgres''))
      else Inr \<lparr>pg_data = initial_store, pg_org_id = getenv os ''MOCK_IDP_ORG_ID'' ''default'',
                pg_pool = False\<rparr>)"

section \<open>From rows to records\<close>

definition parse_jsonb :: "jsonb \<Rightarrow> py_exn + json" where
  "parse_jsonb v =
     (case v of
        JsonbNull \<Rightarrow> Inr (JObj [])
      | JsonbText s \<Rightarrow> (case loads s of None \<Rightarrow> Inl (ValueError ''JSONDecodeError'') | Some x \<Rightarrow> Inr x)
      | JsonbDict d \<Rightarrow> Inr (JObj (dict_of d)))"

text \<open>\<open>list(v or [])\<close>.\<close>

definition list_or :: "string list option \<Rightarrow> string list \<Rightarrow> string list" where
  "list_or v dflt = (case v of None \<Rightarrow> dflt | Some xs \<Rightarrow> if xs = [] then dflt else xs)"

definition validation_error :: "string \<Rightarrow> py_exn" where
  "validation_error m = ValueError m"

text \<open>A field declared \<open>dict[str, Any]\<close>, and one declared \<open>dict[str, list[str]]\<close>.\<close>

definition dict_field :: "json \<Rightarrow> py_exn + claims" where
  "dict_field v =
     (case v of JObj d \<Rightarrow> Inr d | _ \<Rightarrow> Inl (validation_error ''Input should be a valid dictionary''))"

fun strings_field :: "json \<Rightarrow> string list option" where
  "strings_field (JList xs) =
     (if list_all (\<lambda>x. case x of JStr _ \<Rightarrow> True | _ \<Rightarrow> False) xs
      then Some (map (\<lambda>x. case x of JStr s \<Rightarrow> s | _ \<Rightarrow> []) xs) else None)"
| "strings_field _ = None"

fun grants_members :: "(string \<times> json) list \<Rightarrow> py_exn + (string \<times> string list) list" where
  "grants_members [] = Inr []"
| "grants_members ((k, v) # d) =
     (case strings_field v of
        None \<Rightarrow> Inl (validation_error ''Input should be a valid list of strings'')
      | Some xs \<Rightarrow> bindE (grants_members d) (\<lambda>d'. Inr ((k, xs) # d')))"

definition grants_field :: "json \<Rightarrow> py_exn + (string, string list) dict" where
  "grants_field v = bindE (dict_field v) grants_members"

definition checked :: "string + 'a \<Rightarrow> py_exn + 'a" where
  "checked r = (case r of Inl m \<Rightarrow> Inl (validation_error m) | Inr x \<Rightarrow> Inr x)"

text \<open>The records the loops build. The columns have no \<open>signing_alg\<close> and no realm roles.\<close>

definition user_of_row :: "user_row \<Rightarrow> string \<Rightarrow> py_exn + user_record" where
  "user_of_row r provider =
     bindE (parse_jsonb (ur_extra_claims r)) (\<lambda>extra.
     bindE (checked (user_valid_version (ur_token_version r))) (\<lambda>v.
     bindE (dict_field extra) (\<lambda>claims.
     Inr ((new_user (coerce_password (JStr (ur_password r))))
            \<lparr>u_upn := ur_upn r, u_preferred_username := ur_preferred_username r, u_oid := ur_oid r,
             id_tid := ur_tid r, id_token_version := v,
             id_token_lifetime_seconds := ur_token_lifetime_seconds r,
             id_roles := list_or (ur_roles r) [], id_groups := list_or (ur_groups r) [],
             id_allowed_audiences := list_or (ur_allowed_audiences r) [],
             id_extra_claims := claims, id_provider := provider\<rparr>))))"

definition sp_of_row :: "sp_row \<Rightarrow> string \<Rightarrow> py_exn + sp_record" where
  "sp_of_row r provider =
     bindE (parse_jsonb (sr_extra_claims r)) (\<lambda>extra.
     bindE (checked (sp_valid_version (sr_token_version r))) (\<lambda>v.
     bindE (dict_field extra) (\<lambda>claims.
     let sp = (new_sp (coerce_secret (JStr (sr_secret r))))
            \<lparr>sp_client_id := sr_client_id r, sp_label := sr_label r, id_token_version := v,
             id_token_lifetime_seconds := sr_token_lifetime_seconds r,
             id_roles := list_or (sr_roles r) [], id_groups := list_or (sr_groups r) [],
             id_tid := sr_tid r, id_allowed_audiences := list_or (sr_allowed_audiences r) [],
             id_extra_claims := claims, sp_override_any_claim := sr_override_any_claim r,
             sp_override_iss_too := sr_override_iss_too r,
             sp_name := sr_name r, id_provider := provider\<rparr>
     in Inr (sp\<lparr>sp_canonical_id := canonical_of sp (sr_name r)\<rparr>))))"

definition app_of_row :: "app_row \<Rightarrow> py_exn + client_app" where
  "app_of_row r =
     bindE (parse_jsonb (ar_grants r)) (\<lambda>g.
     bindE (grants_field g) (\<lambda>grants.
     Inr \<lparr>app_id = ar_app_id r, app_label = ar_label r, app_roles = list_or (ar_roles r) [],
          app_grants = grants\<rparr>))"

section \<open>Refreshing the cache\<close>

record pg_rows =
  pr_cfg :: "cfg_row option"
  pr_users :: "(user_row \<times> string) list"
  pr_sps :: "(sp_row \<times> string) list"
  pr_apps :: "app_row list"

definition fetch_rows :: "string \<Rightarrow> pg_rows sql" where
  "fetch_rows org =
     bindP (select_config org) (\<lambda>c.
     bindP (select_users org) (\<lambda>us.
     bindP (select_service_principals org) (\<lambda>sps.
     bindP (select_client_apps org) (\<lambda>apps.
     retP \<lparr>pr_cfg = c, pr_users = us, pr_sps = sps, pr_apps = apps\<rparr>))))"

text \<open>
  \<open>issuer_modes.update(v)\<close> for a decoded value \<open>v\<close>: an object, or an empty list or string. A mode that
  is not a string is outside the model, which rejects it.
\<close>

definition modes_of_json :: "json \<Rightarrow> py_exn + (string, string) dict" where
  "modes_of_json v =
     (case v of
        JObj d \<Rightarrow>
          if list_all (\<lambda>(k, x). case x of JStr _ \<Rightarrow> True | _ \<Rightarrow> False) d
          then Inr (map (\<lambda>(k, x). (k, py_str x)) d) else Inl TypeError
      | JList [] \<Rightarrow> Inr []
      | JStr [] \<Rightarrow> Inr []
      | JStr _ \<Rightarrow> Inl (ValueError ''dictionary update sequence element'')
      | _ \<Rightarrow> Inl TypeError)"

text \<open>The scalars are assigned before the modes are parsed, the modes cleared before the update.\<close>

definition apply_cfg_row :: "cfg_row \<Rightarrow> store_data \<Rightarrow> (py_exn + unit) \<times> store_data" where
  "apply_cfg_row c d =
     (let d1 = d\<lparr>st_mode := cr_auth_mode c, st_admin_token := cr_admin_token c,
                  st_cors_origins := list_or (cr_cors_allow_origins c) [''*'']\<rparr>
      in case parse_jsonb (cr_issuer_modes c) of
           Inl e \<Rightarrow> (Inl e, d1)
         | Inr v \<Rightarrow>
             (case modes_of_json v of
                Inl e \<Rightarrow> (Inl e, d1\<lparr>st_issuer_modes := []\<rparr>)
              | Inr modes \<Rightarrow> (Inr (), d1\<lparr>st_issuer_modes := dict_update [] modes\<rparr>)))"

fun load_users ::
  "(user_row \<times> string) list \<Rightarrow> (string, user_record) dict \<Rightarrow> py_exn + (string, user_record) dict" where
  "load_users [] new = Inr new"
| "load_users ((r, p) # rows) new =
     bindE (user_of_row r p) (\<lambda>u. load_users rows (dset new (ur_username r) u))"

fun load_sps ::
  "(sp_row \<times> string) list \<Rightarrow> (string, sp_record) dict \<times> (string, sp_record) dict \<Rightarrow>
   py_exn + (string, sp_record) dict \<times> (string, sp_record) dict" where
  "load_sps [] new = Inr new"
| "load_sps ((r, p) # rows) (new, raw) =
     bindE (sp_of_row r p) (\<lambda>sp.
       let name = sr_name r; canonical = sp_canonical_id sp; new1 = dset new name sp
       in load_sps rows (if canonical \<noteq> name then dset new1 canonical sp else new1, dset raw name sp))"

fun load_apps :: "app_row list \<Rightarrow> (string, client_app) dict \<Rightarrow> py_exn + (string, client_app) dict" where
  "load_apps [] new = Inr new"
| "load_apps (r # rows) new =
     bindE (app_of_row r) (\<lambda>a. load_apps rows (dset new (ar_audience r) a))"

text \<open>The second half of \<open>_fetch_and_apply\<close>: all rows, or none.\<close>

definition apply_rows :: "pg_rows \<Rightarrow> store_data \<Rightarrow> py_exn + store_data" where
  "apply_rows rows d =
     bindE (load_users (pr_users rows) []) (\<lambda>us.
     bindE (load_sps (pr_sps rows) ([], [])) (\<lambda>(sps, raw).
     bindE (load_apps (pr_apps rows) []) (\<lambda>apps.
     Inr (d\<lparr>st_users := dict_update [] us, st_service_principals := dict_update [] sps,
            st_service_principals_raw := dict_update [] raw, st_client_apps := dict_update [] apps\<rparr>))))"

definition apply_fetched :: "pg_rows \<Rightarrow> store_data \<Rightarrow> (py_exn + unit) \<times> store_data" where
  "apply_fetched rows d =
     (case (case pr_cfg rows of None \<Rightarrow> (Inr (), d) | Some c \<Rightarrow> apply_cfg_row c d) of
        (Inl e, d1) \<Rightarrow> (Inl e, d1)
      | (Inr _, d1) \<Rightarrow>
          (case apply_rows rows d1 of Inl e \<Rightarrow> (Inl e, d1) | Inr d2 \<Rightarrow> (Inr (), d2)))"

definition fetch_and_apply :: "pg_store \<Rightarrow> database \<Rightarrow> (py_exn + unit) \<times> pg_store \<times> database" where
  "fetch_and_apply st db =
     (case fetch_rows (pg_org_id st) db of
        (Inl e, db') \<Rightarrow> (Inl e, st, db')
      | (Inr rows, db') \<Rightarrow>
          (case apply_fetched rows (pg_data st) of (r, d) \<Rightarrow> (r, st\<lparr>pg_data := d\<rparr>, db')))"

text \<open>\<open>reload\<close> swallows every exception; before \<open>startup\<close> it does nothing.\<close>

definition pg_reload :: "pg_store \<Rightarrow> database \<Rightarrow> (py_exn + unit) \<times> pg_store \<times> database" where
  "pg_reload st db =
     (if \<not> pg_pool st then (Inr (), st, db)
      else (case fetch_and_apply st db of (r, st', db') \<Rightarrow> (Inr (), st', db')))"

text \<open>\<open>startup\<close>: the pool may fail to connect; then the first load.\<close>

definition pg_startup :: "bool \<Rightarrow> pg_store \<Rightarrow> database \<Rightarrow> (py_exn + unit) \<times> pg_store \<times> database" where
  "pg_startup connects st db =
     (if \<not> connects then (Inl driver_error, st, db) else pg_reload (st\<lparr>pg_pool := True\<rparr>) db)"

definition pg_shutdown :: "pg_store \<Rightarrow> pg_store" where
  "pg_shutdown st = (if pg_pool st then st\<lparr>pg_pool := False\<rparr> else st)"

section \<open>The audit log\<close>

text \<open>\<open>int(v)\<close> of a claim, and the driver's encoding of a parameter for a column.\<close>

definition int_of_json :: "json \<Rightarrow> py_exn + int" where
  "int_of_json v =
     (case v of
        JInt i \<Rightarrow> Inr i
      | JBool b \<Rightarrow> Inr (if b then 1 else 0)
      | JStr s \<Rightarrow> (case py_int s of None \<Rightarrow> Inl (ValueError ''invalid literal for int()'') | Some i \<Rightarrow> Inr i)
      | _ \<Rightarrow> Inl TypeError)"

definition text_param :: "json \<Rightarrow> py_exn + string" where
  "text_param v = (case v of JStr s \<Rightarrow> Inr s | _ \<Rightarrow> Inl driver_error)"

definition nullable_text_param :: "json option \<Rightarrow> py_exn + string option" where
  "nullable_text_param v =
     (case v of None \<Rightarrow> Inr None | Some JNull \<Rightarrow> Inr None | Some (JStr s) \<Rightarrow> Inr (Some s)
      | _ \<Rightarrow> Inl driver_error)"

definition bigint_param :: "int \<Rightarrow> py_exn + int" where
  "bigint_param i = (if - (2 ^ 63) \<le> i \<and> i < 2 ^ 63 then Inr i else Inl driver_error)"

definition dget_or :: "claims \<Rightarrow> string \<Rightarrow> json \<Rightarrow> json" where
  "dget_or c k v = (case dget c k of None \<Rightarrow> v | Some x \<Rightarrow> x)"

definition insert_event :: "string \<Rightarrow> claims \<Rightarrow> unit sql" where
  "insert_event org event =
     bindP (liftP (int_of_json (dget_or event ''iat'' (JInt 0)))) (\<lambda>iat.
     bindP (liftP (int_of_json (dget_or event ''exp'' (JInt 0)))) (\<lambda>exp.
     bindP (liftP (text_param (dget_or event ''iss'' (JStr [])))) (\<lambda>issuer.
     bindP (liftP (text_param (dget_or event ''grant_type'' (JStr [])))) (\<lambda>grant_type.
     bindP (liftP (text_param (dget_or event ''sub'' (JStr [])))) (\<lambda>sub.
     bindP (liftP (nullable_text_param (dget event ''aud''))) (\<lambda>aud.
     bindP (liftP (bigint_param iat)) (\<lambda>iat'.
     bindP (liftP (bigint_param exp)) (\<lambda>exp'.
     bindP (liftP (nullable_text_param (dget event ''jti''))) (\<lambda>jti.
     insert_token_event org issuer grant_type sub aud iat' exp' jti (dumps (JObj event)))))))))))"

definition pg_write_token_event :: "pg_store \<Rightarrow> claims \<Rightarrow> database \<Rightarrow> (py_exn + unit) \<times> database" where
  "pg_write_token_event st event db =
     (if \<not> pg_pool st then (Inr (), db)
      else (case insert_event (pg_org_id st) event db of (r, db') \<Rightarrow> (Inr (), db')))"

text \<open>One entry of the page; parsing \<open>raw_claims\<close> happens outside the \<open>try\<close>.\<close>

definition event_entry :: "event_row \<Rightarrow> py_exn + json" where
  "event_entry r =
     bindE (parse_jsonb (te_raw_claims r)) (\<lambda>raw.
     Inr (JObj [(''id'', JInt (te_id r)), (''org_id'', JStr (te_org_id r)),
                (''issuer'', JStr (te_issuer r)), (''grant_type'', JStr (te_grant_type r)),
                (''sub'', JStr (te_sub r)), (''aud'', jopt (te_aud r)), (''iat'', JInt (te_iat r)),
                (''exp'', JInt (te_exp r)), (''jti'', jopt (te_jti r)), (''raw_claims'', raw),
                (''created_at'', JStr (te_created_at r))]))"

fun event_entries :: "event_row list \<Rightarrow> py_exn + json list" where
  "event_entries [] = Inr []"
| "event_entries (r # rs) = bindE (event_entry r) (\<lambda>e. bindE (event_entries rs) (\<lambda>es. Inr (e # es)))"

definition page_of :: "nat \<Rightarrow> event_row list \<Rightarrow> py_exn + json list \<times> int option" where
  "page_of limit rows =
     (let has_more = limit < length rows; page = take limit rows in
      bindE (event_entries page) (\<lambda>events.
      if has_more then
        (if page = [] then Inl IndexError else Inr (events, Some (te_id (last page))))
      else Inr (events, None)))"

definition pg_query_audit :: "pg_store \<Rightarrow> nat \<Rightarrow> int \<Rightarrow> (json list \<times> int option) sql" where
  "pg_query_audit st limit cursor db =
     (if \<not> pg_pool st then (Inr ([], None), db)
      else (case select_events (pg_org_id st) cursor (limit + 1) db of
              (Inl e, db') \<Rightarrow> (Inr ([], None), db')
            | (Inr rows, db') \<Rightarrow> (page_of limit rows, db')))"

section \<open>What a reload leaves behind\<close>

lemma checked_Inr: "checked r = Inr x \<longleftrightarrow> r = Inr x"
  by (simp add: checked_def split: sum.split)

lemma user_of_row_valid: "user_of_row r p = Inr u \<Longrightarrow> valid_identity u"
  by (auto simp: user_of_row_def bindE_eq_Inr checked_Inr user_valid_version_def valid_identity_def
      new_user_def split: if_splits)

lemma sp_of_row_entry:
  assumes "sp_of_row r p = Inr sp"
  shows "valid_identity sp" and "sp_name sp = sr_name r"
    and "sp_canonical_id sp = canonical_of sp (sr_name r)"
  using assms
  by (auto simp: sp_of_row_def bindE_eq_Inr checked_Inr sp_valid_version_def valid_identity_def
      new_sp_def canonical_of_def Let_def split: if_splits)

definition valid_entries :: "(string \<times> 'a identity_fields_scheme) list \<Rightarrow> bool" where
  "valid_entries d = (\<forall>i \<in> snd ` set d. valid_identity i)"

lemma valid_entries_Nil [simp]: "valid_entries []"
  by (simp add: valid_entries_def)

lemma valid_entries_dset: "valid_entries d \<Longrightarrow> valid_identity i \<Longrightarrow> valid_entries (dset d k i)"
  using set_dset_subset [of k i d] by (fastforce simp: valid_entries_def)

lemma load_users_ok:
  assumes "load_users rows new = Inr us" and "dict_ok new" and "valid_entries new"
  shows "dict_ok us \<and> valid_entries us"
  using assms
proof (induction rows new rule: load_users.induct)
  case (2 r p rows new)
  then obtain u where u: "user_of_row r p = Inr u" "load_users rows (dset new (ur_username r) u) = Inr us"
    by (auto simp: bindE_eq_Inr)
  have "valid_entries (dset new (ur_username r) u)"
    using 2(4) user_of_row_valid [OF u(1)] by (rule valid_entries_dset)
  with 2(1) [OF u(2)] 2(3) show ?case by simp
qed simp

text \<open>The shape of the principals' tables is the one of the YAML backend.\<close>

abbreviation sp_tables :: "(string, sp_record) dict \<Rightarrow> (string, sp_record) dict \<Rightarrow> new_tables" where
  "sp_tables new raw \<equiv> \<lparr>nt_users = [], nt_sps = new, nt_sps_raw = raw, nt_apps = []\<rparr>"

definition sp_tables_ok :: "(string, sp_record) dict \<times> (string, sp_record) dict \<Rightarrow> bool" where
  "sp_tables_ok t = (tables_ok (sp_tables (fst t) (snd t)) \<and> valid_entries (fst t))"

lemma sp_tables_ok_step:
  assumes "sp_tables_ok (new, raw)" and "sp_of_row r p = Inr sp"
  defines "new1 \<equiv> dset new (sr_name r) sp"
  shows "sp_tables_ok (if sp_canonical_id sp \<noteq> sr_name r then dset new1 (sp_canonical_id sp) sp else new1,
           dset raw (sr_name r) sp)"
proof -
  note sp = sp_of_row_entry [OF assms(2)]
  from assms(1) sp show ?thesis
    by (auto simp: sp_tables_ok_def tables_ok_def sp_entry_ok_def new1_def valid_entries_dset)
qed

lemma load_sps_ok: "load_sps rows t = Inr t' \<Longrightarrow> sp_tables_ok t \<Longrightarrow> sp_tables_ok t'"
proof (induction rows t rule: load_sps.induct)
  case (2 r p rows new raw)
  then obtain sp where sp: "sp_of_row r p = Inr sp"
    and rest: "load_sps rows (if sp_canonical_id sp \<noteq> sr_name r
                 then dset (dset new (sr_name r) sp) (sp_canonical_id sp) sp
                 else dset new (sr_name r) sp, dset raw (sr_name r) sp) = Inr t'"
    by (auto simp: bindE_eq_Inr Let_def)
  from 2(1) [OF refl refl refl rest] sp_tables_ok_step [OF 2(3) sp] show ?case by blast
qed simp

lemma load_apps_ok: "load_apps rows new = Inr apps \<Longrightarrow> dict_ok new \<Longrightarrow> dict_ok apps"
  by (induction rows new rule: load_apps.induct) (auto simp: bindE_eq_Inr)

text \<open>Accepted rows replace the tables by well-formed ones and leave the rest of the data alone.\<close>

lemma apply_rows_InrE:
  assumes "apply_rows rows d = Inr d'"
  obtains us sps raw apps where
    "d' = d\<lparr>st_users := us, st_service_principals := sps, st_service_principals_raw := raw,
            st_client_apps := apps\<rparr>"
    and "load_users (pr_users rows) [] = Inr us" and "load_sps (pr_sps rows) ([], []) = Inr (sps, raw)"
    and "load_apps (pr_apps rows) [] = Inr apps"
    and "dict_ok us" and "valid_entries us" and "sp_tables_ok (sps, raw)"
    and "dict_ok apps"
proof -
  from assms obtain us sps raw apps where
    l: "load_users (pr_users rows) [] = Inr us" "load_sps (pr_sps rows) ([], []) = Inr (sps, raw)"
      "load_apps (pr_apps rows) [] = Inr apps"
    and d': "d' = d\<lparr>st_users := dict_update [] us, st_service_principals := dict_update [] sps,
        st_service_principals_raw := dict_update [] raw, st_client_apps := dict_update [] apps\<rparr>"
    by (auto simp: apply_rows_def bindE_eq_Inr)
  have "sp_tables_ok ([], [])" by (simp add: sp_tables_ok_def tables_ok_def)
  then have sps: "sp_tables_ok (sps, raw)" by (rule load_sps_ok [OF l(2)])
  then have "dict_ok sps" "dict_ok raw" by (simp_all add: sp_tables_ok_def tables_ok_def)
  moreover have us: "dict_ok us \<and> valid_entries us"
    by (rule load_users_ok [OF l(1)]) simp_all
  moreover have apps: "dict_ok apps" using load_apps_ok [OF l(3)] by simp
  ultimately have d2: "d' = d\<lparr>st_users := us, st_service_principals := sps,
      st_service_principals_raw := raw, st_client_apps := apps\<rparr>"
    by (simp add: d' dict_update_self)
  show thesis by (rule that [OF d2 l]) (use us sps apps in blast)+
qed

text \<open>The three outcomes of applying fetched rows.\<close>

lemma apply_cfg_row_tables:
  assumes "apply_cfg_row c d = (r, d')"
  shows "st_users d' = st_users d" "st_service_principals d' = st_service_principals d"
    "st_service_principals_raw d' = st_service_principals_raw d" "st_client_apps d' = st_client_apps d"
    "st_mode d' = cr_auth_mode c" "st_admin_token d' = cr_admin_token c" "st_webhooks d' = st_webhooks d"
    "dict_ok (st_issuer_modes d) \<Longrightarrow> dict_ok (st_issuer_modes d')"
  using assms by (auto simp: apply_cfg_row_def Let_def split: sum.splits)

definition cfg_row_ok :: "cfg_row \<Rightarrow> bool" where
  "cfg_row_ok c =
     (cr_auth_mode c \<in> {''lax'', ''strict''} \<and>
      (\<forall>v modes. parse_jsonb (cr_issuer_modes c) = Inr v \<longrightarrow> modes_of_json v = Inr modes \<longrightarrow> valid_modes modes))"

lemma apply_cfg_row_modes:
  assumes "apply_cfg_row c d = (r, d')" and "cfg_row_ok c" and "valid_modes (st_issuer_modes d)"
  shows "valid_modes (st_issuer_modes d')"
proof -
  have "valid_modes (dict_update [] m)" if "valid_modes m" for m
    using that set_dict_update_subset [of "[]" m] by (fastforce simp: valid_modes_def)
  moreover have "valid_modes []" by (simp add: valid_modes_def)
  moreover have "parse_jsonb (cr_issuer_modes c) = Inr v \<Longrightarrow> modes_of_json v = Inr m \<Longrightarrow> valid_modes m" for v m
    using assms(2) unfolding cfg_row_ok_def by blast
  ultimately show ?thesis
    using assms(1,3) unfolding apply_cfg_row_def Let_def
    by (cases "parse_jsonb (cr_issuer_modes c)"; cases "modes_of_json (projr (parse_jsonb (cr_issuer_modes c)))") auto
qed

lemma apply_fetched_ok:
  assumes "apply_fetched rows d = (r, d')" and "store_ok d"
  shows "store_ok d'"
proof -
  obtain r1 d1 where c: "(case pr_cfg rows of None \<Rightarrow> (Inr (), d) | Some c \<Rightarrow> apply_cfg_row c d) = (r1, d1)"
    by fastforce
  have ok1: "store_ok d1"
  proof (cases "pr_cfg rows")
    case (Some cfg)
    with c have "apply_cfg_row cfg d = (r1, d1)" by simp
    from apply_cfg_row_tables [OF this] assms(2) show ?thesis by (simp add: store_ok_def)
  qed (use c assms(2) in simp)
  show ?thesis
  proof (cases "\<exists>d2. r1 = Inr () \<and> apply_rows rows d1 = Inr d2")
    case True
    then obtain d2 where d2: "apply_rows rows d1 = Inr d2" and "d' = d2"
      using assms(1) c by (auto simp: apply_fetched_def)
    moreover from d2 have "store_ok d2"
      using ok1 by (elim apply_rows_InrE)
        (auto simp: store_ok_def sp_tables_ok_def tables_ok_def dhas_iff dict_ok_def)
    ultimately show ?thesis by simp
  next
    case False
    then have "d' = d1" using assms(1) c by (cases r1) (auto simp: apply_fetched_def split: sum.splits)
    with ok1 show ?thesis by simp
  qed
qed

lemma apply_fetched_valid:
  assumes "apply_fetched rows d = (r, d')" and "store_valid d"
    and "\<And>c. pr_cfg rows = Some c \<Longrightarrow> cfg_row_ok c"
  shows "store_valid d'"
proof -
  obtain r1 d1 where c: "(case pr_cfg rows of None \<Rightarrow> (Inr (), d) | Some c \<Rightarrow> apply_cfg_row c d) = (r1, d1)"
    by fastforce
  have ok1: "store_valid d1"
  proof (cases "pr_cfg rows")
    case (Some cfg)
    with c have a: "apply_cfg_row cfg d = (r1, d1)" by simp
    show ?thesis
      using apply_cfg_row_tables [OF a] apply_cfg_row_modes [OF a assms(3) [OF Some]] assms(2)
        assms(3) [OF Some]
      by (simp add: store_valid_def cfg_row_ok_def)
  qed (use c assms(2) in simp)
  show ?thesis
  proof (cases "\<exists>d2. r1 = Inr () \<and> apply_rows rows d1 = Inr d2")
    case True
    then obtain d2 where d2: "apply_rows rows d1 = Inr d2" and "d' = d2"
      using assms(1) c by (auto simp: apply_fetched_def)
    moreover from d2 have "store_valid d2"
      using ok1 by (elim apply_rows_InrE) (simp add: store_valid_def sp_tables_ok_def valid_entries_def)
    ultimately show ?thesis by simp
  next
    case False
    then have "d' = d1" using assms(1) c by (cases r1) (auto simp: apply_fetched_def split: sum.splits)
    with ok1 show ?thesis by simp
  qed
qed

section \<open>Reload\<close>

text \<open>The rows of an organisation, and the fetch of a database on which no statement fails.\<close>

definition org_rows :: "string \<Rightarrow> database \<Rightarrow> pg_rows" where
  "org_rows org db =
     \<lparr>pr_cfg = dget (db_app_config db) org, pr_users = org_users org db,
      pr_sps = org_service_principals org db, pr_apps = org_client_apps org db\<rparr>"

lemma fetch_rows_healthy:
  "db_healthy db \<Longrightarrow> fetch_rows org db = (Inr (org_rows org db), db\<lparr>db_statements := db_statements db + 4\<rparr>)"
  by (simp add: fetch_rows_def bindP_apply select_config_def select_users_def
      select_service_principals_def select_client_apps_def statement_healthy org_rows_def db_healthy_def
      eval_nat_numeral)

lemma fetch_rows_frame:
  assumes "fetch_rows org db = (r, db')"
  shows "same_tables db db'" and "r = Inr rows \<Longrightarrow> rows = org_rows org db"
proof -
  have "same_tables db db' \<and> (\<forall>rows. r = Inr rows \<longrightarrow> rows = org_rows org db)"
    using assms
    by (auto simp: fetch_rows_def bindP_apply select_config_def select_users_def org_rows_def
        select_service_principals_def select_client_apps_def statement_def same_tables_def Let_def
        split: prod.splits sum.splits if_splits)
  then show "same_tables db db'" "r = Inr rows \<Longrightarrow> rows = org_rows org db" by auto
qed

text \<open>A reload never raises, and what it can do to the cache.\<close>

lemma pg_reload_cases:
  assumes "pg_reload st db = (r, st', db')"
  shows "r = Inr ()" and "same_tables db db'" and "pg_org_id st' = pg_org_id st" and "pg_pool st' = pg_pool st"
    and "pg_data st' = pg_data st \<or>
         pg_pool st \<and> pg_data st' = snd (apply_fetched (org_rows (pg_org_id st) db) (pg_data st))"
proof -
  have "r = Inr () \<and> same_tables db db' \<and> pg_org_id st' = pg_org_id st \<and> pg_pool st' = pg_pool st \<and>
      (pg_data st' = pg_data st \<or>
       pg_pool st \<and> pg_data st' = snd (apply_fetched (org_rows (pg_org_id st) db) (pg_data st)))"
  proof (cases "pg_pool st")
    case True
    obtain q db1 where q: "fetch_rows (pg_org_id st) db = (q, db1)"
      by (cases "fetch_rows (pg_org_id st) db")
    show ?thesis
      using assms True q fetch_rows_frame [OF q]
      by (cases q) (auto simp: pg_reload_def fetch_and_apply_def split: prod.splits)
  qed (use assms in \<open>simp add: pg_reload_def\<close>)
  then show "r = Inr ()" "same_tables db db'" "pg_org_id st' = pg_org_id st" "pg_pool st' = pg_pool st"
    "pg_data st' = pg_data st \<or>
       pg_pool st \<and> pg_data st' = snd (apply_fetched (org_rows (pg_org_id st) db) (pg_data st))"
    by blast+
qed

lemma pg_reload_healthy:
  assumes "db_healthy db" and "pg_pool st"
  shows "pg_reload st db =
    (Inr (), st\<lparr>pg_data := snd (apply_fetched (org_rows (pg_org_id st) db) (pg_data st))\<rparr>,
     db\<lparr>db_statements := db_statements db + 4\<rparr>)"
  using assms by (simp add: pg_reload_def fetch_and_apply_def fetch_rows_healthy split: prod.split)

text \<open>
  The backend meets the protocol's contract: the environment of a reload is the database as found.
  The mode columns are not validated by the program, so that the served modes are \<open>lax\<close> or \<open>strict\<close>
  is the database's business.
\<close>

definition pg_reload_in :: "database \<Rightarrow> pg_store \<Rightarrow> (py_exn + unit) \<times> pg_store" where
  "pg_reload_in db st = (case pg_reload st db of (r, st', db') \<Rightarrow> (r, st'))"

definition modes_valid :: "database \<Rightarrow> bool" where
  "modes_valid db = (\<forall>c \<in> snd ` set (db_app_config db). cfg_row_ok c)"

lemma org_rows_cfg: "modes_valid db \<Longrightarrow> pr_cfg (org_rows org db) = Some c \<Longrightarrow> cfg_row_ok c"
  by (auto simp: org_rows_def modes_valid_def image_iff dest!: dget_in_set)

interpretation pg_store: identity_store pg_reload_in pg_data modes_valid
proof unfold_locales
  fix e :: database and s :: pg_store and x :: py_exn and s' :: pg_store
  obtain r st' db' where p: "pg_reload s e = (r, st', db')" by (cases "pg_reload s e")
  note c = pg_reload_cases [OF p]
  obtain q d where a: "apply_fetched (org_rows (pg_org_id s) e) (pg_data s) = (q, d)"
    by (cases "apply_fetched (org_rows (pg_org_id s) e) (pg_data s)")
  show "store_ok (pg_data (snd (pg_reload_in e s)))" if "modes_valid e" "store_ok (pg_data s)"
    using apply_fetched_ok [OF a that(2)] c(5) that(2) by (auto simp: pg_reload_in_def p a)
  show "store_valid (pg_data (snd (pg_reload_in e s)))" if "modes_valid e" "store_valid (pg_data s)"
    using apply_fetched_valid [OF a that(2) org_rows_cfg [OF that(1)]] c(5) that(2)
    by (auto simp: pg_reload_in_def p a)
  show "pg_data s' = pg_data s" if "pg_reload_in e s = (Inl x, s')"
    using that c(1) by (simp add: pg_reload_in_def p)
qed

section \<open>A concrete database\<close>

definition demo_user_row :: user_row where
  "demo_user_row = \<lparr>ur_username = ''alice'', ur_tid = ''t1'', ur_password = ''pw'', ur_upn = None,
     ur_preferred_username = None, ur_oid = ''oid-alice'', ur_token_version = ''v2'',
     ur_token_lifetime_seconds = 600, ur_roles = Some [''reader''], ur_groups = None,
     ur_allowed_audiences = None, ur_extra_claims = JsonbNull\<rparr>"

definition demo_sp_row :: sp_row where
  "demo_sp_row = \<lparr>sr_name = ''svc'', sr_tid = ''t1'', sr_client_id = Some ''id-7'', sr_secret = ''s3cret'',
     sr_label = None, sr_token_version = ''v1'', sr_token_lifetime_seconds = 600, sr_roles = None,
     sr_groups = None, sr_allowed_audiences = Some [''api://default''], sr_extra_claims = JsonbNull,
     sr_override_any_claim = False, sr_override_iss_too = False\<rparr>"

definition demo_cfg_row :: cfg_row where
  "demo_cfg_row = \<lparr>cr_auth_mode = ''strict'', cr_admin_token = ''db-admin'', cr_cors_allow_origins = None,
     cr_issuer_modes = JsonbNull\<rparr>"

definition demo_db :: database where
  "demo_db = \<lparr>db_app_config = [(''acme'', demo_cfg_row)],
     db_tenants = [((''acme'', ''t1''), ''entra_id'')],
     db_users = [(''acme'', demo_user_row), (''other'', demo_user_row\<lparr>ur_username := ''mallory''\<rparr>)],
     db_service_principals = [(''acme'', demo_sp_row)], db_client_apps = [],
     db_token_events = [], db_next_event = 1, db_orgs = [], db_org_jwks = [], db_statements = 0,
     db_fails = (\<lambda>_. False), db_jsonb = Some, db_timestamp = (\<lambda>_. ''2026-01-01T00:00:00'')\<rparr>"

definition demo_pg :: pg_store where
  "demo_pg = \<lparr>pg_data = initial_store, pg_org_id = ''acme'', pg_pool = True\<rparr>"

end
