(* ===== verification/PgAudit.thy ===== *)
theory PgAudit
  imports PgStore
begin

text \<open>
  The audit log of the Postgres backend: writing an event never disturbs the token endpoint and is
  read back as it was written; following \<open>next_cursor\<close> from any cursor enumerates the
  organisation's later events once each, in order.
\<close>

section \<open>The log\<close>

text \<open>Ids are the server's sequence: ascending, below the next one.\<close>

definition log_ok :: "database \<Rightarrow> bool" where
  "log_ok db =
     (sorted_wrt (<) (map te_id (db_token_events db)) \<and>
      (\<forall>r \<in> set (db_token_events db). te_id r < db_next_event db))"

definition events_after :: "string \<Rightarrow> int \<Rightarrow> database \<Rightarrow> event_row list" where
  "events_after org cursor db =
     filter (\<lambda>r. te_org_id r = org \<and> cursor < te_id r) (db_token_events db)"

lemma events_after_sorted: "log_ok db \<Longrightarrow> sorted_wrt (<) (map te_id (events_after org cursor db))"
  by (simp add: log_ok_def events_after_def sorted_wrt_map sorted_wrt_filter)

lemma select_events_eq:
  assumes "log_ok db" and "db_healthy db"
  shows "select_events org cursor n db =
    (Inr (take n (events_after org cursor db)), db\<lparr>db_statements := Suc (db_statements db)\<rparr>)"
proof -
  have "sorted (map te_id (events_after org cursor db))"
    using events_after_sorted [OF assms(1)] strict_sorted_imp_sorted by blast
  then have "sort_key te_id (events_after org cursor db) = events_after org cursor db"
    by (rule sort_key_id_if_sorted)
  then show ?thesis
    using assms(2) by (simp add: select_events_def statement_healthy events_after_def)
qed

section \<open>Pagination\<close>

text \<open>A client that follows the cursors, with fuel for the number of pages.\<close>

fun audit_walk :: "nat \<Rightarrow> pg_store \<Rightarrow> nat \<Rightarrow> int \<Rightarrow> database \<Rightarrow> (py_exn + json list) option" where
  "audit_walk 0 st limit cursor db = None"
| "audit_walk (Suc fuel) st limit cursor db =
     (case pg_query_audit st limit cursor db of
        (Inl e, db') \<Rightarrow> Some (Inl e)
      | (Inr (es, None), db') \<Rightarrow> Some (Inr es)
      | (Inr (es, Some c), db') \<Rightarrow>
          map_option (\<lambda>r. bindE r (\<lambda>es'. Inr (es @ es'))) (audit_walk fuel st limit c db'))"

lemma event_entries_append:
  "event_entries (xs @ ys) = bindE (event_entries xs) (\<lambda>es. bindE (event_entries ys) (\<lambda>es'. Inr (es @ es')))"
  by (induction xs) (auto simp: bindE_def split: sum.split)

lemma strict_last_max:
  fixes f :: "'a \<Rightarrow> int"
  shows "sorted_wrt (<) (map f ys) \<Longrightarrow> x \<in> set ys \<Longrightarrow> f x \<le> f (last ys)"
  by (induction ys rule: rev_induct) (auto simp: sorted_wrt_append)

lemma filter_above_last:
  fixes f :: "'a \<Rightarrow> int"
  assumes "sorted_wrt (<) (map f xs)" and "0 < n" and "n \<le> length xs"
  shows "filter (\<lambda>x. f (last (take n xs)) < f x) xs = drop n xs"
proof -
  let ?l = "last (take n xs)"
  have ne: "take n xs \<noteq> []" using assms(2,3) by auto
  have s: "sorted_wrt (<) (map f (take n xs @ drop n xs))" using assms(1) by simp
  have "f x \<le> f ?l" if "x \<in> set (take n xs)" for x
    using s that by (intro strict_last_max) (simp_all add: sorted_wrt_append del: append_take_drop_id)
  then have "filter (\<lambda>x. f ?l < f x) (take n xs) = []" by (simp add: filter_empty_conv not_less)
  moreover have "filter (\<lambda>x. f ?l < f x) (drop n xs) = drop n xs"
    using s ne by (simp add: sorted_wrt_append filter_id_conv del: append_take_drop_id)
  ultimately show ?thesis
    by (metis append_Nil append_take_drop_id filter_append)
qed

lemma events_after_next:
  assumes "log_ok db" and "0 < n" and "n \<le> length (events_after org cursor db)"
  shows "events_after org (te_id (last (take n (events_after org cursor db)))) db =
    drop n (events_after org cursor db)"
proof -
  let ?xs = "events_after org cursor db"
  let ?c = "te_id (last (take n ?xs))"
  have "last (take n ?xs) \<in> set (take n ?xs)" using assms(2,3) by (intro last_in_set) auto
  then have "last (take n ?xs) \<in> set ?xs" by (rule in_set_takeD)
  then have "cursor < ?c" by (simp add: events_after_def)
  then have "events_after org ?c db = filter (\<lambda>r. ?c < te_id r) ?xs"
    unfolding events_after_def filter_filter by (intro filter_cong) auto
  also have "\<dots> = drop n ?xs"
    by (rule filter_above_last [OF events_after_sorted [OF assms(1)] assms(2,3)])
  finally show ?thesis .
qed

lemma events_after_counter [simp]:
  "events_after org c (db\<lparr>db_statements := n\<rparr>) = events_after org c db"
  "log_ok (db\<lparr>db_statements := n\<rparr>) = log_ok db" "db_healthy (db\<lparr>db_statements := n\<rparr>) = db_healthy db"
  by (simp_all add: events_after_def log_ok_def db_healthy_def)

lemma audit_walk_eq:
  assumes "pg_pool st" and "1 \<le> limit"
    and "log_ok db" and "db_healthy db" and "length (events_after (pg_org_id st) cursor db) < fuel"
  shows "audit_walk fuel st limit cursor db = Some (event_entries (events_after (pg_org_id st) cursor db))"
  using assms(3-)
proof (induction fuel arbitrary: cursor db)
  case (Suc fuel)
  let ?org = "pg_org_id st"
  let ?xs = "events_after ?org cursor db"
  let ?db' = "db\<lparr>db_statements := Suc (db_statements db)\<rparr>"
  have q: "pg_query_audit st limit cursor db = (page_of limit (take (limit + 1) ?xs), ?db')"
    using assms(1) Suc.prems by (simp add: pg_query_audit_def select_events_eq)
  show ?case
  proof (cases "length ?xs \<le> limit")
    case True
    then have "page_of limit (take (limit + 1) ?xs) = bindE (event_entries ?xs) (\<lambda>es. Inr (es, None))"
      by (simp add: page_of_def)
    then show ?thesis by (cases "event_entries ?xs") (simp_all add: q)
  next
    case False
    let ?page = "take limit ?xs"
    let ?c = "te_id (last ?page)"
    have ne: "?page \<noteq> []" using assms(2) False by auto
    have "take limit (take (limit + 1) ?xs) = ?page" by (simp add: min_def)
    with False ne have p: "page_of limit (take (limit + 1) ?xs) =
        bindE (event_entries ?page) (\<lambda>es. Inr (es, Some ?c))"
      by (simp add: page_of_def Let_def)
    have n: "events_after ?org ?c db = drop limit ?xs"
      using events_after_next [OF Suc.prems(1), of limit ?org cursor] assms(2) False by simp
    have "audit_walk fuel st limit ?c ?db' = Some (event_entries (drop limit ?xs))"
      using Suc.IH [of ?db' ?c] Suc.prems assms(2) False by (simp add: n)
    moreover have "event_entries ?xs =
        bindE (event_entries ?page) (\<lambda>es. bindE (event_entries (drop limit ?xs)) (\<lambda>es'. Inr (es @ es')))"
      by (metis append_take_drop_id event_entries_append)
    ultimately show ?thesis by (cases "event_entries ?page") (simp_all add: q p [unfolded Suc_eq_plus1 [symmetric]])
  qed
qed simp

text \<open>
  C12: a client that starts at any cursor with any page size of at least one and follows
  \<open>next_cursor\<close> gets every later event of its organisation exactly once, in ascending order, and
  no event of another organisation; one page more than there are events is always enough.
\<close>

theorem audit_pagination:
  assumes "pg_pool st" and "1 \<le> limit" and "log_ok db" and "db_healthy db"
  shows "audit_walk (Suc (length (events_after (pg_org_id st) cursor db))) st limit cursor db =
    Some (event_entries (filter (\<lambda>r. te_org_id r = pg_org_id st \<and> cursor < te_id r) (db_token_events db)))"
  unfolding events_after_def [symmetric] by (rule audit_walk_eq [OF assms]) simp

section \<open>Writing an event\<close>

lemma insert_token_event_healthy:
  assumes "db_healthy db" and "db_jsonb db raw = Some stored"
  shows "\<exists>ts. insert_token_event org issuer g sub aud iat ex jti raw db =
    (Inr (), db\<lparr>db_statements := Suc (db_statements db),
       db_token_events := db_token_events db @
         [\<lparr>te_id = db_next_event db, te_org_id = org, te_issuer = issuer, te_grant_type = g,
           te_sub = sub, te_aud = aud, te_iat = iat, te_exp = ex, te_jti = jti,
           te_raw_claims = JsonbText stored, te_created_at = ts\<rparr>],
       db_next_event := db_next_event db + 1\<rparr>)"
  using assms
  by (intro exI [of _ "db_timestamp db (Suc (db_statements db))"])
    (simp add: insert_token_event_def statement_healthy)

text \<open>Whatever happens, at most one row of the own organisation is appended, under a fresh id.\<close>

lemma insert_token_event_cases:
  assumes "insert_token_event org issuer g sub aud iat ex jti raw db = (r, db')"
  shows "same_tables db db' \<or>
    (\<exists>row. te_org_id row = org \<and> te_id row = db_next_event db \<and>
       db_token_events db' = db_token_events db @ [row] \<and> db_next_event db' = db_next_event db + 1)"
  using assms
  by (auto simp: insert_token_event_def statement_def same_tables_def Let_def split: if_splits option.splits)

lemma insert_event_cases:
  assumes "insert_event org event db = (r, db')"
  shows "same_tables db db' \<or>
    (\<exists>row. te_org_id row = org \<and> te_id row = db_next_event db \<and>
       db_token_events db' = db_token_events db @ [row] \<and> db_next_event db' = db_next_event db + 1)"
proof (cases "same_tables db db'")
  case False
  then have ne: "db \<noteq> db'" by auto
  from assms ne obtain issuer g sub aud iat ex jti where
    "insert_token_event org issuer g sub aud iat ex jti (dumps (JObj event)) db = (r, db')"
    unfolding insert_event_def
    by (auto simp: bindP_apply simp del: dumps.simps split: sum.splits)
  then show ?thesis by (rule insert_token_event_cases)
qed simp

text \<open>
  Recording an event never raises and never disturbs another organisation: the log keeps all its
  rows, gains at most one row of the writer's own organisation under a new highest id, and the pages
  every other organisation reads stay the same.
\<close>

lemma audit_write_safe:
  assumes "pg_write_token_event st event db = (r, db')" and "log_ok db"
  shows "r = Inr () \<and> log_ok db' \<and>
    (\<exists>new. db_token_events db' = db_token_events db @ new \<and> length new \<le> 1 \<and>
       (\<forall>row \<in> set new. te_org_id row = pg_org_id st)) \<and>
    (\<forall>org cursor. org \<noteq> pg_org_id st \<longrightarrow> events_after org cursor db' = events_after org cursor db)"
proof -
  have r: "r = Inr ()" using assms(1) by (auto simp: pg_write_token_event_def split: if_splits prod.splits)
  have "same_tables db db' \<or>
    (\<exists>row. te_org_id row = pg_org_id st \<and> te_id row = db_next_event db \<and>
       db_token_events db' = db_token_events db @ [row] \<and> db_next_event db' = db_next_event db + 1)"
    using assms(1) by (auto simp: pg_write_token_event_def split: if_splits prod.splits dest: insert_event_cases)
  then show ?thesis
  proof
    assume "same_tables db db'"
    from same_tables_simps [OF this] r assms(2) show ?thesis
      by (auto simp: log_ok_def events_after_def)
  next
    assume "\<exists>row. te_org_id row = pg_org_id st \<and> te_id row = db_next_event db \<and>
       db_token_events db' = db_token_events db @ [row] \<and> db_next_event db' = db_next_event db + 1"
    then obtain row where row: "te_org_id row = pg_org_id st" "te_id row = db_next_event db"
      "db_token_events db' = db_token_events db @ [row]" "db_next_event db' = db_next_event db + 1" by blast
    have "log_ok db'" using assms(2) row by (auto simp: log_ok_def sorted_wrt_append)
    with r row show ?thesis by (auto simp: events_after_def)
  qed
qed

text \<open>The events whose recorded fields have the columns' types.\<close>

definition recordable :: "claims \<Rightarrow> bool" where
  "recordable event =
     (json_ok (JObj event) \<and>
      (\<exists>s. dget event ''iss'' = Some (JStr s)) \<and> (\<exists>s. dget event ''sub'' = Some (JStr s)) \<and>
      (\<exists>s. dget event ''grant_type'' = Some (JStr s)) \<and>
      (\<exists>i. dget event ''iat'' = Some (JInt i) \<and> - (2 ^ 63) \<le> i \<and> i < 2 ^ 63) \<and>
      (\<exists>i. dget event ''exp'' = Some (JInt i) \<and> - (2 ^ 63) \<le> i \<and> i < 2 ^ 63) \<and>
      (dget event ''aud'' = None \<or> (\<exists>s. dget event ''aud'' = Some (JStr s))) \<and>
      (dget event ''jti'' = None \<or> (\<exists>s. dget event ''jti'' = Some (JStr s))))"

definition str_field :: "claims \<Rightarrow> string \<Rightarrow> string option" where
  "str_field c k = (case dget c k of Some (JStr s) \<Rightarrow> Some s | _ \<Rightarrow> None)"

lemma insert_event_recordable:
  assumes "recordable event"
  shows "\<exists>iss sub g iat ex. dget event ''iss'' = Some (JStr iss) \<and> dget event ''sub'' = Some (JStr sub) \<and>
    dget event ''grant_type'' = Some (JStr g) \<and> dget event ''iat'' = Some (JInt iat) \<and>
    dget event ''exp'' = Some (JInt ex) \<and>
    insert_event org event = insert_token_event org iss g sub (str_field event ''aud'') iat ex
      (str_field event ''jti'') (dumps (JObj event))"
proof -
  from assms obtain iss sub g iat ex where d: "dget event ''iss'' = Some (JStr iss)"
      "dget event ''sub'' = Some (JStr sub)" "dget event ''grant_type'' = Some (JStr g)"
      "dget event ''iat'' = Some (JInt iat)" "dget event ''exp'' = Some (JInt ex)"
    and b: "bigint_param iat = Inr iat" "bigint_param ex = Inr ex"
    unfolding recordable_def bigint_param_def by auto
  have "nullable_text_param (dget event k) = Inr (str_field event k)"
    if "dget event k = None \<or> (\<exists>s. dget event k = Some (JStr s))" for k
    using that by (auto simp: nullable_text_param_def str_field_def)
  with assms have "nullable_text_param (dget event ''aud'') = Inr (str_field event ''aud'')"
    "nullable_text_param (dget event ''jti'') = Inr (str_field event ''jti'')"
    unfolding recordable_def by blast+
  with d b show ?thesis
    by (simp add: insert_event_def dget_or_def int_of_json_def text_param_def)
qed

text \<open>
  C13: an event with the claims every provider issues, written on a working database, is the next row
  of the log: its columns are the claims', and the raw claims read back are the event itself, up to
  the order of members, which the database does not keep.
\<close>

theorem audit_round_trip:
  assumes "recordable event" and "pg_pool st" and "db_healthy db"
    and "jsonb_lawful (db_jsonb db)" and "db_jsonb db (dumps (JObj event)) \<noteq> None"
  shows "\<exists>db' row w. pg_write_token_event st event db = (Inr (), db') \<and>
    db_token_events db' = db_token_events db @ [row] \<and> te_org_id row = pg_org_id st \<and>
    dget event ''iss'' = Some (JStr (te_issuer row)) \<and> dget event ''sub'' = Some (JStr (te_sub row)) \<and>
    dget event ''exp'' = Some (JInt (te_exp row)) \<and> te_aud row = str_field event ''aud'' \<and>
    parse_jsonb (te_raw_claims row) = Inr w \<and> canon w = canon (JObj event)"
proof -
  obtain stored where stored: "db_jsonb db (dumps (JObj event)) = Some stored" using assms(5) by blast
  have "json_ok (JObj event)" using assms(1) by (simp add: recordable_def)
  then have "loads (dumps (JObj event)) = Some (JObj event)" by (rule loads_dumps)
  with jsonb_lawfulD [OF assms(4) stored] obtain w where w: "loads stored = Some w" "canon w = canon (JObj event)"
    by blast
  from insert_event_recordable [OF assms(1), of "pg_org_id st"] obtain iss sub g iat ex where
    d: "dget event ''iss'' = Some (JStr iss)" "dget event ''sub'' = Some (JStr sub)"
       "dget event ''exp'' = Some (JInt ex)"
    and i: "insert_event (pg_org_id st) event = insert_token_event (pg_org_id st) iss g sub
      (str_field event ''aud'') iat ex (str_field event ''jti'') (dumps (JObj event))" by blast
  from insert_token_event_healthy [OF assms(3) stored] i obtain ts where
    "insert_event (pg_org_id st) event db =
      (Inr (), db\<lparr>db_statements := Suc (db_statements db),
         db_token_events := db_token_events db @
           [\<lparr>te_id = db_next_event db, te_org_id = pg_org_id st, te_issuer = iss, te_grant_type = g,
             te_sub = sub, te_aud = str_field event ''aud'', te_iat = iat, te_exp = ex,
             te_jti = str_field event ''jti'', te_raw_claims = JsonbText stored, te_created_at = ts\<rparr>],
         db_next_event := db_next_event db + 1\<rparr>)" by fastforce
  with assms(2) d w show ?thesis
    by (auto simp: pg_write_token_event_def parse_jsonb_def)
qed

section \<open>A concrete log\<close>

definition demo_event :: claims where
  "demo_event = [(''iss'', JStr ''http://localhost:8080/acme''), (''sub'', JStr ''svc''),
     (''aud'', JStr ''api://default''), (''iat'', JInt 1000), (''exp'', JInt 4600),
     (''grant_type'', JStr ''client_credentials'')]"

definition demo_row :: "int \<Rightarrow> string \<Rightarrow> event_row" where
  "demo_row i org = \<lparr>te_id = i, te_org_id = org, te_issuer = ''acme'', te_grant_type = ''password'',
     te_sub = ''alice'', te_aud = None, te_iat = 1, te_exp = 2, te_jti = None,
     te_raw_claims = JsonbNull, te_created_at = ''2026-01-01T00:00:00''\<rparr>"

definition demo_log :: database where
  "demo_log = demo_db\<lparr>db_token_events := [demo_row 1 ''acme'', demo_row 2 ''other'', demo_row 3 ''acme''],
     db_next_event := 4\<rparr>"

lemma demo_log_ok: "log_ok demo_log" "db_healthy demo_log" "pg_pool demo_pg" "jsonb_lawful (db_jsonb demo_log)"
  by (simp_all add: log_ok_def demo_log_def demo_row_def demo_db_def db_healthy_def demo_pg_def jsonb_lawful_id)

lemma demo_log_simps [simp]:
  "pg_org_id demo_pg = ''acme''"
  "db_token_events demo_log = [demo_row 1 ''acme'', demo_row 2 ''other'', demo_row 3 ''acme'']"
  "te_id (demo_row i org) = i" "te_org_id (demo_row i org) = org"
  by (simp_all add: demo_log_def demo_pg_def demo_row_def)

theorem audit_pagination_witness:
  "audit_walk 3 demo_pg 1 0 demo_log = Some (event_entries [demo_row 1 ''acme'', demo_row 3 ''acme''])"
proof -
  have "length (events_after (pg_org_id demo_pg) 0 demo_log) = 2" by (simp add: events_after_def)
  then have "Suc (length (events_after (pg_org_id demo_pg) 0 demo_log)) = 3" by simp
  then show ?thesis
    using audit_pagination [OF demo_log_ok(3) _ demo_log_ok(1,2), of 1 0] by simp
qed

theorem audit_write_safe_witness:
  "\<exists>db'. pg_write_token_event demo_pg demo_event demo_log = (Inr (), db') \<and>
     events_after ''other'' 0 db' = [demo_row 2 ''other'']"
proof -
  obtain r db' where w: "pg_write_token_event demo_pg demo_event demo_log = (r, db')"
    by (cases "pg_write_token_event demo_pg demo_event demo_log")
  have "events_after ''other'' 0 demo_log = [demo_row 2 ''other'']" by (simp add: events_after_def)
  with audit_write_safe [OF w demo_log_ok(1)] w show ?thesis by simp
qed

theorem audit_round_trip_witness:
  "\<exists>db' row w. pg_write_token_event demo_pg demo_event demo_log = (Inr (), db') \<and>
     db_token_events db' = db_token_events demo_log @ [row] \<and> te_aud row = Some ''api://default'' \<and>
     parse_jsonb (te_raw_claims row) = Inr w \<and> canon w = canon (JObj demo_event)"
proof -
  have r: "recordable demo_event"
    by (simp add: recordable_def demo_event_def dict_ok_def)
  have t: "db_jsonb demo_log (dumps (JObj demo_event)) \<noteq> None"
    by (simp add: demo_log_def demo_db_def)
  have "str_field demo_event ''aud'' = Some ''api://default''"
    by (simp add: str_field_def demo_event_def)
  with audit_round_trip [OF r demo_log_ok(3,2,4) t] show ?thesis by force
qed

end
