(* ===== verification/PgReload.thy ===== *)
theory PgReload
  imports PgStore
begin

text \<open>
  What \<open>reload\<close> of the Postgres backend serves afterwards: exactly the organisation's rows when all
  of them are accepted, the old tables under the new scalars when one is rejected, and nothing of
  any other organisation in either case.
\<close>

section \<open>The tables in closed form\<close>

lemma load_users_entries:
  "load_users rows new = Inr us \<Longrightarrow>
   \<exists>es. list_all2 (\<lambda>(r, p) (k, u). k = ur_username r \<and> user_of_row r p = Inr u) rows es \<and>
     us = dict_update new es"
proof (induction rows new rule: load_users.induct)
  case (2 r p rows new)
  then obtain u where u: "user_of_row r p = Inr u" "load_users rows (dset new (ur_username r) u) = Inr us"
    by (auto simp: bindE_eq_Inr)
  from 2(1) [OF u(2)] obtain es where "list_all2 (\<lambda>(r, p) (k, u). k = ur_username r \<and> user_of_row r p = Inr u) rows es"
    "us = dict_update (dset new (ur_username r) u) es" by blast
  with u(1) show ?case by (intro exI [of _ "(ur_username r, u) # es"]) simp
qed simp

definition sp_row_keys :: "sp_record \<Rightarrow> (string \<times> sp_record) list" where
  "sp_row_keys sp =
     (sp_name sp, sp) # (if sp_canonical_id sp \<noteq> sp_name sp then [(sp_canonical_id sp, sp)] else [])"

lemma load_sps_entries:
  "load_sps rows t = Inr t' \<Longrightarrow>
   \<exists>sps. list_all2 (\<lambda>(r, p) sp. sp_of_row r p = Inr sp) rows sps \<and>
     fst t' = dict_update (fst t) (concat (map sp_row_keys sps))"
proof (induction rows t rule: load_sps.induct)
  case (2 r p rows new raw)
  then obtain sp where sp: "sp_of_row r p = Inr sp"
    and rest: "load_sps rows (if sp_canonical_id sp \<noteq> sr_name r
                 then dset (dset new (sr_name r) sp) (sp_canonical_id sp) sp
                 else dset new (sr_name r) sp, dset raw (sr_name r) sp) = Inr t'"
    by (auto simp: bindE_eq_Inr Let_def)
  from 2(1) [OF refl refl refl rest] obtain sps where
    "list_all2 (\<lambda>(r, p) sp. sp_of_row r p = Inr sp) rows sps"
    "fst t' = dict_update (if sp_canonical_id sp \<noteq> sr_name r
        then dset (dset new (sr_name r) sp) (sp_canonical_id sp) sp else dset new (sr_name r) sp)
      (concat (map sp_row_keys sps))" by auto
  with sp sp_of_row_entry(2) [OF sp] show ?case
    by (intro exI [of _ "sp # sps"]) (simp add: sp_row_keys_def [of sp] dict_update_append)
qed simp


text \<open>
  C15: a reload that meets a row it rejects returns normally and keeps serving the old users, principals
  and applications, but under the mode, the admin token and the origins of the new configuration row,
  which were assigned before the rows were looked at.
\<close>

theorem pg_reload_partial:
  assumes "db_healthy db" and "pg_pool st"
    and "dget (db_app_config db) (pg_org_id st) = Some c"
    and "apply_rows (org_rows (pg_org_id st) db) (snd (apply_cfg_row c (pg_data st))) = Inl e"
  shows "\<exists>st' db'. pg_reload st db = (Inr (), st', db') \<and>
    st_users (pg_data st') = st_users (pg_data st) \<and>
    st_service_principals (pg_data st') = st_service_principals (pg_data st) \<and>
    st_client_apps (pg_data st') = st_client_apps (pg_data st) \<and>
    st_mode (pg_data st') = cr_auth_mode c \<and> st_admin_token (pg_data st') = cr_admin_token c"
proof -
  obtain r1 d1 where c: "apply_cfg_row c (pg_data st) = (r1, d1)" by (cases "apply_cfg_row c (pg_data st)")
  have "snd (apply_fetched (org_rows (pg_org_id st) db) (pg_data st)) = d1"
    using assms(3,4) c by (cases r1) (auto simp: apply_fetched_def org_rows_def)
  with apply_cfg_row_tables [OF c] pg_reload_healthy [OF assms(1,2)] show ?thesis by simp
qed

section \<open>Isolation\<close>

text \<open>Databases that agree on the rows of an organisation.\<close>

definition same_org :: "string \<Rightarrow> database \<Rightarrow> database \<Rightarrow> bool" where
  "same_org org db db' =
     (dget (db_app_config db) org = dget (db_app_config db') org \<and>
      filter (\<lambda>((q, tid), p). q = org) (db_tenants db) = filter (\<lambda>((q, tid), p). q = org) (db_tenants db') \<and>
      filter (\<lambda>(q, u). q = org) (db_users db) = filter (\<lambda>(q, u). q = org) (db_users db') \<and>
      filter (\<lambda>(q, s). q = org) (db_service_principals db) =
        filter (\<lambda>(q, s). q = org) (db_service_principals db') \<and>
      filter (\<lambda>(q, a). q = org) (db_client_apps db) = filter (\<lambda>(q, a). q = org) (db_client_apps db'))"

lemma join_own_rows:
  "concat (map (\<lambda>(q, u). if q = org then f u else []) us) =
   concat (map (\<lambda>(q, u). f u) (filter (\<lambda>(q, u). q = org) us))"
  by (induction us) auto

lemma join_own_tenants:
  "concat (map (\<lambda>((q, tid), p). if q = org \<and> tid = t then [(u, p)] else []) ts) =
   concat (map (\<lambda>((q, tid), p). if tid = t then [(u, p)] else []) (filter (\<lambda>((q, tid), p). q = org) ts))"
  by (induction ts) auto

lemma same_org_rows: "same_org org db db' \<Longrightarrow> org_rows org db = org_rows org db'"
  by (simp add: org_rows_def org_users_def org_service_principals_def org_client_apps_def same_org_def
      join_own_tenants join_own_rows)

text \<open>
  C16: what a reload serves depends on the rows of its own organisation only: whatever the database
  holds for others, two databases that agree on them give the same cache.
\<close>

theorem pg_reload_isolated:
  assumes "db_healthy db" and "db_healthy db'" and "same_org (pg_org_id st) db db'"
  shows "fst (snd (pg_reload st db)) = fst (snd (pg_reload st db'))"
  using assms same_org_rows [OF assms(3)]
  by (cases "pg_pool st") (simp add: pg_reload_healthy, simp add: pg_reload_def)

section \<open>Instances\<close>

lemma demo_db_simps [simp]:
  "db_healthy demo_db" "pg_pool demo_pg" "pg_org_id demo_pg = ''acme''" "pg_data demo_pg = initial_store"
  "dget (db_app_config demo_db) ''acme'' = Some demo_cfg_row"
  "org_users ''acme'' demo_db = [(demo_user_row, ''entra_id'')]"
  "org_service_principals ''acme'' demo_db = [(demo_sp_row, ''entra_id'')]"
  "org_client_apps ''acme'' demo_db = []"
  by (simp_all add: demo_db_def db_healthy_def demo_pg_def org_users_def org_service_principals_def
      org_client_apps_def demo_user_row_def demo_sp_row_def)

lemma demo_rows:
  "\<exists>u. user_of_row demo_user_row ''entra_id'' = Inr u"
  "\<exists>sp. sp_of_row demo_sp_row ''entra_id'' = Inr sp \<and> sp_name sp = ''svc'' \<and> sp_canonical_id sp = ''id-7''"
  by (simp_all add: user_of_row_def sp_of_row_def demo_user_row_def demo_sp_row_def parse_jsonb_def
      dict_field_def checked_def user_valid_version_def sp_valid_version_def canonical_of_def Let_def
      new_sp_def)

lemma demo_cfg_applies: "\<exists>d. apply_cfg_row demo_cfg_row initial_store = (Inr (), d)"
  by (simp add: apply_cfg_row_def demo_cfg_row_def parse_jsonb_def modes_of_json_def)


text \<open>The same database with a user of an unknown token version.\<close>

definition broken_db :: database where
  "broken_db = demo_db\<lparr>db_users := [(''acme'', demo_user_row\<lparr>ur_token_version := ''v3''\<rparr>)]\<rparr>"

lemma broken_db_simps [simp]:
  "db_healthy broken_db" "dget (db_app_config broken_db) ''acme'' = Some demo_cfg_row"
  "org_users ''acme'' broken_db = [(demo_user_row\<lparr>ur_token_version := ''v3''\<rparr>, ''entra_id'')]"
  by (simp_all add: broken_db_def demo_db_def db_healthy_def org_users_def demo_user_row_def)

theorem pg_reload_partial_witness:
  "\<exists>st' db'. pg_reload demo_pg broken_db = (Inr (), st', db') \<and> st_users (pg_data st') = [] \<and>
     st_mode (pg_data st') = ''strict'' \<and> st_admin_token (pg_data st') = ''db-admin''"
proof -
  have "\<exists>e. apply_rows (org_rows (pg_org_id demo_pg) broken_db)
      (snd (apply_cfg_row demo_cfg_row (pg_data demo_pg))) = Inl e"
    by (simp add: apply_rows_def org_rows_def user_of_row_def demo_user_row_def parse_jsonb_def
        checked_def user_valid_version_def)
  then obtain e where "apply_rows (org_rows (pg_org_id demo_pg) broken_db)
      (snd (apply_cfg_row demo_cfg_row (pg_data demo_pg))) = Inl e" by blast
  from pg_reload_partial [OF _ _ _ this] show ?thesis
    by (simp add: initial_store_def) (simp add: demo_cfg_row_def, blast)
qed

text \<open>Another organisation's rows are changed at will.\<close>

theorem pg_reload_isolated_witness:
  "fst (snd (pg_reload demo_pg demo_db)) =
   fst (snd (pg_reload demo_pg (demo_db\<lparr>db_users := [(''acme'', demo_user_row)]\<rparr>)))"
proof (rule pg_reload_isolated)
  show "db_healthy (demo_db\<lparr>db_users := [(''acme'', demo_user_row)]\<rparr>)"
    by (simp add: demo_db_def db_healthy_def)
  show "same_org (pg_org_id demo_pg) demo_db (demo_db\<lparr>db_users := [(''acme'', demo_user_row)]\<rparr>)"
    by (simp add: same_org_def demo_db_def)
qed simp

end
