(* ===== verification/ReloadRace.thy ===== *)
theory ReloadRace
  imports PgReload
begin

text \<open>
  \<open>reload\<close> of the Postgres backend as the event loop runs it. It awaits a connection and then four
  statements, one after the other and in no transaction, and applies what it read in one piece. In
  between, other tasks run reloads of their own and other programs write. A slice is the work of a
  task up to its next \<open>await\<close>; a history is a list of slices and writes. As long as nobody writes the
  organisation's rows, overlapping reloads serve what a single one does. Otherwise the rows of one
  reload may be of different times, and the last to apply may have been the first to read.
\<close>

section \<open>Slices\<close>

datatype reload_pc =
    ReloadCalled
  | ReadConfig
  | ReadUsers "cfg_row option"
  | ReadPrincipals "cfg_row option" "(user_row \<times> string) list"
  | ReadApps "cfg_row option" "(user_row \<times> string) list" "(sp_row \<times> string) list"
  | ApplyRows pg_rows
  | ReloadReturned

text \<open>\<open>await conn.fetch(...)\<close>: a failed statement ends the reload, which logs and returns.\<close>

definition fetched :: "(py_exn + 'a) \<times> database \<Rightarrow> ('a \<Rightarrow> reload_pc) \<Rightarrow> pg_store \<Rightarrow> reload_pc \<times> pg_store \<times> database" where
  "fetched q pc st = (case q of (Inl e, db) \<Rightarrow> (ReloadReturned, st, db) | (Inr x, db) \<Rightarrow> (pc x, st, db))"

fun reload_slice :: "reload_pc \<times> pg_store \<times> database \<Rightarrow> reload_pc \<times> pg_store \<times> database" where
  "reload_slice (ReloadCalled, st, db) = (if \<not> pg_pool st then ReloadReturned else ReadConfig, st, db)"
| "reload_slice (ReadConfig, st, db) = fetched (select_config (pg_org_id st) db) ReadUsers st"
| "reload_slice (ReadUsers c, st, db) = fetched (select_users (pg_org_id st) db) (ReadPrincipals c) st"
| "reload_slice (ReadPrincipals c us, st, db) =
     fetched (select_service_principals (pg_org_id st) db) (ReadApps c us) st"
| "reload_slice (ReadApps c us sps, st, db) =
     fetched (select_client_apps (pg_org_id st) db)
       (\<lambda>apps. ApplyRows \<lparr>pr_cfg = c, pr_users = us, pr_sps = sps, pr_apps = apps\<rparr>) st"
| "reload_slice (ApplyRows rows, st, db) =
     (ReloadReturned, st\<lparr>pg_data := snd (apply_fetched rows (pg_data st))\<rparr>, db)"
| "reload_slice (ReloadReturned, st, db) = (ReloadReturned, st, db)"

datatype event = Slice nat | Written database

fun run_reloads ::
  "event list \<Rightarrow> (nat \<Rightarrow> reload_pc) \<times> pg_store \<times> database \<Rightarrow> (nat \<Rightarrow> reload_pc) \<times> pg_store \<times> database" where
  "run_reloads [] s = s"
| "run_reloads (Slice t # es) (pcs, st, db) =
     (case reload_slice (pcs t, st, db) of (pc, st', db') \<Rightarrow> run_reloads es (pcs(t := pc), st', db'))"
| "run_reloads (Written db' # es) (pcs, st, db) = run_reloads es (pcs, st, db')"

lemmas select_defs =
  select_config_def select_users_def select_service_principals_def select_client_apps_def

text \<open>A reload nobody interrupts is the sequential one.\<close>

lemma uninterrupted_reload:
  "(reload_slice ^^ 6) (ReloadCalled, st, db) = (ReloadReturned, snd (pg_reload st db))"
  by (cases "pg_pool st")
    (auto simp: pg_reload_def fetch_and_apply_def fetch_rows_def bindP_apply fetched_def numeral_eq_Suc
      split: prod.splits sum.splits)

section \<open>No writes to the organisation\<close>

text \<open>What is applied twice is applied once.\<close>

lemma apply_cfg_row_again:
  "apply_cfg_row c d = (r, d') \<Longrightarrow>
   apply_cfg_row c (d'\<lparr>st_users := us, st_service_principals := sps, st_service_principals_raw := raw,
     st_client_apps := apps\<rparr>) =
   (r, d'\<lparr>st_users := us, st_service_principals := sps, st_service_principals_raw := raw, st_client_apps := apps\<rparr>)"
  by (auto simp: apply_cfg_row_def Let_def split: sum.splits)

lemma apply_rows_again:
  "apply_rows rows d = Inl e \<Longrightarrow> apply_rows rows d' = Inl e"
  "apply_rows rows d = Inr x \<Longrightarrow> apply_rows rows x = Inr x"
  by (auto simp: apply_rows_def bindE_def split: sum.splits)

lemma apply_fetched_again:
  "snd (apply_fetched rows (snd (apply_fetched rows d))) = snd (apply_fetched rows d)"
proof -
  let ?cfg = "\<lambda>d. case pr_cfg rows of None \<Rightarrow> (Inr (), d) | Some c \<Rightarrow> apply_cfg_row c d"
  obtain r d1 where c: "?cfg d = (r, d1)" by fastforce
  have again: "?cfg (d1\<lparr>st_users := us, st_service_principals := sps, st_service_principals_raw := raw,
      st_client_apps := apps\<rparr>) = (r, d1\<lparr>st_users := us, st_service_principals := sps,
      st_service_principals_raw := raw, st_client_apps := apps\<rparr>)" for us sps raw apps
    using c apply_cfg_row_again by (cases "pr_cfg rows") auto
  have same: "?cfg d1 = (r, d1)"
    using c by (cases "pr_cfg rows") (auto simp: apply_cfg_row_def Let_def split: sum.splits)
  show ?thesis
  proof (cases r)
    case (Inl e)
    then show ?thesis using c same by (simp add: apply_fetched_def)
  next
    case (Inr u)
    show ?thesis
    proof (cases "apply_rows rows d1")
      case (Inl e)
      then show ?thesis using c same Inr by (simp add: apply_fetched_def)
    next
      case d2: (Inr d2)
      then obtain us sps raw apps where e: "d2 = d1\<lparr>st_users := us, st_service_principals := sps,
          st_service_principals_raw := raw, st_client_apps := apps\<rparr>"
        by (rule apply_rows_InrE)
      have "?cfg d2 = (r, d2)" unfolding e by (rule again)
      then show ?thesis using c Inr d2 apply_rows_again(2) [OF d2] by (simp add: apply_fetched_def)
    qed
  qed
qed

text \<open>What a task has read so far is what the rows say.\<close>

fun has_read :: "pg_rows \<Rightarrow> reload_pc \<Rightarrow> bool" where
  "has_read rows (ReadUsers c) = (c = pr_cfg rows)"
| "has_read rows (ReadPrincipals c us) = (c = pr_cfg rows \<and> us = pr_users rows)"
| "has_read rows (ReadApps c us sps) = (c = pr_cfg rows \<and> us = pr_users rows \<and> sps = pr_sps rows)"
| "has_read rows (ApplyRows r) = (r = rows)"
| "has_read rows _ = True"

lemma select_rows:
  assumes "org_rows org db = rows"
  shows "select_config org db = (q, db') \<Longrightarrow> org_rows org db' = rows \<and> (\<forall>x. q = Inr x \<longrightarrow> x = pr_cfg rows)"
    and "select_users org db = (q2, db') \<Longrightarrow> org_rows org db' = rows \<and> (\<forall>x. q2 = Inr x \<longrightarrow> x = pr_users rows)"
    and "select_service_principals org db = (q3, db') \<Longrightarrow> org_rows org db' = rows \<and> (\<forall>x. q3 = Inr x \<longrightarrow> x = pr_sps rows)"
    and "select_client_apps org db = (q4, db') \<Longrightarrow> org_rows org db' = rows \<and> (\<forall>x. q4 = Inr x \<longrightarrow> x = pr_apps rows)"
  using assms by (auto simp: select_defs statement_def Let_def org_rows_def split: if_splits)

lemma reload_slice_reads:
  assumes "reload_slice (pc, st, db) = (pc', st', db')" and "org_rows (pg_org_id st) db = rows" and "has_read rows pc"
  shows "org_rows (pg_org_id st') db' = rows" and "has_read rows pc'" and "pg_org_id st' = pg_org_id st"
    and "pg_data st' = (if pc = ApplyRows rows then snd (apply_fetched rows (pg_data st)) else pg_data st)"
proof -
  note sel = select_rows [OF assms(2)]
  have "org_rows (pg_org_id st') db' = rows \<and> has_read rows pc' \<and> pg_org_id st' = pg_org_id st \<and>
      pg_data st' = (if pc = ApplyRows rows then snd (apply_fetched rows (pg_data st)) else pg_data st)"
    using assms sel by (cases pc) (auto simp: fetched_def split: prod.splits sum.splits if_splits)
  then show "org_rows (pg_org_id st') db' = rows" "has_read rows pc'" "pg_org_id st' = pg_org_id st"
    "pg_data st' = (if pc = ApplyRows rows then snd (apply_fetched rows (pg_data st)) else pg_data st)" by auto
qed

text \<open>On a working database with a pool, only applying returns.\<close>

lemma reload_slice_returns:
  assumes "reload_slice (pc, st, db) = (ReloadReturned, st', db')" and "pg_pool st" and "db_healthy db"
    and "pc \<noteq> ReloadReturned"
  shows "\<exists>rows. pc = ApplyRows rows"
  using assms by (cases pc) (auto simp: fetched_def select_defs statement_healthy)

lemma reload_slice_keeps:
  "reload_slice (pc, st, db) = (pc', st', db') \<Longrightarrow> pg_pool st' = pg_pool st \<and> db_fails db' = db_fails db"
  by (cases pc) (auto simp: fetched_def select_defs statement_def Let_def split: prod.splits sum.splits if_splits)

definition quiet :: "string \<Rightarrow> database \<Rightarrow> event \<Rightarrow> bool" where
  "quiet org db e = (case e of Slice t \<Rightarrow> True | Written d \<Rightarrow> same_org org db d)"

definition working :: "event \<Rightarrow> bool" where
  "working e = (case e of Slice t \<Rightarrow> True | Written d \<Rightarrow> db_healthy d)"

lemma quiet_run:
  assumes "run_reloads es (pcs, st, db) = (pcs', st', db')"
    and "list_all (quiet (pg_org_id st) db0) es" and "org_rows (pg_org_id st) db0 = rows"
    and "org_rows (pg_org_id st) db = rows" and "\<forall>t. has_read rows (pcs t)"
    and "pg_data st \<in> {d, snd (apply_fetched rows d)}"
  shows "pg_data st' \<in> {d, snd (apply_fetched rows d)}"
  using assms
proof (induction es arbitrary: pcs st db)
  case (Cons e es)
  show ?case
  proof (cases e)
    case (Slice t)
    obtain pc s1 db1 where sl: "reload_slice (pcs t, st, db) = (pc, s1, db1)" by (cases "reload_slice (pcs t, st, db)")
    note r = reload_slice_reads [OF sl Cons.prems(4) Cons.prems(5) [rule_format]]
    have rest: "run_reloads es (pcs(t := pc), s1, db1) = (pcs', st', db')" "\<forall>u. has_read rows ((pcs(t := pc)) u)"
      "list_all (quiet (pg_org_id s1) db0) es" "org_rows (pg_org_id s1) db0 = rows"
      using Cons.prems(1-3,5) sl r(2,3) by (simp_all add: Slice)
    have d: "pg_data s1 \<in> {d, snd (apply_fetched rows d)}"
      using r(4) Cons.prems(6) apply_fetched_again [of rows d] by (auto split: if_splits)
    show ?thesis by (rule Cons.IH [OF rest(1,3,4) r(1) rest(2) d])
  next
    case (Written db1)
    then have "org_rows (pg_org_id st) db1 = rows" using Cons.prems(2,3) same_org_rows by (auto simp: quiet_def)
    then show ?thesis using Cons by (simp add: Written)
  qed
qed simp

text \<open>A reload that returned, the database working throughout, has been applied.\<close>

lemma working_run:
  assumes "run_reloads es (pcs, st, db) = (pcs', st', db')"
    and "list_all (quiet (pg_org_id st) db0) es" and "org_rows (pg_org_id st) db0 = rows"
    and "org_rows (pg_org_id st) db = rows" and "\<forall>t. has_read rows (pcs t)"
    and "pg_data st \<in> {d, snd (apply_fetched rows d)}"
    and "list_all working es" and "db_healthy db" and "pg_pool st"
    and "(\<exists>t. pcs t = ReloadReturned) \<longrightarrow> pg_data st = snd (apply_fetched rows d)"
    and "pcs' t' = ReloadReturned"
  shows "pg_data st' = snd (apply_fetched rows d)"
  using assms
proof (induction es arbitrary: pcs st db)
  case (Cons e es)
  show ?case
  proof (cases e)
    case (Slice t)
    obtain pc s1 db1 where sl: "reload_slice (pcs t, st, db) = (pc, s1, db1)" by (cases "reload_slice (pcs t, st, db)")
    note r = reload_slice_reads [OF sl Cons.prems(4) Cons.prems(5) [rule_format]]
    have rest: "run_reloads es (pcs(t := pc), s1, db1) = (pcs', st', db')" "\<forall>u. has_read rows ((pcs(t := pc)) u)"
      "list_all (quiet (pg_org_id s1) db0) es" "org_rows (pg_org_id s1) db0 = rows"
      using Cons.prems(1-3,5) sl r(2,3) by (simp_all add: Slice)
    have d: "pg_data s1 \<in> {d, snd (apply_fetched rows d)}"
      using r(4) Cons.prems(6) apply_fetched_again [of rows d] by (auto split: if_splits)
    have k: "pg_pool s1" "db_healthy db1"
      using reload_slice_keeps [OF sl] Cons.prems(8,9) by (simp_all add: db_healthy_def)
    have "pg_data s1 = snd (apply_fetched rows d)" if ret: "(pcs(t := pc)) u = ReloadReturned" for u
    proof (cases "\<exists>u. pcs u = ReloadReturned")
      case True
      then show ?thesis using Cons.prems(10) r(4) apply_fetched_again [of rows d] by simp
    next
      case False
      then have "u = t" "pc = ReloadReturned" "pcs t \<noteq> ReloadReturned" using ret by (auto split: if_splits)
      with reload_slice_returns [OF _ Cons.prems(9,8)] sl obtain rs where "pcs t = ApplyRows rs" by blast
      with r(4) Cons.prems(5,6) have "pg_data s1 = snd (apply_fetched rows (pg_data st))" by (metis has_read.simps(4))
      with Cons.prems(6) show ?thesis using apply_fetched_again [of rows d] by auto
    qed
    then have applied: "(\<exists>u. (pcs(t := pc)) u = ReloadReturned) \<longrightarrow> pg_data s1 = snd (apply_fetched rows d)" by blast
    have w: "list_all working es" using Cons.prems(7) by simp
    show ?thesis by (rule Cons.IH [OF rest(1,3,4) r(1) rest(2) d w k(2,1) applied Cons.prems(11)])
  next
    case (Written db1)
    then have "org_rows (pg_org_id st) db1 = rows" "db_healthy db1"
      using Cons.prems(2,3,7) same_org_rows by (auto simp: quiet_def working_def)
    then show ?thesis using Cons by (simp add: Written)
  qed
qed auto

text \<open>
  C17: overlapping reloads agree. However any number of reloads interleave with each other, with
  statements that fail and with writes to other organisations, what is served at any moment is
  either what was served before or what one undisturbed reload gives, never a mixture; and once any
  of them has returned, no statement having failed, it is the latter.
\<close>
theorem concurrent_reloads_agree:
  assumes "run_reloads es (\<lambda>_. ReloadCalled, st, db) = (pcs, st', db')"
    and "list_all (quiet (pg_org_id st) db) es"
  defines "reloaded \<equiv> snd (apply_fetched (org_rows (pg_org_id st) db) (pg_data st))"
  shows "pg_data st' \<in> {pg_data st, reloaded} \<and>
    (list_all working es \<and> db_healthy db \<and> pg_pool st \<and> pcs t = ReloadReturned \<longrightarrow>
      pg_data st' = reloaded \<and> reloaded = pg_data (fst (snd (pg_reload st db))))"
proof (intro conjI impI)
  show "pg_data st' \<in> {pg_data st, reloaded}"
    unfolding reloaded_def by (rule quiet_run [OF assms(1,2) refl refl]) simp_all
  assume w: "list_all working es \<and> db_healthy db \<and> pg_pool st \<and> pcs t = ReloadReturned"
  then show "pg_data st' = reloaded"
    unfolding reloaded_def by (intro working_run [OF assms(1,2) refl refl, where t' = t]) simp_all
  show "reloaded = pg_data (fst (snd (pg_reload st db)))"
    using w by (simp add: pg_reload_healthy reloaded_def)
qed

section \<open>Writes to the organisation\<close>

text \<open>
  The first task reads everything and is overtaken by a write and by a whole reload of the second;
  the write falls between the second and the third statement of one reload.
\<close>

definition overtaken :: "database \<Rightarrow> event list" where
  "overtaken db1 = replicate 5 (Slice 0) @ Written db1 # replicate 6 (Slice 1) @ [Slice 0]"

definition torn :: "database \<Rightarrow> event list" where
  "torn db1 = replicate 3 (Slice 0) @ Written db1 # replicate 3 (Slice 0)"

lemmas history_simps = overtaken_def torn_def numeral_eq_Suc fetched_def select_defs statement_healthy org_rows_def

lemma healthy_counter: "db_healthy db \<Longrightarrow> db_healthy (db\<lparr>db_statements := n\<rparr>)"
  by (simp add: db_healthy_def)

text \<open>
  C18: what a reload serves when the organisation's rows are written meanwhile. A reload that was
  overtaken by a write and by another whole reload undoes the other: both have returned, and the
  rows served are those from before the write. And a write between its statements leaves one reload
  with the configuration and the users from before and the service principals and applications
  from after, which were never in the database together.
\<close>
theorem overlapping_reloads:
  assumes "db_healthy db" and "db_healthy db1" and "pg_pool st"
  defines "old \<equiv> org_rows (pg_org_id st) db" and "new \<equiv> org_rows (pg_org_id st) db1"
  shows "(\<exists>pcs st' db'. run_reloads (overtaken db1) (\<lambda>_. ReloadCalled, st, db) = (pcs, st', db') \<and>
      pcs 0 = ReloadReturned \<and> pcs 1 = ReloadReturned \<and>
      pg_data st' = snd (apply_fetched old (snd (apply_fetched new (pg_data st))))) \<and>
    (\<exists>pcs st' db'. run_reloads (torn db1) (\<lambda>_. ReloadCalled, st, db) = (pcs, st', db') \<and>
      pcs 0 = ReloadReturned \<and>
      pg_data st' = snd (apply_fetched (new\<lparr>pr_cfg := pr_cfg old, pr_users := pr_users old\<rparr>) (pg_data st)))"
  using assms(1-3) healthy_counter [OF assms(1)] healthy_counter [OF assms(2)]
  by (simp add: history_simps old_def new_def)

section \<open>Instances\<close>

lemma concurrent_reloads_agree_witness:
  "\<exists>pcs st' db'. run_reloads (map Slice [0, 1, 0, 1, 0, 0, 1, 0, 0]) (\<lambda>_. ReloadCalled, demo_pg, demo_db) = (pcs, st', db') \<and>
     pcs 0 = ReloadReturned \<and> pg_data st' = pg_data (fst (snd (pg_reload demo_pg demo_db)))"
proof -
  let ?es = "map Slice [0, 1, 0, 1, 0, 0, 1, 0, 0]"
  obtain pcs st' db' where run: "run_reloads ?es (\<lambda>_. ReloadCalled, demo_pg, demo_db) = (pcs, st', db')"
    by (cases "run_reloads ?es (\<lambda>_. ReloadCalled, demo_pg, demo_db)")
  have "pcs 0 = ReloadReturned"
    using run healthy_counter [of demo_db] by (simp add: history_simps) auto
  moreover have "list_all (quiet (pg_org_id demo_pg) demo_db) ?es" "list_all working ?es"
    by (simp_all add: quiet_def working_def)
  ultimately show ?thesis using concurrent_reloads_agree [OF run] run by auto
qed

text \<open>A user removed from the database is served again, though a reload that saw the removal returned.\<close>

lemma overlapping_reloads_witness:
  "\<exists>pcs st' db' u. run_reloads (overtaken (demo_db\<lparr>db_users := []\<rparr>)) (\<lambda>_. ReloadCalled, demo_pg, demo_db) = (pcs, st', db') \<and>
     pcs 1 = ReloadReturned \<and> st_users (pg_data st') = [(''alice'', u)]"
proof -
  have h: "db_healthy (demo_db\<lparr>db_users := []\<rparr>)" by (simp add: demo_db_def db_healthy_def)
  let ?new = "org_rows (pg_org_id demo_pg) (demo_db\<lparr>db_users := []\<rparr>)"
  obtain u where u: "user_of_row demo_user_row ''entra_id'' = Inr u" using demo_rows(1) by blast
  obtain sp where "sp_of_row demo_sp_row ''entra_id'' = Inr sp" using demo_rows(2) by blast
  then have "st_users (snd (apply_fetched (org_rows (pg_org_id demo_pg) demo_db) (snd (apply_fetched ?new (pg_data demo_pg)))))
      = [(''alice'', u)]"
    using u by (simp add: apply_fetched_def org_rows_def apply_rows_def apply_cfg_row_def demo_cfg_row_def
        parse_jsonb_def modes_of_json_def Let_def demo_user_row_def)
  with overlapping_reloads [OF _ h, of demo_db demo_pg] show ?thesis by auto
qed

end
