(* ===== verification/OrgKeys.thy ===== *)
theory OrgKeys
  imports Keys Database
begin

text \<open>
  \<open>org_registry.py\<close>, the keys of an organisation: serialisation of a key bundle, the resolver that
  loads a bundle from \<open>org_jwks\<close> or creates and persists it, and rotation. The JOSE library's
  \<open>as_dict(private=True)\<close> and \<open>import_key\<close> are a parameter (\<open>key_codec\<close>), of which \<open>codec_lawful\<close>
  states that importing what was exported gives the key back, whatever the order of the members.
  One call runs at a time here; the interleaving of two is the theory OrgRace.
\<close>

section \<open>Serialisation\<close>

record key_codec =
  kc_private_dict :: "jwk \<Rightarrow> json"
  kc_import :: "kty \<Rightarrow> json \<Rightarrow> jwk option"

definition codec_lawful :: "key_codec \<Rightarrow> bool" where
  "codec_lawful C =
     ((\<forall>k. json_ok (kc_private_dict C k)) \<and>
      (\<forall>k j. json_ok j \<longrightarrow> canon j = canon (kc_private_dict C k) \<longrightarrow> kc_import C (jwk_kty k) j = Some k))"

definition serialize_issuer_keys :: "key_codec \<Rightarrow> issuer_keys \<Rightarrow> json" where
  "serialize_issuer_keys C ik =
     JObj [(''seq'', JInt (ik_seq ik)), (''signing_rsa'', kc_private_dict C (ik_signing ik)),
           (''alt_rsa'', kc_private_dict C (ik_alt ik)),
           (''decoys'', JList (map (kc_private_dict C) (ik_decoys ik))),
           (''signing_ec'', kc_private_dict C (ik_ec_signing ik)),
           (''alt_ec'', kc_private_dict C (ik_ec_alt ik))]"

text \<open>\<open>data[k]\<close>, and an import that raises on what is not a key.\<close>

definition member :: "claims \<Rightarrow> string \<Rightarrow> py_exn + json" where
  "member d k = (case dget d k of None \<Rightarrow> Inl (KeyError k) | Some v \<Rightarrow> Inr v)"

definition import_key :: "key_codec \<Rightarrow> kty \<Rightarrow> json \<Rightarrow> py_exn + jwk" where
  "import_key C t v =
     (case kc_import C t v of None \<Rightarrow> Inl (ValueError ''invalid key'') | Some k \<Rightarrow> Inr k)"

fun import_keys :: "key_codec \<Rightarrow> kty \<Rightarrow> json list \<Rightarrow> py_exn + jwk list" where
  "import_keys C t [] = Inr []"
| "import_keys C t (v # vs) =
     bindE (import_key C t v) (\<lambda>k. bindE (import_keys C t vs) (\<lambda>ks. Inr (k # ks)))"

text \<open>
  \<open>key_data\<close> as the driver hands it out. A stored sequence number that is not an integer is outside
  the model, which rejects it.
\<close>

definition deserialize_issuer_keys :: "key_codec \<Rightarrow> string \<Rightarrow> jsonb \<Rightarrow> py_exn + issuer_keys" where
  "deserialize_issuer_keys C label cell =
     bindE (case cell of
              JsonbText s \<Rightarrow> (case loads s of None \<Rightarrow> Inl (ValueError ''JSONDecodeError'') | Some v \<Rightarrow> Inr v)
            | JsonbDict d \<Rightarrow> Inr (JObj d)
            | JsonbNull \<Rightarrow> Inr JNull) (\<lambda>data.
     case data of
       JObj d \<Rightarrow>
         bindE (member d ''seq'') (\<lambda>sq.
         bindE (case sq of JInt n \<Rightarrow> Inr n | _ \<Rightarrow> Inl TypeError) (\<lambda>n.
         bindE (bindE (member d ''signing_rsa'') (import_key C RSA)) (\<lambda>signing.
         bindE (bindE (member d ''alt_rsa'') (import_key C RSA)) (\<lambda>alt.
         bindE (member d ''decoys'') (\<lambda>ds.
         bindE (case ds of JList vs \<Rightarrow> import_keys C RSA vs | _ \<Rightarrow> Inl TypeError) (\<lambda>decoys.
         bindE (bindE (member d ''signing_ec'') (import_key C EC)) (\<lambda>ec.
         bindE (bindE (member d ''alt_ec'') (import_key C EC)) (\<lambda>ecalt.
         Inr \<lparr>ik_issuer = label, ik_seq = n, ik_signing = signing, ik_alt = alt, ik_decoys = decoys,
              ik_ec_signing = ec, ik_ec_alt = ecalt\<rparr>))))))))
     | _ \<Rightarrow> Inl TypeError)"

section \<open>The resolver\<close>

text \<open>The cache of one organisation's resolver, with the key library and the database.\<close>

record org_keys = key_source +
  ok_cache :: "(string, issuer_keys) dict"
  ok_db :: database

type_synonym 'r keys_prog = "(py_exn, org_keys, 'r) prog"

definition dbP :: "'r sql \<Rightarrow> 'r keys_prog" where
  "dbP q = (\<lambda>s. case q (ok_db s) of (r, db) \<Rightarrow> (r, s\<lparr>ok_db := db\<rparr>))"

definition cacheP :: "string \<Rightarrow> issuer_keys \<Rightarrow> unit keys_prog" where
  "cacheP issuer ik = (\<lambda>s. (Inr (), s\<lparr>ok_cache := dset (ok_cache s) issuer ik\<rparr>))"

definition persist :: "key_codec \<Rightarrow> string \<Rightarrow> string \<Rightarrow> issuer_keys \<Rightarrow> unit keys_prog" where
  "persist C org issuer ik = dbP (upsert_key_data org issuer (dumps (serialize_issuer_keys C ik)))"

definition load_or_create :: "key_codec \<Rightarrow> string \<Rightarrow> string \<Rightarrow> issuer_keys keys_prog" where
  "load_or_create C org issuer =
     bindP (getsP (\<lambda>s. dget (ok_cache s) issuer)) (\<lambda>cached.
     case cached of
       Some ik \<Rightarrow> retP ik
     | None \<Rightarrow>
         bindP (dbP (select_key_data org issuer)) (\<lambda>row.
         bindP (case row of
                  Some text \<Rightarrow> liftP (deserialize_issuer_keys C issuer (JsonbText text))
                | None \<Rightarrow>
                    bindP (callP (new_issuer_keys (org @ ''/'' @ issuer))) (\<lambda>ik.
                    bindP (persist C org issuer ik) (\<lambda>_. retP ik))) (\<lambda>ik.
         bindP (cacheP issuer ik) (\<lambda>_. retP ik))))"

text \<open>
  \<open>rotate\<close> changes the cached bundle itself before it persists it: when the write fails, the
  process signs with a key the database does not have.
\<close>

definition org_rotate :: "key_codec \<Rightarrow> string \<Rightarrow> string \<Rightarrow> string keys_prog" where
  "org_rotate C org issuer =
     bindP (load_or_create C org issuer) (\<lambda>ik.
     bindP (callP (ik_rotate ik)) (\<lambda>ik'.
     bindP (cacheP issuer ik') (\<lambda>_.
     bindP (persist C org issuer ik') (\<lambda>_.
     retP (jwk_kid (ik_signing ik'))))))"

definition async_signing_key_for_alg :: "key_codec \<Rightarrow> string \<Rightarrow> string \<Rightarrow> string \<Rightarrow> jwk keys_prog" where
  "async_signing_key_for_alg C org issuer alg =
     bindP (load_or_create C org issuer) (\<lambda>ik. retP (ik_signing_key_for_alg ik alg))"

definition async_alt_key_for_alg :: "key_codec \<Rightarrow> string \<Rightarrow> string \<Rightarrow> string \<Rightarrow> jwk keys_prog" where
  "async_alt_key_for_alg C org issuer alg =
     bindP (load_or_create C org issuer) (\<lambda>ik. retP (ik_alt_key_for_alg ik alg))"

definition async_jwks_keys :: "key_codec \<Rightarrow> string \<Rightarrow> string \<Rightarrow> jwk list keys_prog" where
  "async_jwks_keys C org issuer = bindP (load_or_create C org issuer) (\<lambda>ik. retP (ik_jwks_keys ik))"

text \<open>The key whose public PEM is exported.\<close>

definition async_signing_public_key :: "key_codec \<Rightarrow> string \<Rightarrow> string \<Rightarrow> jwk keys_prog" where
  "async_signing_public_key C org issuer = bindP (load_or_create C org issuer) (\<lambda>ik. retP (ik_signing ik))"

text \<open>
  The synchronous variants drive the event loop themselves, which raises when it is running; the
  adapter given to the handlers' protocol refuses them outright.
\<close>

definition run_until_complete :: "bool \<Rightarrow> 'r keys_prog \<Rightarrow> 'r keys_prog" where
  "run_until_complete loop_running p =
     (if loop_running then throwP (RuntimeError ''This event loop is already running'') else p)"

definition sync_signing_key_for_alg :: "bool \<Rightarrow> key_codec \<Rightarrow> string \<Rightarrow> string \<Rightarrow> string \<Rightarrow> jwk keys_prog" where
  "sync_signing_key_for_alg running C org issuer alg =
     bindP (run_until_complete running (load_or_create C org issuer)) (\<lambda>ik. retP (ik_signing_key_for_alg ik alg))"

definition sync_alt_key_for_alg :: "bool \<Rightarrow> key_codec \<Rightarrow> string \<Rightarrow> string \<Rightarrow> string \<Rightarrow> jwk keys_prog" where
  "sync_alt_key_for_alg running C org issuer alg =
     bindP (run_until_complete running (load_or_create C org issuer)) (\<lambda>ik. retP (ik_alt_key_for_alg ik alg))"

definition sync_jwks_keys :: "bool \<Rightarrow> key_codec \<Rightarrow> string \<Rightarrow> string \<Rightarrow> jwk list keys_prog" where
  "sync_jwks_keys running C org issuer =
     bindP (run_until_complete running (load_or_create C org issuer)) (\<lambda>ik. retP (ik_jwks_keys ik))"

definition sync_signing_public_key :: "bool \<Rightarrow> key_codec \<Rightarrow> string \<Rightarrow> string \<Rightarrow> jwk keys_prog" where
  "sync_signing_public_key running C org issuer =
     bindP (run_until_complete running (load_or_create C org issuer)) (\<lambda>ik. retP (ik_signing ik))"

definition adapter_sync :: "string \<Rightarrow> 'r keys_prog" where
  "adapter_sync issuer = throwP (RuntimeError ''use async variant'')"

section \<open>Round trip\<close>

lemma bindE_InrE:
  assumes "bindE r f = Inr y" obtains x where "r = Inr x" and "f x = Inr y"
  using assms by (auto simp: bindE_eq_Inr)

lemma deserialize_label: "deserialize_issuer_keys C label cell = Inr ik \<Longrightarrow> ik_issuer ik = label"
  unfolding deserialize_issuer_keys_def
  by (erule bindE_InrE, split json.split_asm; (simp; fail)?) (elim bindE_InrE, auto)

lemma codec_lawfulD:
  assumes "codec_lawful C"
  shows "json_ok (kc_private_dict C k)"
    and "json_ok j \<Longrightarrow> canon j = canon (kc_private_dict C k) \<Longrightarrow> kc_import C (jwk_kty k) j = Some k"
  using assms by (simp_all add: codec_lawful_def)

definition bundle_types_ok :: "issuer_keys \<Rightarrow> bool" where
  "bundle_types_ok ik =
     (jwk_kty (ik_signing ik) = RSA \<and> jwk_kty (ik_alt ik) = RSA \<and>
      list_all (\<lambda>k. jwk_kty k = RSA) (ik_decoys ik) \<and>
      jwk_kty (ik_ec_signing ik) = EC \<and> jwk_kty (ik_ec_alt ik) = EC)"

lemma serialize_ok:
  assumes "codec_lawful C"
  shows "json_ok (serialize_issuer_keys C ik)"
  using codec_lawfulD(1) [OF assms]
  by (simp add: serialize_issuer_keys_def dict_ok_def list_all_iff)

lemma import_keys_same:
  assumes "codec_lawful C" and "list_all (\<lambda>k. jwk_kty k = t) ks"
  shows "map canon vs = map canon (map (kc_private_dict C) ks) \<Longrightarrow> list_all json_ok vs \<Longrightarrow>
    import_keys C t vs = Inr ks"
  using assms(2)
proof (induction ks arbitrary: vs)
  case (Cons k ks)
  then obtain v vs' where vs: "vs = v # vs'" "canon v = canon (kc_private_dict C k)"
    "map canon vs' = map canon (map (kc_private_dict C) ks)" by auto
  with Cons show ?case
    using codec_lawfulD(2) [OF assms(1), of v k] by (auto simp: import_key_def)
qed simp

text \<open>
  Reading back any text that has the value of the serialised bundle gives the bundle, under the
  label it is read for.
\<close>

lemma deserialize_serialize:
  assumes "codec_lawful C" and "bundle_types_ok ik"
    and "loads s = Some w" and "canon w = canon (serialize_issuer_keys C ik)"
  shows "deserialize_issuer_keys C label (JsonbText s) = Inr (ik\<lparr>ik_issuer := label\<rparr>)"
proof -
  let ?d = "[(''seq'', JInt (ik_seq ik)), (''signing_rsa'', kc_private_dict C (ik_signing ik)),
           (''alt_rsa'', kc_private_dict C (ik_alt ik)),
           (''decoys'', JList (map (kc_private_dict C) (ik_decoys ik))),
           (''signing_ec'', kc_private_dict C (ik_ec_signing ik)),
           (''alt_ec'', kc_private_dict C (ik_ec_alt ik))]"
  from canon_obj [of w ?d] assms(4) obtain e where e: "w = JObj e" by (auto simp: serialize_issuer_keys_def)
  have ok: "json_ok (JObj e)" using loads_ok [OF assms(3)] e by simp
  then have "dict_ok e" by simp
  moreover have "dict_ok ?d" by (simp add: dict_ok_def)
  ultimately have get: "map_option canon (dget e k) = map_option canon (dget ?d k)" for k
    using canon_dget [of e ?d k] assms(4) e by (simp add: serialize_issuer_keys_def)
  have sub: "json_ok v" if "dget e k = Some v" for k v
    using ok that by (force simp: list_all_iff dest: dget_in_set)
  have key: "bindE (member e k) (import_key C (jwk_kty key)) = Inr key"
    if "dget ?d k = Some (kc_private_dict C key)" for k key
  proof -
    from get [of k] that obtain v where v: "dget e k = Some v" "canon v = canon (kc_private_dict C key)"
      by (cases "dget e k") auto
    from codec_lawfulD(2) [OF assms(1) sub [OF v(1)] v(2)] v(1) show ?thesis
      by (simp add: member_def import_key_def)
  qed
  have "dget e ''seq'' = Some (JInt (ik_seq ik))"
    using get [of "''seq''"] by (cases "dget e ''seq''") auto
  moreover obtain vs where vs: "dget e ''decoys'' = Some (JList vs)"
      "map canon vs = map canon (map (kc_private_dict C) (ik_decoys ik))"
    using get [of "''decoys''"] by (cases "dget e ''decoys''") (auto dest!: canon_list)
  moreover have "import_keys C RSA vs = Inr (ik_decoys ik)"
    using assms(2) sub [OF vs(1)] by (intro import_keys_same [OF assms(1) _ vs(2)]) (simp_all add: bundle_types_ok_def)
  moreover have "bindE (member e ''signing_rsa'') (import_key C RSA) = Inr (ik_signing ik)"
      "bindE (member e ''alt_rsa'') (import_key C RSA) = Inr (ik_alt ik)"
      "bindE (member e ''signing_ec'') (import_key C EC) = Inr (ik_ec_signing ik)"
      "bindE (member e ''alt_ec'') (import_key C EC) = Inr (ik_ec_alt ik)"
    using key [of "''signing_rsa''" "ik_signing ik"] key [of "''alt_rsa''" "ik_alt ik"]
      key [of "''signing_ec''" "ik_ec_signing ik"] key [of "''alt_ec''" "ik_ec_alt ik"] assms(2)
    by (simp_all add: bundle_types_ok_def)
  ultimately show ?thesis
    by (simp add: deserialize_issuer_keys_def assms(3) e member_def)
qed

section \<open>The invariant\<close>

text \<open>
  A bundle of \<open>org\<close>'s issuer: six keys of their types and different materials. The signing key's kid
  is under the label the bundle had when the key was made: \<open>org/issuer\<close> when the bundle was created
  by this process or the key never rotated, \<open>issuer\<close> when it was rotated after a restart.
\<close>

definition org_bundle_ok :: "string \<Rightarrow> string \<Rightarrow> issuer_keys \<Rightarrow> bool" where
  "org_bundle_ok org i ik =
     (let label = org @ ''/'' @ i in
      1 \<le> ik_seq ik \<and> ik_issuer ik \<in> {i, label} \<and>
      (has_key RSA (kid_prefix label @ ''-'' @ int_str (ik_seq ik)) (ik_signing ik) \<or>
       has_key RSA (kid_prefix i @ ''-'' @ int_str (ik_seq ik)) (ik_signing ik)) \<and>
      has_key RSA (kid_prefix label @ ''-alt'') (ik_alt ik) \<and>
      list_all2 (has_key RSA) [kid_prefix label @ ''-d1'', kid_prefix label @ ''-d2''] (ik_decoys ik) \<and>
      has_key EC (kid_prefix label @ ''-ec-1'') (ik_ec_signing ik) \<and>
      has_key EC (kid_prefix label @ ''-ec-alt'') (ik_ec_alt ik) \<and>
      distinct (ik_materials ik))"

lemma org_bundle_types: "org_bundle_ok org i ik \<Longrightarrow> bundle_types_ok ik"
  by (auto simp: org_bundle_ok_def bundle_types_ok_def has_key_def list_all2_Cons1 Let_def)

lemma org_bundle_relabel:
  "org_bundle_ok org i ik \<Longrightarrow> l \<in> {i, org @ ''/'' @ i} \<Longrightarrow> org_bundle_ok org i (ik\<lparr>ik_issuer := l\<rparr>)"
  by (auto simp: org_bundle_ok_def ik_materials_def ik_keys_def Let_def)

lemma ik_materials_relabel [simp]: "ik_materials (ik\<lparr>ik_issuer := l\<rparr>) = ik_materials ik"
  by (simp add: ik_materials_def ik_keys_def)

lemma org_bundle_new: "inj g \<Longrightarrow> org_bundle_ok org i (bundle_at (org @ ''/'' @ i) g n)"
  using issuer_keys_ok_bundle_at [of g "org @ ''/'' @ i" n]
  by (simp add: org_bundle_ok_def issuer_keys_ok_def bundle_at_def)

lemma org_bundle_rotate:
  assumes "org_bundle_ok org i ik" and "ik_rotate ik s = (ik', s')"
    and "ks_gen s (ks_drawn s) \<notin> set (ik_materials ik)"
  shows "org_bundle_ok org i ik'"
proof -
  have m: "ik_materials ik \<noteq> []" by (simp add: ik_materials_def ik_keys_def)
  have "distinct (ik_materials ik')"
    using assms(1,3) m list.set_sel(2)
    by (cases "ik_materials ik") (auto simp: ik_rotate_materials [OF assms(2)] org_bundle_ok_def Let_def)
  with assms(1,2) show ?thesis
    by (auto simp: org_bundle_ok_def ik_rotate_eq has_key_def Let_def)
qed

text \<open>
  Every bundle in use: those the resolvers of other organisations have cached (\<open>others\<close>), the ones
  this resolver has cached, and the stored ones.
\<close>

definition stored_bundle :: "key_codec \<Rightarrow> database \<Rightarrow> string \<Rightarrow> string \<Rightarrow> issuer_keys \<Rightarrow> bool" where
  "stored_bundle C db org i ik =
     (\<exists>s. dget (db_org_jwks db) (org, i) = Some s \<and> deserialize_issuer_keys C i (JsonbText s) = Inr ik)"

type_synonym bundles = "string \<times> string \<Rightarrow> issuer_keys \<Rightarrow> bool"

definition bundle_of :: "key_codec \<Rightarrow> string \<Rightarrow> bundles \<Rightarrow> org_keys \<Rightarrow> bundles" where
  "bundle_of C org others s k ik =
     (others k ik \<or> fst k = org \<and> dget (ok_cache s) (snd k) = Some ik \<or>
      stored_bundle C (ok_db s) (fst k) (snd k) ik)"

text \<open>
  The invariant of a resolver on a working database whose \<open>orgs\<close> table has the organisation: all
  stored texts are readable, every bundle is well formed and drawn, and no two (organisation,
  issuer) pairs share key material.
\<close>

definition bundles_ok :: "(nat \<Rightarrow> nat) \<Rightarrow> nat \<Rightarrow> bundles \<Rightarrow> bool" where
  "bundles_ok g n B =
     ((\<forall>k ik. B k ik \<longrightarrow> org_bundle_ok (fst k) (snd k) ik \<and> set (ik_materials ik) \<subseteq> g ` {..<n}) \<and>
      (\<forall>k l ik jk. B k ik \<longrightarrow> B l jk \<longrightarrow> k \<noteq> l \<longrightarrow> set (ik_materials ik) \<inter> set (ik_materials jk) = {}))"

definition keys_db_ok :: "key_codec \<Rightarrow> string \<Rightarrow> database \<Rightarrow> bool" where
  "keys_db_ok C org db =
     (db_healthy db \<and> jsonb_lawful (db_jsonb db) \<and> (\<forall>t. db_jsonb db t \<noteq> None) \<and>
      org \<in> og_org_id ` set (db_orgs db) \<and>
      (\<forall>q i t. dget (db_org_jwks db) (q, i) = Some t \<longrightarrow>
         (\<exists>ik. deserialize_issuer_keys C i (JsonbText t) = Inr ik)))"

definition org_keys_inv :: "key_codec \<Rightarrow> string \<Rightarrow> bundles \<Rightarrow> org_keys \<Rightarrow> bool" where
  "org_keys_inv C org B s =
     (codec_lawful C \<and> inj (ks_gen s) \<and> keys_db_ok C org (ok_db s) \<and>
      bundles_ok (ks_gen s) (ks_drawn s) (bundle_of C org B s))"

lemma bundles_okD:
  assumes "bundles_ok g n B" and "B k ik"
  shows "org_bundle_ok (fst k) (snd k) ik" and "set (ik_materials ik) \<subseteq> g ` {..<n}"
    and "B l jk \<Longrightarrow> k \<noteq> l \<Longrightarrow> set (ik_materials ik) \<inter> set (ik_materials jk) = {}"
  using assms unfolding bundles_ok_def by blast+

lemma bundles_ok_add:
  assumes ok: "bundles_ok g n B" and nm: "n \<le> m"
    and sub: "\<And>k ik. B' k ik \<Longrightarrow> B k ik \<or> k = key \<and> org_bundle_ok (fst key) (snd key) ik \<and> set (ik_materials ik) \<subseteq> M"
    and M: "M \<subseteq> g ` {..<m}" and other: "\<And>l jk. B l jk \<Longrightarrow> l \<noteq> key \<Longrightarrow> M \<inter> set (ik_materials jk) = {}"
  shows "bundles_ok g m B'"
proof -
  have mono: "g ` {..<n} \<subseteq> g ` {..<m}" using nm by auto
  have one: "org_bundle_ok (fst k) (snd k) ik \<and> set (ik_materials ik) \<subseteq> g ` {..<m}" if "B' k ik" for k ik
    using sub [OF that] bundles_okD(1,2) [OF ok, of k ik] mono M by blast
  have two: "set (ik_materials ik) \<inter> set (ik_materials jk) = {}"
    if "B' k ik" "B' l jk" "k \<noteq> l" for k l ik jk
    using sub [OF that(1)] sub [OF that(2)] bundles_okD(3) [OF ok, of k ik l jk] other [of k ik] other [of l jk] that(3)
    by blast
  show ?thesis unfolding bundles_ok_def using one two by blast
qed

lemma keys_db_ok_counter: "keys_db_ok C org db \<Longrightarrow> keys_db_ok C org (db\<lparr>db_statements := n\<rparr>)"
  by (simp add: keys_db_ok_def db_healthy_def)

lemma keys_db_okD:
  assumes "keys_db_ok C org db"
  shows "db_healthy db" "jsonb_lawful (db_jsonb db)" "\<exists>u. db_jsonb db t = Some u" "org \<in> og_org_id ` set (db_orgs db)"
    and "dget (db_org_jwks db) (q, i) = Some v \<Longrightarrow> \<exists>ik. deserialize_issuer_keys C i (JsonbText v) = Inr ik"
  using assms unfolding keys_db_ok_def by blast+

section \<open>Persisting\<close>

text \<open>On a working database the bundle is stored, and what is stored reads back as the bundle.\<close>

lemma persist_ok:
  assumes "codec_lawful C" and "keys_db_ok C org (ok_db s)" and "bundle_types_ok ik"
  obtains t where
    "persist C org i ik s = (Inr (), s\<lparr>ok_db := (ok_db s)\<lparr>db_statements := Suc (db_statements (ok_db s)),
       db_org_jwks := dset (db_org_jwks (ok_db s)) (org, i) t\<rparr>\<rparr>)"
    and "deserialize_issuer_keys C i (JsonbText t) = Inr (ik\<lparr>ik_issuer := i\<rparr>)"
proof -
  note db = keys_db_okD [OF assms(2)]
  let ?raw = "dumps (serialize_issuer_keys C ik)"
  obtain t where t: "db_jsonb (ok_db s) ?raw = Some t" using db(3) by blast
  have "loads ?raw = Some (serialize_issuer_keys C ik)" by (rule loads_dumps [OF serialize_ok [OF assms(1)]])
  from jsonb_lawfulD [OF db(2) t this] obtain w where w: "loads t = Some w"
    "canon w = canon (serialize_issuer_keys C ik)" by blast
  have "persist C org i ik s = (Inr (), s\<lparr>ok_db := (ok_db s)\<lparr>db_statements := Suc (db_statements (ok_db s)),
       db_org_jwks := dset (db_org_jwks (ok_db s)) (org, i) t\<rparr>\<rparr>)"
    using db(1,4) t by (simp add: persist_def dbP_def upsert_key_data_def statement_healthy)
  with deserialize_serialize [OF assms(1,3) w] show ?thesis by (intro that)
qed

lemma keys_db_ok_store:
  assumes "keys_db_ok C org db" and "deserialize_issuer_keys C i (JsonbText t) = Inr ik"
  shows "keys_db_ok C org (db\<lparr>db_statements := n, db_org_jwks := dset (db_org_jwks db) (org, i) t\<rparr>)"
  using assms by (auto simp: keys_db_ok_def db_healthy_def)

section \<open>Loading\<close>

lemma org_keys_updates:
  fixes s :: org_keys
  shows "s\<lparr>ok_db := d, ks_drawn := n\<rparr> = s\<lparr>ks_drawn := n, ok_db := d\<rparr>"
    and "s\<lparr>ok_db := d, ok_cache := c\<rparr> = s\<lparr>ok_cache := c, ok_db := d\<rparr>"
    and "s\<lparr>ok_cache := c, ks_drawn := n\<rparr> = s\<lparr>ks_drawn := n, ok_cache := c\<rparr>"
  by simp_all

text \<open>The three ways a bundle is found; none of them raises on a working database.\<close>

lemma load_or_create_cases:
  assumes "load_or_create C org i s = (r, s')" and inv: "org_keys_inv C org B s"
  obtains (cached) ik where "r = Inr ik" "dget (ok_cache s) i = Some ik" "s' = s"
  | (loaded) ik where "r = Inr ik" "dget (ok_cache s) i = None" "stored_bundle C (ok_db s) org i ik"
      "s' = s\<lparr>ok_cache := dset (ok_cache s) i ik,
              ok_db := (ok_db s)\<lparr>db_statements := Suc (db_statements (ok_db s))\<rparr>\<rparr>"
  | (created) ik t where "r = Inr ik" "dget (ok_cache s) i = None" "dget (db_org_jwks (ok_db s)) (org, i) = None"
      "ik = bundle_at (org @ ''/'' @ i) (ks_gen s) (ks_drawn s)"
      "deserialize_issuer_keys C i (JsonbText t) = Inr (ik\<lparr>ik_issuer := i\<rparr>)"
      "s' = s\<lparr>ks_drawn := ks_drawn s + 6, ok_cache := dset (ok_cache s) i ik,
              ok_db := (ok_db s)\<lparr>db_statements := Suc (Suc (db_statements (ok_db s))),
                db_org_jwks := dset (db_org_jwks (ok_db s)) (org, i) t\<rparr>\<rparr>"
proof (cases "dget (ok_cache s) i")
  case (Some ik)
  then have "load_or_create C org i s = (Inr ik, s)" by (simp add: load_or_create_def bindP_apply)
  with assms(1) show ?thesis by (intro cached [OF _ Some]) simp_all
next
  case None
  have db: "keys_db_ok C org (ok_db s)" and C: "codec_lawful C" and inj: "inj (ks_gen s)"
    using inv by (simp_all add: org_keys_inv_def)
  let ?db1 = "(ok_db s)\<lparr>db_statements := Suc (db_statements (ok_db s))\<rparr>"
  have sel: "dbP (select_key_data org i) s = (Inr (dget (db_org_jwks (ok_db s)) (org, i)), s\<lparr>ok_db := ?db1\<rparr>)"
    using keys_db_okD(1) [OF db] by (simp add: dbP_def select_key_data_def statement_healthy)
  show ?thesis
  proof (cases "dget (db_org_jwks (ok_db s)) (org, i)")
    case row: (Some t)
    then obtain ik where ik: "deserialize_issuer_keys C i (JsonbText t) = Inr ik"
      using keys_db_okD(5) [OF db] by blast
    have st: "stored_bundle C (ok_db s) org i ik" using ik row by (simp add: stored_bundle_def)
    have run: "load_or_create C org i s = (Inr ik, s\<lparr>ok_cache := dset (ok_cache s) i ik, ok_db := ?db1\<rparr>)"
      by (simp add: load_or_create_def bindP_apply None sel row ik cacheP_def)
    with assms(1) show ?thesis by (intro loaded [OF _ None st]) simp_all
  next
    case row: None
    let ?ik = "bundle_at (org @ ''/'' @ i) (ks_gen s) (ks_drawn s)"
    let ?s1 = "s\<lparr>ks_drawn := ks_drawn s + 6, ok_db := ?db1\<rparr>"
    have "keys_db_ok C org (ok_db ?s1)" using keys_db_ok_counter [OF db] by simp
    moreover have "bundle_types_ok ?ik" by (rule org_bundle_types [OF org_bundle_new [OF inj]])
    ultimately obtain t where t: "persist C org i ?ik ?s1 = (Inr (), ?s1\<lparr>ok_db := (ok_db ?s1)
        \<lparr>db_statements := Suc (db_statements (ok_db ?s1)), db_org_jwks := dset (db_org_jwks (ok_db ?s1)) (org, i) t\<rparr>\<rparr>)"
      "deserialize_issuer_keys C i (JsonbText t) = Inr (?ik\<lparr>ik_issuer := i\<rparr>)"
      by (rule persist_ok [OF C])
    have eq: "s\<lparr>ok_db := ?db1, ks_drawn := ks_drawn s + 6\<rparr> = ?s1" by simp
    have "load_or_create C org i s = (Inr ?ik, s\<lparr>ks_drawn := ks_drawn s + 6, ok_cache := dset (ok_cache s) i ?ik,
              ok_db := (ok_db s)\<lparr>db_statements := Suc (Suc (db_statements (ok_db s))),
                db_org_jwks := dset (db_org_jwks (ok_db s)) (org, i) t\<rparr>\<rparr>)"
      using t(1) by (simp add: load_or_create_def bindP_apply None sel row callP_apply new_issuer_keys_eq cacheP_def
          org_keys_updates)
    with assms(1) show ?thesis by (intro created [OF _ None row refl t(2)]) simp_all
  qed
qed

text \<open>Whatever way it took, the bundle is then cached, and a second call returns it at once.\<close>

lemma load_or_create_InrE:
  assumes "load_or_create C org i s = (r, s')" and "org_keys_inv C org B s"
  obtains ik where "r = Inr ik" and "dget (ok_cache s') i = Some ik"
    and "load_or_create C org i s' = (Inr ik, s')"
proof -
  have hit: "load_or_create C org i s' = (Inr ik, s')" if "dget (ok_cache s') i = Some ik" for ik
    using that by (simp add: load_or_create_def bindP_apply)
  from assms show thesis
    by (cases rule: load_or_create_cases) (auto intro!: that [OF _ _ hit])
qed

lemma stored_bundle_counter [simp]:
  "stored_bundle C (db\<lparr>db_statements := n\<rparr>) = stored_bundle C db"
  by (simp add: stored_bundle_def fun_eq_iff)

lemma stored_bundle_dset:
  "stored_bundle C (db\<lparr>db_statements := n, db_org_jwks := dset (db_org_jwks db) (q, i) t\<rparr>) q' i' ik \<Longrightarrow>
   stored_bundle C db q' i' ik \<or> (q', i') = (q, i) \<and> deserialize_issuer_keys C i (JsonbText t) = Inr ik"
  by (auto simp: stored_bundle_def split: if_splits)

lemma load_or_create_inv:
  assumes run: "load_or_create C org i s = (r, s')" and inv: "org_keys_inv C org B s"
  shows "org_keys_inv C org B s'"
  using run inv
proof (cases rule: load_or_create_cases)
  case (loaded ik)
  have b: "bundles_ok (ks_gen s) (ks_drawn s) (bundle_of C org B s)" using inv by (simp add: org_keys_inv_def)
  have st: "bundle_of C org B s (org, i) ik" using loaded(3) by (simp add: bundle_of_def)
  have "bundles_ok (ks_gen s) (ks_drawn s) (bundle_of C org B s')"
  proof (rule bundles_ok_add [OF b, where key = "(org, i)" and M = "{}"])
    fix k jk assume "bundle_of C org B s' k jk"
    then show "bundle_of C org B s k jk \<or> k = (org, i) \<and> org_bundle_ok (fst (org, i)) (snd (org, i)) jk \<and>
        set (ik_materials jk) \<subseteq> {}"
      using st by (cases k) (simp add: loaded(4) bundle_of_def split: if_splits, blast)
  qed (auto simp: loaded(4))
  with inv keys_db_ok_counter show ?thesis by (simp add: org_keys_inv_def loaded(4))
next
  case (created ik t)
  have b: "bundles_ok (ks_gen s) (ks_drawn s) (bundle_of C org B s)" and inj: "inj (ks_gen s)"
    and db: "keys_db_ok C org (ok_db s)" using inv by (simp_all add: org_keys_inv_def)
  let ?M = "ks_gen s ` {ks_drawn s..<ks_drawn s + 6}"
  have mats: "set (ik_materials ik) = ?M" unfolding created(4) by (rule bundle_at_materials_set)
  have ok: "org_bundle_ok org i ik" unfolding created(4) by (rule org_bundle_new [OF inj])
  have "bundles_ok (ks_gen s) (ks_drawn s + 6) (bundle_of C org B s')"
  proof (rule bundles_ok_add [OF b, where key = "(org, i)" and M = ?M])
    fix k jk assume "bundle_of C org B s' k jk"
    then have "bundle_of C org B s k jk \<or> k = (org, i) \<and> jk \<in> {ik, ik\<lparr>ik_issuer := i\<rparr>}"
      using created(5) stored_bundle_dset [where q' = "fst k" and i' = "snd k" and ik = jk and q = org and i = i and t = t and C = C and db = "ok_db s"]
      by (cases k) (auto simp: created(6) bundle_of_def split: if_splits)
    then show "bundle_of C org B s k jk \<or> k = (org, i) \<and> org_bundle_ok (fst (org, i)) (snd (org, i)) jk \<and>
        set (ik_materials jk) \<subseteq> ?M"
      using ok org_bundle_relabel [OF ok, of i] mats by auto
  next
    fix l jk assume "bundle_of C org B s l jk"
    from bundles_okD(2) [OF b this] show "?M \<inter> set (ik_materials jk) = {}"
      using inj by (fastforce simp: inj_eq)
  qed (auto simp: created(6))
  moreover have "keys_db_ok C org (ok_db s')"
    using keys_db_ok_store [OF db created(5)] by (simp add: created(6))
  ultimately show ?thesis using inv by (simp add: org_keys_inv_def created(6))
qed (use inv in simp)

lemma load_or_create_ok:
  assumes "load_or_create C org i s = (Inr ik, s')" and "org_keys_inv C org B s"
  shows "org_bundle_ok org i ik" and "bundle_of C org B s' (org, i) ik"
proof -
  show "bundle_of C org B s' (org, i) ik"
  proof -
    obtain jk where "Inr ik = (Inr jk :: py_exn + issuer_keys)" "dget (ok_cache s') i = Some jk"
      by (rule load_or_create_InrE [OF assms])
    then show ?thesis by (simp add: bundle_of_def)
  qed
  moreover have "bundles_ok (ks_gen s') (ks_drawn s') (bundle_of C org B s')"
    using load_or_create_inv [OF assms] by (simp add: org_keys_inv_def)
  ultimately show "org_bundle_ok org i ik" using bundles_okD(1) by fastforce
qed

section \<open>Distinct kids\<close>

lemma takeWhile_upto: "d \<notin> set z \<Longrightarrow> takeWhile (\<lambda>c. c \<noteq> d) (z @ d # w) = z"
  by (induction z) auto

lemma append_dash_eq:
  assumes "p @ ''-'' @ a = q @ ''-'' @ b" and "CHR ''-'' \<notin> set a" and "CHR ''-'' \<notin> set b"
  shows "p = q \<and> a = b"
proof -
  have "takeWhile (\<lambda>c. c \<noteq> CHR ''-'') (rev (x @ ''-'' @ y)) = rev y" if "CHR ''-'' \<notin> set y" for x y
    using takeWhile_upto [of "CHR ''-''" "rev y" "rev x"] that by simp
  from this [OF assms(2), of p] this [OF assms(3), of q] have "rev a = rev b" unfolding assms(1) by metis
  then have "a = b" by simp
  with assms(1) show ?thesis by simp
qed

lemma int_str_no_dash: "0 \<le> n \<Longrightarrow> CHR ''-'' \<notin> set (int_str n)"
  using nat_str_no_char [of "CHR ''-''" "nat n"] by (simp add: int_str_def code_def)

lemma org_bundle_kids_distinct:
  assumes "org_bundle_ok org i ik"
  shows "distinct (map jwk_kid (ik_jwks_keys ik))"
proof -
  let ?l = "org @ ''/'' @ i"
  have n: "0 \<le> ik_seq ik" using assms by (simp add: org_bundle_ok_def Let_def)
  obtain p where p: "p = ?l \<or> p = i" "jwk_kid (ik_signing ik) = kid_prefix p @ ''-'' @ int_str (ik_seq ik)"
    using assms by (auto simp: org_bundle_ok_def has_key_def Let_def)
  have kids: "map jwk_kid (ik_jwks_keys ik) = (kid_prefix p @ ''-'' @ int_str (ik_seq ik)) #
      map ((@) (kid_prefix ?l)) [''-ec-1'', ''-d1'', ''-d2'']"
    using assms p(2) by (auto simp: org_bundle_ok_def ik_jwks_keys_def has_key_def list_all2_Cons1 Let_def)
  have nd: "int_str (ik_seq ik) \<noteq> ''d1''" "int_str (ik_seq ik) \<noteq> ''d2''"
    by (rule int_str_no_letter [OF n, of "CHR ''d''"]; simp add: code_def)+
  have dd: "kid_prefix p @ ''-'' @ int_str (ik_seq ik) \<noteq> kid_prefix ?l @ ''-'' @ d"
    if "d \<in> {''d1'', ''d2''}" for d
  proof
    have dash: "CHR ''-'' \<notin> set d" using that by fastforce
    assume "kid_prefix p @ ''-'' @ int_str (ik_seq ik) = kid_prefix ?l @ ''-'' @ d"
    from append_dash_eq [OF this int_str_no_dash [OF n] dash] have "int_str (ik_seq ik) = d" by simp
    with that nd show False by blast
  qed
  have ec: "kid_prefix p @ ''-'' @ int_str (ik_seq ik) \<noteq> (kid_prefix ?l @ ''-ec'') @ ''-'' @ ''1''"
  proof
    assume "kid_prefix p @ ''-'' @ int_str (ik_seq ik) = (kid_prefix ?l @ ''-ec'') @ ''-'' @ ''1''"
    from append_dash_eq [OF this int_str_no_dash [OF n]] have "kid_prefix p = kid_prefix ?l @ ''-ec''"
      by simp
    then have "length p = length ?l + 3" by (simp add: kid_prefix_def)
    with p(1) show False by auto
  qed
  from dd [of "''d1''"] dd [of "''d2''"] ec show ?thesis unfolding kids by simp
qed

end
