(* ===== verification/OrgResolver.thy ===== *)
theory OrgResolver
  imports OrgKeys Tokens
begin

text \<open>
  The per-organisation resolver meets the \<open>KeyResolver\<close> contract on a working database, so that every
  law proved for the global keys holds for an organisation's too; its keys survive a restart; a
  rotation after one names the new key differently.
\<close>

section \<open>Frames\<close>

text \<open>Loading one issuer's keys leaves every bundle in use where it is.\<close>

lemma load_or_create_other:
  assumes "load_or_create C org i s = (r, s')" and "org_keys_inv C org B s" and "j \<noteq> i"
  shows "dget (ok_cache s') j = dget (ok_cache s) j"
    and "dget (db_org_jwks (ok_db s')) (org, j) = dget (db_org_jwks (ok_db s)) (org, j)"
proof -
  from assms(1,2) have "dget (ok_cache s') j = dget (ok_cache s) j \<and>
      dget (db_org_jwks (ok_db s')) (org, j) = dget (db_org_jwks (ok_db s)) (org, j)"
    by (cases rule: load_or_create_cases) (use assms(3) in simp_all)
  then show "dget (ok_cache s') j = dget (ok_cache s) j"
    "dget (db_org_jwks (ok_db s')) (org, j) = dget (db_org_jwks (ok_db s)) (org, j)" by blast+
qed

lemma load_or_create_bundles:
  assumes "load_or_create C org i s = (r, s')" and "org_keys_inv C org B s" and "bundle_of C org B s k ik"
  shows "bundle_of C org B s' k ik"
  using assms(1,2)
proof (cases rule: load_or_create_cases)
  case (loaded jk)
  with assms(3) show ?thesis by (auto simp: bundle_of_def)
next
  case (created jk t)
  with assms(3) show ?thesis by (cases k) (auto simp: bundle_of_def stored_bundle_def)
qed (use assms(3) in simp)

section \<open>The contract\<close>

text \<open>
  The operations without their exceptions: on a working database none is raised, so the value
  given for that case is never used.
\<close>

definition org_bundle :: "key_codec \<Rightarrow> string \<Rightarrow> string \<Rightarrow> org_keys \<Rightarrow> issuer_keys \<times> org_keys" where
  "org_bundle C org i s =
     (case load_or_create C org i s of
        (Inr ik, s') \<Rightarrow> (ik, s')
      | (Inl e, s') \<Rightarrow> (fst (new_issuer_keys i s'), s'))"

definition org_signing_key :: "key_codec \<Rightarrow> string \<Rightarrow> string \<Rightarrow> string \<Rightarrow> org_keys \<Rightarrow> jwk \<times> org_keys" where
  "org_signing_key C org i a s = (let (ik, s') = org_bundle C org i s in (ik_signing_key_for_alg ik a, s'))"

definition org_alt_key :: "key_codec \<Rightarrow> string \<Rightarrow> string \<Rightarrow> string \<Rightarrow> org_keys \<Rightarrow> jwk \<times> org_keys" where
  "org_alt_key C org i a s = (let (ik, s') = org_bundle C org i s in (ik_alt_key_for_alg ik a, s'))"

definition org_jwks :: "key_codec \<Rightarrow> string \<Rightarrow> string \<Rightarrow> org_keys \<Rightarrow> jwk list \<times> org_keys" where
  "org_jwks C org i s = (let (ik, s') = org_bundle C org i s in (ik_jwks_keys ik, s'))"

definition org_public_key :: "key_codec \<Rightarrow> string \<Rightarrow> string \<Rightarrow> org_keys \<Rightarrow> jwk \<times> org_keys" where
  "org_public_key C org i s = (let (ik, s') = org_bundle C org i s in (ik_signing ik, s'))"

lemma org_bundle_run:
  assumes "org_keys_inv C org B s" and "org_bundle C org i s = (ik, s')"
  shows "load_or_create C org i s = (Inr ik, s')"
proof -
  obtain r t where l: "load_or_create C org i s = (r, t)" by (cases "load_or_create C org i s")
  from l assms(1) obtain jk where "r = Inr jk" by (rule load_or_create_InrE)
  with l assms(2) show ?thesis by (simp add: org_bundle_def)
qed

text \<open>The contract's operations are the code's, on a working database.\<close>

lemma async_ops_eq:
  assumes "org_keys_inv C org B s"
  shows "async_signing_key_for_alg C org i a s = (case org_signing_key C org i a s of (k, s') \<Rightarrow> (Inr k, s'))"
    and "async_alt_key_for_alg C org i a s = (case org_alt_key C org i a s of (k, s') \<Rightarrow> (Inr k, s'))"
    and "async_jwks_keys C org i s = (case org_jwks C org i s of (ks, s') \<Rightarrow> (Inr ks, s'))"
    and "async_signing_public_key C org i s = (case org_public_key C org i s of (k, s') \<Rightarrow> (Inr k, s'))"
proof -
  obtain ik s' where b: "org_bundle C org i s = (ik, s')" by (cases "org_bundle C org i s")
  note l = org_bundle_run [OF assms b]
  show "async_signing_key_for_alg C org i a s = (case org_signing_key C org i a s of (k, s') \<Rightarrow> (Inr k, s'))"
    "async_alt_key_for_alg C org i a s = (case org_alt_key C org i a s of (k, s') \<Rightarrow> (Inr k, s'))"
    "async_jwks_keys C org i s = (case org_jwks C org i s of (ks, s') \<Rightarrow> (Inr ks, s'))"
    "async_signing_public_key C org i s = (case org_public_key C org i s of (k, s') \<Rightarrow> (Inr k, s'))"
    by (simp_all add: async_signing_key_for_alg_def async_alt_key_for_alg_def async_jwks_keys_def
        async_signing_public_key_def org_signing_key_def org_alt_key_def org_jwks_def org_public_key_def
        bindP_apply l b)
qed

lemma org_bundle_ok_run:
  assumes "org_keys_inv C org B s" and "org_bundle C org i s = (ik, s')"
  shows "org_keys_inv C org B s'" "org_bundle_ok org i ik" "bundle_of C org B s' (org, i) ik"
    "org_bundle C org i s' = (ik, s')"
proof -
  note l = org_bundle_run [OF assms]
  show "org_keys_inv C org B s'" by (rule load_or_create_inv [OF l assms(1)])
  show "org_bundle_ok org i ik" "bundle_of C org B s' (org, i) ik"
    by (rule load_or_create_ok [OF l assms(1)])+
  from l assms(1) obtain jk where "Inr ik = (Inr jk :: py_exn + issuer_keys)"
    "load_or_create C org i s' = (Inr jk, s')" by (rule load_or_create_InrE)
  then show "org_bundle C org i s' = (ik, s')" by (simp add: org_bundle_def)
qed

lemma org_alt_not_in_jwks:
  assumes "org_bundle_ok org i ik"
  shows "jwk_material (ik_alt_key_for_alg ik a) \<notin> jwk_material ` set (ik_jwks_keys ik)"
  using assms
  by (auto simp: org_bundle_ok_def ik_materials_def ik_keys_def ik_jwks_keys_def ik_alt_key_for_alg_def Let_def)

lemma signing_key_material: "jwk_material (ik_signing_key_for_alg ik a) \<in> set (ik_materials ik)"
  by (simp add: ik_signing_key_for_alg_def ik_materials_def ik_keys_def)

text \<open>No other bundle in use publishes a key of this one.\<close>

lemma other_bundle_jwks:
  assumes "org_keys_inv C org B s" and "bundle_of C org B s k ik" and "bundle_of C org B s l jk" and "k \<noteq> l"
  shows "jwk_material (ik_signing_key_for_alg ik a) \<notin> jwk_material ` set (ik_jwks_keys jk)"
proof -
  have "set (ik_materials ik) \<inter> set (ik_materials jk) = {}"
    using assms(1) bundles_okD(3) [OF _ assms(2,3,4)] unfolding org_keys_inv_def by blast
  then show ?thesis using signing_key_material [of ik a] jwks_materials [of jk] by blast
qed

interpretation org_keys: key_resolver "org_signing_key C org" "org_alt_key C org" "org_jwks C org"
  "org_public_key C org" "org_keys_inv C org B"
  for C org B
proof unfold_locales
  fix s :: org_keys and i j a k ks s'
  assume inv: "org_keys_inv C org B s"
  obtain ik t where b: "org_bundle C org i s = (ik, t)" by (cases "org_bundle C org i s")
  note r = org_bundle_ok_run [OF inv b]
  show "org_keys_inv C org B (snd (org_signing_key C org i a s))"
    "org_keys_inv C org B (snd (org_alt_key C org i a s))"
    "org_keys_inv C org B (snd (org_jwks C org i s))"
    "org_keys_inv C org B (snd (org_public_key C org i s))"
    using r(1) by (simp_all add: org_signing_key_def org_alt_key_def org_jwks_def org_public_key_def b)
  show "distinct (map jwk_kid (fst (org_jwks C org i s)))"
    by (simp add: org_jwks_def b org_bundle_kids_distinct [OF r(2)])
  show "jwk_kty (fst (org_signing_key C org i a s)) = (if a = ''ES256'' then EC else RSA)"
    using org_bundle_types [OF r(2)]
    by (simp add: org_signing_key_def b ik_signing_key_for_alg_def bundle_types_ok_def)
  show "k \<in> set (fst (org_jwks C org i s'))" if "org_signing_key C org i a s = (k, s')"
    using that r(4) by (auto simp: org_signing_key_def org_jwks_def b ik_signing_key_for_alg_def ik_jwks_keys_def)
  show "jwk_material k \<notin> jwk_material ` set (fst (org_jwks C org i s'))" if "org_alt_key C org i a s = (k, s')"
    using that r(4) org_alt_not_in_jwks [OF r(2)] by (auto simp: org_alt_key_def org_jwks_def b)
  show "org_jwks C org i s' = (ks, s')" if "org_jwks C org i s = (ks, s')"
    using that r(4) by (auto simp: org_jwks_def b)
  show "jwk_material k \<notin> jwk_material ` set (fst (org_jwks C org j s'))"
    if ne: "i \<noteq> j" and s': "org_signing_key C org i a s = (k, s')"
  proof -
    have k: "s' = t" "k = ik_signing_key_for_alg ik a" using s' by (simp_all add: org_signing_key_def b)
    obtain jk u where j: "org_bundle C org j t = (jk, u)" by (cases "org_bundle C org j t")
    note q = org_bundle_ok_run [OF r(1) j]
    have "bundle_of C org B u (org, i) ik"
      by (rule load_or_create_bundles [OF org_bundle_run [OF r(1) j] r(1,3)])
    from other_bundle_jwks [OF q(1) this q(3)] ne show ?thesis by (simp add: k org_jwks_def j)
  qed
qed

section \<open>Rotation\<close>

lemma org_rotate_run:
  assumes "org_rotate C org i s = (r, s')" and inv: "org_keys_inv C org B s"
  obtains ik s1 ik' t where "load_or_create C org i s = (Inr ik, s1)"
    and "ik' = fst (ik_rotate ik s1)" and "r = Inr (jwk_kid (ik_signing ik'))"
    and "deserialize_issuer_keys C i (JsonbText t) = Inr (ik'\<lparr>ik_issuer := i\<rparr>)"
    and "s' = s1\<lparr>ks_drawn := Suc (ks_drawn s1), ok_cache := dset (ok_cache s1) i ik',
       ok_db := (ok_db s1)\<lparr>db_statements := Suc (db_statements (ok_db s1)),
         db_org_jwks := dset (db_org_jwks (ok_db s1)) (org, i) t\<rparr>\<rparr>"
proof -
  obtain q s1 where l: "load_or_create C org i s = (q, s1)" by (cases "load_or_create C org i s")
  from l inv obtain ik where q: "q = Inr ik" by (rule load_or_create_InrE)
  have inv1: "org_keys_inv C org B s1" by (rule load_or_create_inv [OF l inv])
  define ik' where ik': "ik' = fst (ik_rotate ik s1)"
  let ?s2 = "s1\<lparr>ks_drawn := Suc (ks_drawn s1), ok_cache := dset (ok_cache s1) i ik'\<rparr>"
  have "bundle_types_ok ik" by (rule org_bundle_types [OF load_or_create_ok(1) [OF l [unfolded q] inv]])
  then have ty: "bundle_types_ok ik'" by (simp add: bundle_types_ok_def ik' ik_rotate_eq)
  have db: "keys_db_ok C org (ok_db ?s2)" and C: "codec_lawful C" using inv1 by (simp_all add: org_keys_inv_def)
  obtain t where t: "persist C org i ik' ?s2 = (Inr (), ?s2\<lparr>ok_db := (ok_db ?s2)
      \<lparr>db_statements := Suc (db_statements (ok_db ?s2)), db_org_jwks := dset (db_org_jwks (ok_db ?s2)) (org, i) t\<rparr>\<rparr>)"
    "deserialize_issuer_keys C i (JsonbText t) = Inr (ik'\<lparr>ik_issuer := i\<rparr>)"
    by (rule persist_ok [OF C db ty])
  have rot: "ik_rotate ik s1 = (ik', s1\<lparr>ks_drawn := Suc (ks_drawn s1)\<rparr>)" by (simp add: ik' ik_rotate_eq)
  have "org_rotate C org i s = (Inr (jwk_kid (ik_signing ik')), ?s2\<lparr>ok_db := (ok_db ?s2)
      \<lparr>db_statements := Suc (db_statements (ok_db ?s2)), db_org_jwks := dset (db_org_jwks (ok_db ?s2)) (org, i) t\<rparr>\<rparr>)"
    using t(1) by (simp add: org_rotate_def bindP_apply l q callP_apply rot cacheP_def)
  with assms(1) t(2) l q show ?thesis by (intro that [of ik s1 ik' t, OF _ ik']) simp_all
qed

lemma org_rotate_inv:
  assumes run: "org_rotate C org i s = (r, s')" and inv: "org_keys_inv C org B s"
  shows "org_keys_inv C org B s'"
  using run inv
proof (rule org_rotate_run)
  fix ik s1 ik' t
  assume l: "load_or_create C org i s = (Inr ik, s1)" and ik': "ik' = fst (ik_rotate ik s1)"
    and d: "deserialize_issuer_keys C i (JsonbText t) = Inr (ik'\<lparr>ik_issuer := i\<rparr>)"
    and s': "s' = s1\<lparr>ks_drawn := Suc (ks_drawn s1), ok_cache := dset (ok_cache s1) i ik',
       ok_db := (ok_db s1)\<lparr>db_statements := Suc (db_statements (ok_db s1)),
         db_org_jwks := dset (db_org_jwks (ok_db s1)) (org, i) t\<rparr>\<rparr>"
  have inv1: "org_keys_inv C org B s1" by (rule load_or_create_inv [OF l inv])
  have b: "bundles_ok (ks_gen s1) (ks_drawn s1) (bundle_of C org B s1)" and inj: "inj (ks_gen s1)"
    and db: "keys_db_ok C org (ok_db s1)" using inv1 by (simp_all add: org_keys_inv_def)
  note ik = load_or_create_ok [OF l inv]
  have old: "set (ik_materials ik) \<subseteq> ks_gen s1 ` {..<ks_drawn s1}" by (rule bundles_okD(2) [OF b ik(2)])
  have fresh: "ks_gen s1 (ks_drawn s1) \<notin> ks_gen s1 ` {..<ks_drawn s1}" using inj by (auto simp: inj_eq)
  have rot: "ik_rotate ik s1 = (ik', s1\<lparr>ks_drawn := Suc (ks_drawn s1)\<rparr>)" by (simp add: ik' ik_rotate_eq)
  let ?M = "insert (ks_gen s1 (ks_drawn s1)) (set (ik_materials ik))"
  have mats: "set (ik_materials ik') \<subseteq> ?M"
    unfolding ik_rotate_materials [OF rot] by (cases "ik_materials ik") auto
  have ok: "org_bundle_ok org i ik'" using org_bundle_rotate [OF ik(1) rot] old fresh by blast
  have "bundles_ok (ks_gen s1) (Suc (ks_drawn s1)) (bundle_of C org B s')"
  proof (rule bundles_ok_add [OF b, where key = "(org, i)" and M = ?M])
    fix k jk assume "bundle_of C org B s' k jk"
    then have "bundle_of C org B s1 k jk \<or> k = (org, i) \<and> jk \<in> {ik', ik'\<lparr>ik_issuer := i\<rparr>}"
      using d stored_bundle_dset [where q' = "fst k" and i' = "snd k" and ik = jk and q = org and i = i
          and t = t and C = C and db = "ok_db s1"]
      by (cases k) (auto simp: s' bundle_of_def split: if_splits)
    then show "bundle_of C org B s1 k jk \<or> k = (org, i) \<and> org_bundle_ok (fst (org, i)) (snd (org, i)) jk \<and>
        set (ik_materials jk) \<subseteq> ?M"
      using ok org_bundle_relabel [OF ok, of i] mats by auto
  next
    fix l jk assume jk: "bundle_of C org B s1 l jk" and ne: "l \<noteq> (org, i)"
    have "set (ik_materials ik) \<inter> set (ik_materials jk) = {}"
      using bundles_okD(3) [OF b ik(2) jk] ne by blast
    moreover have "ks_gen s1 (ks_drawn s1) \<notin> set (ik_materials jk)"
      using bundles_okD(2) [OF b jk] fresh by blast
    ultimately show "?M \<inter> set (ik_materials jk) = {}" by blast
  qed (use old in auto)
  moreover have "keys_db_ok C org (ok_db s')" using keys_db_ok_store [OF db d] by (simp add: s')
  ultimately show ?thesis using inv1 by (simp add: org_keys_inv_def s')
qed

section \<open>Restarts\<close>

text \<open>A new process: an empty cache over the same database and key library.\<close>

definition restarted :: "org_keys \<Rightarrow> org_keys" where
  "restarted s = s\<lparr>ok_cache := []\<rparr>"

lemma restarted_inv: "org_keys_inv C org B s \<Longrightarrow> org_keys_inv C org B (restarted s)"
  by (auto simp: org_keys_inv_def restarted_def bundles_ok_def bundle_of_def)

text \<open>What is cached is what is stored, up to the label.\<close>

definition synced :: "key_codec \<Rightarrow> string \<Rightarrow> org_keys \<Rightarrow> bool" where
  "synced C org s =
     (\<forall>i ik. dget (ok_cache s) i = Some ik \<longrightarrow> stored_bundle C (ok_db s) org i (ik\<lparr>ik_issuer := i\<rparr>))"

lemma stored_label: "stored_bundle C db org i ik \<Longrightarrow> ik_issuer ik = i"
  by (auto simp: stored_bundle_def dest: deserialize_label)

lemma load_or_create_synced:
  assumes "load_or_create C org i s = (r, s')" and "org_keys_inv C org B s" and "synced C org s"
  shows "synced C org s'"
  using assms(1,2)
proof (cases rule: load_or_create_cases)
  case (loaded ik)
  have "ik\<lparr>ik_issuer := i\<rparr> = ik" using stored_label [OF loaded(3)] by simp
  with loaded(3) assms(3) show ?thesis by (auto simp: synced_def loaded(4))
next
  case (created ik t)
  have "stored_bundle C (ok_db s') org i (ik\<lparr>ik_issuer := i\<rparr>)"
    using created(5) by (simp add: stored_bundle_def created(6))
  moreover have "stored_bundle C (ok_db s') org j jk" if "stored_bundle C (ok_db s) org j jk" "j \<noteq> i" for j jk
    using that by (simp add: stored_bundle_def created(6))
  ultimately show ?thesis
    using assms(3) by (simp add: synced_def created(6))
qed (use assms(3) in simp)

lemma org_rotate_synced:
  assumes "org_rotate C org i s = (r, s')" and "org_keys_inv C org B s" and "synced C org s"
  shows "synced C org s'"
  using assms(1,2)
proof (rule org_rotate_run)
  fix ik s1 ik' t
  assume l: "load_or_create C org i s = (Inr ik, s1)"
    and d: "deserialize_issuer_keys C i (JsonbText t) = Inr (ik'\<lparr>ik_issuer := i\<rparr>)"
    and s': "s' = s1\<lparr>ks_drawn := Suc (ks_drawn s1), ok_cache := dset (ok_cache s1) i ik',
       ok_db := (ok_db s1)\<lparr>db_statements := Suc (db_statements (ok_db s1)),
         db_org_jwks := dset (db_org_jwks (ok_db s1)) (org, i) t\<rparr>\<rparr>"
  have "synced C org s1" by (rule load_or_create_synced [OF l assms(2,3)])
  moreover have "stored_bundle C (ok_db s') org i (ik'\<lparr>ik_issuer := i\<rparr>)"
    using d by (simp add: stored_bundle_def s')
  moreover have "stored_bundle C (ok_db s') org j jk" if "stored_bundle C (ok_db s1) org j jk" "j \<noteq> i" for j jk
    using that by (simp add: stored_bundle_def s')
  ultimately show ?thesis by (simp add: synced_def s')
qed

text \<open>What a resolver is asked for over its life.\<close>

datatype resolver_call = LoadCall string | RotateCall string

fun resolver_run :: "key_codec \<Rightarrow> string \<Rightarrow> resolver_call list \<Rightarrow> org_keys \<Rightarrow> org_keys" where
  "resolver_run C org [] s = s"
| "resolver_run C org (LoadCall i # cs) s = resolver_run C org cs (snd (load_or_create C org i s))"
| "resolver_run C org (RotateCall i # cs) s = resolver_run C org cs (snd (org_rotate C org i s))"

lemma resolver_run_inv:
  "org_keys_inv C org B s \<Longrightarrow> synced C org s \<Longrightarrow>
   org_keys_inv C org B (resolver_run C org cs s) \<and> synced C org (resolver_run C org cs s)"
proof (induction C org cs s rule: resolver_run.induct)
  case (2 C org i cs s)
  obtain r s' where l: "load_or_create C org i s = (r, s')" by (cases "load_or_create C org i s")
  from 2(1) load_or_create_inv [OF l 2(2)] load_or_create_synced [OF l 2(2,3)] show ?case by (simp add: l)
next
  case (3 C org i cs s)
  obtain r s' where l: "org_rotate C org i s = (r, s')" by (cases "org_rotate C org i s")
  from 3(1) org_rotate_inv [OF l 3(2)] org_rotate_synced [OF l 3(2,3)] show ?case by (simp add: l)
qed simp

lemma restart_same_bundle:
  assumes inv: "org_keys_inv C org B s" and sy: "synced C org s" and c: "dget (ok_cache s) i = Some ik"
  shows "fst (org_bundle C org i (restarted s)) = ik\<lparr>ik_issuer := i\<rparr>"
proof -
  obtain r t where l: "load_or_create C org i (restarted s) = (r, t)"
    by (cases "load_or_create C org i (restarted s)")
  have st: "stored_bundle C (ok_db (restarted s)) org i (ik\<lparr>ik_issuer := i\<rparr>)"
    using sy c by (simp add: synced_def restarted_def)
  from l restarted_inv [OF inv] have "r = Inr (ik\<lparr>ik_issuer := i\<rparr>)"
  proof (cases rule: load_or_create_cases)
    case (cached jk)
    then show ?thesis by (simp add: restarted_def)
  next
    case (loaded jk)
    then show ?thesis using st by (auto simp: stored_bundle_def)
  next
    case (created jk u)
    then show ?thesis using st by (auto simp: stored_bundle_def)
  qed
  with l show ?thesis by (simp add: org_bundle_def)
qed

text \<open>
  C21: after any sequence of loads and rotations on a working database, a restarted process publishes
  and signs with exactly the keys the old one did, for every issuer the old one had used.
\<close>

theorem keys_survive_restart:
  assumes "org_keys_inv C org B s" and "synced C org s"
    and "dget (ok_cache (resolver_run C org cs s)) i \<noteq> None"
  defines "s' \<equiv> resolver_run C org cs s"
  shows "fst (org_jwks C org i (restarted s')) = fst (org_jwks C org i s') \<and>
    fst (org_signing_key C org i a (restarted s')) = fst (org_signing_key C org i a s')"
proof -
  from assms(3) obtain ik where c: "dget (ok_cache s') i = Some ik" by (auto simp: s'_def)
  have inv: "org_keys_inv C org B s'" "synced C org s'"
    using resolver_run_inv [OF assms(1,2)] by (simp_all add: s'_def)
  have "org_bundle C org i s' = (ik, s')" using c by (simp add: org_bundle_def load_or_create_def bindP_apply)
  moreover obtain u where "org_bundle C org i (restarted s') = (ik\<lparr>ik_issuer := i\<rparr>, u)"
    using restart_same_bundle [OF inv c] by (cases "org_bundle C org i (restarted s')") simp
  ultimately show ?thesis
    by (simp add: org_jwks_def org_signing_key_def ik_jwks_keys_def ik_signing_key_for_alg_def)
qed

text \<open>
  The kid of a rotated key depends on whether the process restarted since the bundle was made: the
  first rotation of a bundle still in the cache of its creator is named after organisation and
  issuer, the same rotation after a restart after the issuer alone.
\<close>

lemma rotated_kid_after_restart:
  assumes "org_keys_inv C org B s" and "synced C org s" and "dget (ok_cache s) i = Some ik"
    and "ik_issuer ik = org @ ''/'' @ i"
  shows "fst (org_rotate C org i s) = Inr (kid_prefix (org @ ''/'' @ i) @ ''-'' @ int_str (ik_seq ik + 1)) \<and>
    fst (org_rotate C org i (restarted s)) = Inr (kid_prefix i @ ''-'' @ int_str (ik_seq ik + 1))"
proof -
  obtain r s' where q: "org_rotate C org i s = (r, s')" by (cases "org_rotate C org i s")
  have "r = Inr (kid_prefix (org @ ''/'' @ i) @ ''-'' @ int_str (ik_seq ik + 1))"
    using q assms(1)
  proof (rule org_rotate_run)
    fix jk s1 jk' t assume l: "load_or_create C org i s = (Inr jk, s1)" and jk': "jk' = fst (ik_rotate jk s1)"
      and r: "r = Inr (jwk_kid (ik_signing jk'))"
    from l assms(3) have "jk = ik" by (simp add: load_or_create_def bindP_apply)
    with r jk' assms(4) show ?thesis by (simp add: ik_rotate_eq)
  qed
  moreover obtain r' u where q': "org_rotate C org i (restarted s) = (r', u)"
    by (cases "org_rotate C org i (restarted s)")
  have "r' = Inr (kid_prefix i @ ''-'' @ int_str (ik_seq ik + 1))"
    using q' restarted_inv [OF assms(1)]
  proof (rule org_rotate_run)
    fix jk s1 jk' t assume l: "load_or_create C org i (restarted s) = (Inr jk, s1)"
      and jk': "jk' = fst (ik_rotate jk s1)" and r: "r' = Inr (jwk_kid (ik_signing jk'))"
    have "jk = ik\<lparr>ik_issuer := i\<rparr>"
      using restart_same_bundle [OF assms(1-3)] l by (simp add: org_bundle_def)
    with r jk' show ?thesis by (simp add: ik_rotate_eq)
  qed
  ultimately show ?thesis using q q' by simp
qed

section \<open>Organisations do not share keys\<close>

lemma bundles_ok_mono: "bundles_ok g n B \<Longrightarrow> (\<And>k ik. B' k ik \<Longrightarrow> B k ik) \<Longrightarrow> bundles_ok g n B'"
  unfolding bundles_ok_def by blast

text \<open>
  C22: a token signed with a key of one organisation never verifies against the keys another
  organisation publishes, whatever the two issuers are called: the second resolver may have its keys
  cached, find them in the database or create them now.
\<close>

theorem orgs_isolated:
  assumes "jwt_lawful L" and "a \<noteq> b" and "org_keys_inv C a A s"
    and "org_signing_key C a i alg s = (k, s1)"
    and "org_keys_inv C b B (s1\<lparr>ok_cache := cache\<rparr>)"
    and "\<forall>j ik. dget (ok_cache s1) j = Some ik \<longrightarrow> B (a, j) ik"
  shows "verify_token L (sign L c k) (fst (org_jwks C b j (s1\<lparr>ok_cache := cache\<rparr>))) = None"
proof -
  let ?u = "s1\<lparr>ok_cache := cache\<rparr>"
  obtain ik where b: "org_bundle C a i s = (ik, s1)" and k: "k = ik_signing_key_for_alg ik alg"
    using assms(4) by (auto simp: org_signing_key_def split: prod.splits)
  have "load_or_create C a i s = (Inr ik, s1)" by (rule org_bundle_run [OF assms(3) b])
  then have "dget (ok_cache s1) i = Some ik"
    using assms(3) by (metis load_or_create_InrE sum.inject(2))
  then have "B (a, i) ik" using assms(6) by blast
  obtain jk t where j: "org_bundle C b j ?u = (jk, t)" by (cases "org_bundle C b j ?u")
  note r = org_bundle_ok_run [OF assms(5) j]
  have "bundle_of C b B t (a, i) ik" using \<open>B (a, i) ik\<close> by (simp add: bundle_of_def)
  from other_bundle_jwks [OF r(1) this r(3)] assms(2)
  have "jwk_material k \<notin> jwk_material ` set (ik_jwks_keys jk)" by (simp add: k)
  then show ?thesis using verify_foreign [OF assms(1)] by (simp add: org_jwks_def j)
qed

section \<open>A concrete resolver\<close>

definition kty_name :: "kty \<Rightarrow> string" where
  "kty_name t = (case t of RSA \<Rightarrow> ''RSA'' | EC \<Rightarrow> ''EC'')"

definition demo_codec :: key_codec where
  "demo_codec =
     \<lparr>kc_private_dict = (\<lambda>k. JObj [(''kty'', JStr (kty_name (jwk_kty k))), (''kid'', JStr (jwk_kid k)),
                                   (''d'', JInt (int (jwk_material k)))]),
      kc_import = (\<lambda>t j. case (field_of j ''kty'', field_of j ''kid'', field_of j ''d'') of
         (Some (JStr n), Some (JStr kid), Some (JInt m)) \<Rightarrow>
           if n = kty_name t then Some \<lparr>jwk_kty = t, jwk_kid = kid, jwk_material = nat m\<rparr> else None
       | _ \<Rightarrow> None)\<rparr>"

lemma demo_codec_lawful: "codec_lawful demo_codec"
proof -
  have "kc_import demo_codec (jwk_kty k) j = Some k"
    if "json_ok j" "canon j = canon (kc_private_dict demo_codec k)" for j k
  proof -
    let ?d = "[(''kty'', JStr (kty_name (jwk_kty k))), (''kid'', JStr (jwk_kid k)),
      (''d'', JInt (int (jwk_material k)))]"
    have c: "canon j = canon (JObj ?d)" using that(2) by (simp add: demo_codec_def)
    then obtain e where e: "j = JObj e" using canon_obj by blast
    have "dict_ok e" using that(1) e by simp
    moreover have "dict_ok ?d" by (simp add: dict_ok_def)
    ultimately have g: "map_option canon (dget e x) = map_option canon (dget ?d x)" for x
      using canon_dget c e by blast
    have "dget e ''kty'' = Some (JStr (kty_name (jwk_kty k)))" "dget e ''kid'' = Some (JStr (jwk_kid k))"
      "dget e ''d'' = Some (JInt (int (jwk_material k)))"
      using g [of "''kty''"] g [of "''kid''"] g [of "''d''"] by auto
    then show ?thesis by (simp add: demo_codec_def e field_of_def)
  qed
  moreover have "json_ok (kc_private_dict demo_codec k)" for k
    by (simp add: demo_codec_def dict_ok_def)
  ultimately show ?thesis by (simp add: codec_lawful_def)
qed

definition org_row_of :: "string \<Rightarrow> org_row" where
  "org_row_of slug = \<lparr>og_org_id = slug, og_slug = slug, og_tier = ''pro'', og_api_key_hash = None\<rparr>"

definition orgs_db :: "string list \<Rightarrow> database" where
  "orgs_db slugs = \<lparr>db_app_config = [], db_tenants = [], db_users = [], db_service_principals = [],
     db_client_apps = [], db_token_events = [], db_next_event = 1, db_orgs = map org_row_of slugs,
     db_org_jwks = [], db_statements = 0, db_fails = (\<lambda>_. False), db_jsonb = Some,
     db_timestamp = (\<lambda>_. [])\<rparr>"

definition demo_resolver :: org_keys where
  "demo_resolver = \<lparr>ks_gen = (\<lambda>n. n), ks_drawn = 0, ok_cache = [], ok_db = orgs_db [''one'', ''two'']\<rparr>"

definition no_bundles :: bundles where
  "no_bundles k ik = False"

lemma demo_resolver_inv:
  "org \<in> {''one'', ''two''} \<Longrightarrow> org_keys_inv demo_codec org no_bundles demo_resolver"
  "synced demo_codec org demo_resolver"
  by (auto simp: org_keys_inv_def demo_codec_lawful demo_resolver_def keys_db_ok_def db_healthy_def
      jsonb_lawful_id bundles_ok_def bundle_of_def stored_bundle_def no_bundles_def orgs_db_def org_row_of_def
      synced_def)

text \<open>The first load of the demo creates the bundle.\<close>

lemma demo_load:
  obtains s where "load_or_create demo_codec ''one'' ''web'' demo_resolver =
      (Inr (bundle_at ''one/web'' (\<lambda>n. n) 0), s)"
    and "dget (ok_cache s) ''web'' = Some (bundle_at ''one/web'' (\<lambda>n. n) 0)"
    and "org_keys_inv demo_codec ''one'' no_bundles s" and "synced demo_codec ''one'' s"
    and "ok_cache s = [(''web'', bundle_at ''one/web'' (\<lambda>n. n) 0)]"
    and "db_orgs (ok_db s) = db_orgs (ok_db demo_resolver)"
proof -
  have inv: "org_keys_inv demo_codec ''one'' no_bundles demo_resolver" by (rule demo_resolver_inv) simp
  obtain r s where l: "load_or_create demo_codec ''one'' ''web'' demo_resolver = (r, s)"
    by (cases "load_or_create demo_codec ''one'' ''web'' demo_resolver")
  have g: "ks_gen demo_resolver = (\<lambda>n. n)" "ks_drawn demo_resolver = 0" "ok_cache demo_resolver = []"
    "db_org_jwks (ok_db demo_resolver) = []"
    by (simp_all add: demo_resolver_def orgs_db_def)
  from l inv have "r = Inr (bundle_at ''one/web'' (\<lambda>n. n) 0) \<and>
      ok_cache s = [(''web'', bundle_at ''one/web'' (\<lambda>n. n) 0)] \<and> db_orgs (ok_db s) = db_orgs (ok_db demo_resolver)"
    by (cases rule: load_or_create_cases) (simp_all add: g stored_bundle_def)
  with l load_or_create_inv [OF l inv] load_or_create_synced [OF l inv demo_resolver_inv(2)] show ?thesis
    by (intro that [of s]) simp_all
qed

theorem keys_survive_restart_witness:
  "let s = resolver_run demo_codec ''one'' [LoadCall ''web''] demo_resolver in
     fst (org_jwks demo_codec ''one'' ''web'' (restarted s)) = fst (org_jwks demo_codec ''one'' ''web'' s)"
proof -
  have inv: "org_keys_inv demo_codec ''one'' no_bundles demo_resolver" by (rule demo_resolver_inv) simp
  obtain s where s: "load_or_create demo_codec ''one'' ''web'' demo_resolver =
      (Inr (bundle_at ''one/web'' (\<lambda>n. n) 0), s)"
    "dget (ok_cache s) ''web'' = Some (bundle_at ''one/web'' (\<lambda>n. n) 0)" by (rule demo_load)
  then have "dget (ok_cache (resolver_run demo_codec ''one'' [LoadCall ''web''] demo_resolver)) ''web'' \<noteq> None"
    by simp
  from keys_survive_restart [OF inv demo_resolver_inv(2) this] show ?thesis by (simp only: Let_def)
qed

theorem rotated_kid_after_restart_witness:
  "\<exists>s. fst (org_rotate demo_codec ''one'' ''web'' s) = Inr ''mock-one/web-2'' \<and>
     fst (org_rotate demo_codec ''one'' ''web'' (restarted s)) = Inr ''mock-web-2''"
proof -
  obtain s where s: "dget (ok_cache s) ''web'' = Some (bundle_at ''one/web'' (\<lambda>n. n) 0)"
    "org_keys_inv demo_codec ''one'' no_bundles s" "synced demo_codec ''one'' s" by (rule demo_load)
  have "ik_issuer (bundle_at ''one/web'' (\<lambda>n. n) 0) = ''one'' @ ''/'' @ ''web''"
    "ik_seq (bundle_at ''one/web'' (\<lambda>n. n) 0) = 1" by (simp_all add: bundle_at_def)
  moreover have "int_str 2 = ''2''" by code_simp
  ultimately show ?thesis
    using rotated_kid_after_restart [OF s(2,3,1)] by (intro exI [of _ s]) (simp add: kid_prefix_def)
qed

theorem orgs_isolated_witness:
  "\<exists>k s1. org_signing_key demo_codec ''one'' ''web'' ''RS256'' demo_resolver = (k, s1) \<and>
     verify_token reference_jwt (sign reference_jwt [(''sub'', JStr ''svc'')] k)
       (fst (org_jwks demo_codec ''two'' ''web'' (s1\<lparr>ok_cache := []\<rparr>))) = None"
proof -
  have inv: "org_keys_inv demo_codec ''one'' no_bundles demo_resolver" by (rule demo_resolver_inv) simp
  obtain s where s: "load_or_create demo_codec ''one'' ''web'' demo_resolver =
      (Inr (bundle_at ''one/web'' (\<lambda>n. n) 0), s)"
    "ok_cache s = [(''web'', bundle_at ''one/web'' (\<lambda>n. n) 0)]"
    "org_keys_inv demo_codec ''one'' no_bundles s"
    "db_orgs (ok_db s) = db_orgs (ok_db demo_resolver)" by (rule demo_load)
  let ?B = "\<lambda>k ik. fst k = ''one'' \<and> dget (ok_cache s) (snd k) = Some ik"
  obtain k where k: "org_signing_key demo_codec ''one'' ''web'' ''RS256'' demo_resolver = (k, s)"
    using s(1) by (simp add: org_signing_key_def org_bundle_def)
  have "keys_db_ok demo_codec ''two'' (ok_db s)"
    using s(3,4) by (simp add: org_keys_inv_def keys_db_ok_def demo_resolver_def orgs_db_def org_row_of_def)
  moreover have "bundles_ok (ks_gen s) (ks_drawn s) (bundle_of demo_codec ''two'' ?B (s\<lparr>ok_cache := []\<rparr>))"
    using s(3) unfolding org_keys_inv_def by (auto simp: bundle_of_def no_bundles_def elim!: bundles_ok_mono)
  ultimately have "org_keys_inv demo_codec ''two'' ?B (s\<lparr>ok_cache := []\<rparr>)"
    using s(3) by (simp add: org_keys_inv_def)
  from orgs_isolated [OF reference_jwt_lawful _ inv k this] k show ?thesis by auto
qed

end
