(* ===== verification/OrgRegistry.thy ===== *)
theory OrgRegistry
  imports OrgResolver PgStore Sha256
begin

text \<open>
  \<open>org_registry.py\<close>, the registry of organisations: loading them at start, provisioning, removing
  and looking them up, and the API key check. An \<open>OrgContext\<close> holds the organisation's store and
  the cache of its key resolver; the connection pool and the source of key material are the
  process's. Random tokens (\<open>secrets.token_urlsafe\<close>) are arguments.
\<close>

section \<open>State\<close>

record org_context =
  oc_org_id :: string
  oc_slug :: string
  oc_tier :: string
  oc_api_key_hash :: "string option"
  oc_store :: pg_store
  oc_keys :: "(string, issuer_keys) dict"   \<comment> \<open>the resolver's cache\<close>

record registry = key_source +
  rg_orgs :: "(string, org_context) dict"
  rg_pool :: bool
  rg_db :: database

type_synonym ('a, 'r) registry_prog = "(py_exn, 'a registry_scheme, 'r) prog"

definition key_hash :: "string \<Rightarrow> string" where
  "key_hash key = hex_digest (sha256 (utf8_encode key))"

definition verify_api_key :: "org_context \<Rightarrow> string option \<Rightarrow> bool" where
  "verify_api_key ctx authorization =
     (if oc_tier ctx = ''sandbox'' then True
      else case authorization of
             None \<Rightarrow> False
           | Some a \<Rightarrow>
               if \<not> prefix ''Bearer '' a then False
               else Some (key_hash (drop 7 a)) = oc_api_key_hash ctx)"

section \<open>Statements and resolver calls\<close>

text \<open>\<open>self._pool.acquire()\<close> fails when there is no pool.\<close>

definition sqlP :: "'r sql \<Rightarrow> ('a, 'r) registry_prog" where
  "sqlP q = (\<lambda>rg.
     if \<not> rg_pool rg then (Inl AttributeError, rg)
     else case q (rg_db rg) of (r, db) \<Rightarrow> (r, rg\<lparr>rg_db := db\<rparr>))"

definition org_keys_of :: "'a registry_scheme \<Rightarrow> org_context \<Rightarrow> org_keys" where
  "org_keys_of rg ctx =
     \<lparr>ks_gen = ks_gen rg, ks_drawn = ks_drawn rg, ok_cache = oc_keys ctx, ok_db = rg_db rg\<rparr>"

definition put_org_keys :: "string \<Rightarrow> org_context \<Rightarrow> org_keys \<Rightarrow> 'a registry_scheme \<Rightarrow> 'a registry_scheme" where
  "put_org_keys slug ctx s rg =
     rg\<lparr>ks_gen := ks_gen s, ks_drawn := ks_drawn s,
        rg_orgs := dset (rg_orgs rg) slug (ctx\<lparr>oc_keys := ok_cache s\<rparr>), rg_db := ok_db s\<rparr>"

text \<open>A call of the key resolver of the organisation registered as \<open>slug\<close>.\<close>

definition resolverP :: "string \<Rightarrow> (string \<Rightarrow> 'r keys_prog) \<Rightarrow> ('a, 'r) registry_prog" where
  "resolverP slug p = (\<lambda>rg.
     case dget (rg_orgs rg) slug of
       None \<Rightarrow> (Inl AttributeError, rg)
     | Some ctx \<Rightarrow>
         (case p (oc_org_id ctx) (org_keys_of rg ctx) of (r, s) \<Rightarrow> (r, put_org_keys slug ctx s rg)))"

section \<open>Loading\<close>

definition load_org ::
  "os_env \<Rightarrow> string \<Rightarrow> string \<Rightarrow> string \<Rightarrow> string option \<Rightarrow> ('a, org_context) registry_prog" where
  "load_org os org_id slug tier hash =
     bindP (liftP (pg_init os True)) (\<lambda>st0.
     bindP (getsP (\<lambda>rg. st0\<lparr>pg_pool := rg_pool rg, pg_org_id := org_id\<rparr>)) (\<lambda>st1.
     bindP (\<lambda>rg. case pg_reload st1 (rg_db rg) of
              (Inl e, st, db) \<Rightarrow> (Inl e, rg\<lparr>rg_db := db\<rparr>) | (Inr _, st, db) \<Rightarrow> (Inr st, rg\<lparr>rg_db := db\<rparr>)) (\<lambda>st.
     let ctx = \<lparr>oc_org_id = org_id, oc_slug = slug, oc_tier = tier, oc_api_key_hash = hash,
                oc_store = st, oc_keys = []\<rparr>
     in (\<lambda>rg. (Inr ctx, rg\<lparr>rg_orgs := dset (rg_orgs rg) slug ctx\<rparr>)))))"

fun load_rows :: "os_env \<Rightarrow> org_row list \<Rightarrow> ('a, unit) registry_prog" where
  "load_rows os [] = retP ()"
| "load_rows os (r # rows) =
     bindP (load_org os (og_org_id r) (og_slug r) (og_tier r) (og_api_key_hash r)) (\<lambda>_. load_rows os rows)"

definition load_all :: "os_env \<Rightarrow> ('a, unit) registry_prog" where
  "load_all os = bindP (sqlP select_orgs) (\<lambda>rows. load_rows os rows)"

definition registry_startup :: "os_env \<Rightarrow> bool \<Rightarrow> ('a, unit) registry_prog" where
  "registry_startup os connects =
     (if \<not> connects then throwP driver_error
      else bindP (\<lambda>rg. (Inr (), rg\<lparr>rg_pool := True\<rparr>)) (\<lambda>_. load_all os))"

definition registry_shutdown :: "'a registry_scheme \<Rightarrow> 'a registry_scheme" where
  "registry_shutdown rg = (if rg_pool rg then rg\<lparr>rg_pool := False\<rparr> else rg)"

section \<open>Lookup, provisioning, removal\<close>

definition registry_get :: "string \<Rightarrow> 'a registry_scheme \<Rightarrow> org_context option" where
  "registry_get slug rg = dget (rg_orgs rg) slug"

definition default_cfg_row :: "string \<Rightarrow> cfg_row" where
  "default_cfg_row admin =
     \<lparr>cr_auth_mode = ''lax'', cr_admin_token = admin, cr_cors_allow_origins = Some [''*''],
      cr_issuer_modes = JsonbText ''{}''\<rparr>"

text \<open>The two inserts are separate transactions.\<close>

definition registry_register ::
  "os_env \<Rightarrow> string \<Rightarrow> string \<Rightarrow> string \<Rightarrow> string \<Rightarrow> ('a, org_context \<times> string) registry_prog" where
  "registry_register os plaintext admin slug tier =
     (let hash = key_hash plaintext; org_id = slug in
      bindP (sqlP (insert_org \<lparr>og_org_id = org_id, og_slug = slug, og_tier = tier,
                               og_api_key_hash = Some hash\<rparr>)) (\<lambda>_.
      bindP (sqlP (insert_app_config org_id (default_cfg_row admin))) (\<lambda>_.
      bindP (load_org os org_id slug tier (Some hash)) (\<lambda>ctx.
      retP (ctx, plaintext)))))"

definition registry_deregister :: "string \<Rightarrow> ('a, bool) registry_prog" where
  "registry_deregister slug =
     bindP (sqlP (delete_org slug)) (\<lambda>n.
     if n = 0 then retP False
     else (\<lambda>rg. (Inr True, rg\<lparr>rg_orgs := dpop (rg_orgs rg) slug\<rparr>)))"

text \<open>
  The function \<open>push_config\<close> imports is not in \<open>config.py\<close>: the import raises before anything else
  is done (the message then names the file, too).
\<close>

definition registry_push_config :: "string \<Rightarrow> string \<Rightarrow> ('a, unit) registry_prog" where
  "registry_push_config slug config_yaml =
     throwP (ImportError (''cannot import name '' @ py_repr_str ''_build_store_from_dict'' @ '' from '' @
                          py_repr_str ''mock_idp.config''))"

section \<open>Frames\<close>

lemma registry_updates:
  fixes rg :: "'a registry_scheme"
  shows "rg\<lparr>rg_db := d, rg_orgs := c\<rparr> = rg\<lparr>rg_orgs := c, rg_db := d\<rparr>"
    and "rg\<lparr>rg_db := d, rg_pool := b\<rparr> = rg\<lparr>rg_pool := b, rg_db := d\<rparr>"
  by simp_all

lemma load_org_eq:
  "load_org os org_id slug tier hash rg =
    (let st = \<lparr>pg_data = initial_store, pg_org_id = org_id, pg_pool = rg_pool rg\<rparr>;
         (r, st', db) = pg_reload st (rg_db rg);
         ctx = \<lparr>oc_org_id = org_id, oc_slug = slug, oc_tier = tier, oc_api_key_hash = hash,
                oc_store = st', oc_keys = []\<rparr>
     in (Inr ctx, rg\<lparr>rg_orgs := dset (rg_orgs rg) slug ctx, rg_db := db\<rparr>))"
proof -
  obtain r st' db where p: "pg_reload \<lparr>pg_data = initial_store, pg_org_id = org_id, pg_pool = rg_pool rg\<rparr> (rg_db rg)
      = (r, st', db)" by (metis prod_cases3)
  from pg_reload_cases(1) [OF p] p show ?thesis
    by (simp add: load_org_def bindP_apply pg_init_def Let_def)
qed

lemma sqlP_healthy: "rg_pool rg \<Longrightarrow> sqlP q rg = (case q (rg_db rg) of (r, db) \<Rightarrow> (r, rg\<lparr>rg_db := db\<rparr>))"
  by (simp add: sqlP_def)

text \<open>The keys' statements never touch the table of organisations.\<close>

definition keeps_orgs :: "'r keys_prog \<Rightarrow> bool" where
  "keeps_orgs p = (\<forall>s. db_orgs (ok_db (snd (p s))) = db_orgs (ok_db s))"

lemma keeps_orgs_bind: "keeps_orgs p \<Longrightarrow> (\<And>x. keeps_orgs (f x)) \<Longrightarrow> keeps_orgs (bindP p f)"
  unfolding keeps_orgs_def bindP_apply
  by (auto split: prod.split sum.split) (metis snd_conv)+

lemma keeps_orgs_db:
  "(\<And>db. db_orgs (snd (q db)) = db_orgs db) \<Longrightarrow> keeps_orgs (dbP q)"
  by (simp add: keeps_orgs_def dbP_def split: prod.split) (metis snd_conv)

lemma keeps_orgs_simps:
  "keeps_orgs (retP x)" "keeps_orgs (liftP r)" "keeps_orgs (getsP g)" "keeps_orgs (cacheP i ik)"
  "keeps_orgs (callP (new_issuer_keys l))" "keeps_orgs (callP (ik_rotate ik))"
  by (simp_all add: keeps_orgs_def cacheP_def callP_apply new_issuer_keys_eq ik_rotate_eq)

lemma keeps_orgs_statements:
  "keeps_orgs (dbP (select_key_data org i))" "keeps_orgs (persist C org i ik)"
  unfolding persist_def
  by (rule keeps_orgs_db; simp add: select_key_data_def upsert_key_data_def statement_def Let_def
        split: option.split)+

lemma keeps_orgs_load: "keeps_orgs (load_or_create C org i)"
proof -
  have new: "keeps_orgs (bindP (callP (new_issuer_keys l)) (\<lambda>ik. bindP (persist C org i ik) (\<lambda>_. retP ik)))" for l
    by (intro keeps_orgs_bind keeps_orgs_simps keeps_orgs_statements)
  have "keeps_orgs (case cached of Some ik \<Rightarrow> retP ik
     | None \<Rightarrow> bindP (dbP (select_key_data org i)) (\<lambda>row.
         bindP (case row of Some text \<Rightarrow> liftP (deserialize_issuer_keys C i (JsonbText text))
                | None \<Rightarrow> bindP (callP (new_issuer_keys (org @ ''/'' @ i))) (\<lambda>ik.
                    bindP (persist C org i ik) (\<lambda>_. retP ik))) (\<lambda>ik.
         bindP (cacheP i ik) (\<lambda>_. retP ik))))" for cached
  proof (cases cached)
    case None
    have "keeps_orgs (case row of Some text \<Rightarrow> liftP (deserialize_issuer_keys C i (JsonbText text))
                | None \<Rightarrow> bindP (callP (new_issuer_keys (org @ ''/'' @ i))) (\<lambda>ik.
                    bindP (persist C org i ik) (\<lambda>_. retP ik)))" for row
      using new by (cases row) (simp_all add: keeps_orgs_simps)
    then show ?thesis unfolding None option.case
      by (intro keeps_orgs_bind keeps_orgs_simps keeps_orgs_statements)
  qed (simp add: keeps_orgs_simps)
  then show ?thesis unfolding load_or_create_def by (intro keeps_orgs_bind keeps_orgs_simps)
qed

lemma keeps_orgs_rotate: "keeps_orgs (org_rotate C org i)"
  unfolding org_rotate_def by (intro keeps_orgs_bind keeps_orgs_load keeps_orgs_simps keeps_orgs_statements)

end
