(* ===== verification/OrgLife.thy ===== *)
theory OrgLife
  imports OrgRegistry
begin

text \<open>
  The life of an organisation in the registry: the invariant every operation keeps whatever
  statements fail, what provisioning gives, and what removal takes away.
\<close>

section \<open>The invariant\<close>

text \<open>
  Every registered context is under its own slug, serves the store of its own organisation, and is
  backed by a row of the \<open>orgs\<close> table with the same tier and key hash.
\<close>

definition context_ok :: "database \<Rightarrow> string \<Rightarrow> org_context \<Rightarrow> bool" where
  "context_ok db slug ctx =
     (oc_slug ctx = slug \<and> pg_org_id (oc_store ctx) = oc_org_id ctx \<and> pg_pool (oc_store ctx) \<and>
      store_ok (pg_data (oc_store ctx)) \<and>
      \<lparr>og_org_id = oc_org_id ctx, og_slug = slug, og_tier = oc_tier ctx,
       og_api_key_hash = oc_api_key_hash ctx\<rparr> \<in> set (db_orgs db))"

definition orgs_table_ok :: "database \<Rightarrow> bool" where
  "orgs_table_ok db = (distinct (map og_org_id (db_orgs db)) \<and> distinct (map og_slug (db_orgs db)))"

definition registry_ok :: "'a registry_scheme \<Rightarrow> bool" where
  "registry_ok rg =
     (orgs_table_ok (rg_db rg) \<and> (rg_pool rg \<or> rg_orgs rg = []) \<and>
      (\<forall>slug ctx. dget (rg_orgs rg) slug = Some ctx \<longrightarrow> context_ok (rg_db rg) slug ctx))"

lemma context_ok_mono: "context_ok db slug ctx \<Longrightarrow> set (db_orgs db) \<subseteq> set (db_orgs db') \<Longrightarrow> context_ok db' slug ctx"
  unfolding context_ok_def by blast

lemma registry_okD: "registry_ok rg \<Longrightarrow> dget (rg_orgs rg) slug = Some ctx \<Longrightarrow> context_ok (rg_db rg) slug ctx"
  by (simp add: registry_ok_def)

lemma same_orgs_table: "db_orgs db' = db_orgs db \<Longrightarrow> orgs_table_ok db' = orgs_table_ok db"
  by (simp add: orgs_table_ok_def)

text \<open>Loading a row of the table.\<close>

lemma load_org_run:
  assumes "load_org os org slug tier hash rg = (r, rg')"
  obtains ctx where "r = Inr ctx" and "rg' = rg\<lparr>rg_orgs := dset (rg_orgs rg) slug ctx, rg_db := rg_db rg'\<rparr>"
    and "same_tables (rg_db rg) (rg_db rg')" and "oc_org_id ctx = org" and "oc_slug ctx = slug"
    and "oc_tier ctx = tier" and "oc_api_key_hash ctx = hash" and "oc_keys ctx = []"
    and "pg_org_id (oc_store ctx) = org" and "pg_pool (oc_store ctx) = rg_pool rg"
    and "store_ok (pg_data (oc_store ctx))"
proof -
  let ?st = "\<lparr>pg_data = initial_store, pg_org_id = org, pg_pool = rg_pool rg\<rparr>"
  obtain q st db where p: "pg_reload ?st (rg_db rg) = (q, st, db)" by (metis prod_cases3)
  note c = pg_reload_cases [OF p]
  let ?ctx = "\<lparr>oc_org_id = org, oc_slug = slug, oc_tier = tier, oc_api_key_hash = hash, oc_store = st, oc_keys = []\<rparr>"
  obtain q' d where a: "apply_fetched (org_rows org (rg_db rg)) initial_store = (q', d)"
    by (cases "apply_fetched (org_rows org (rg_db rg)) initial_store")
  have "store_ok (pg_data st)"
    using c(5) apply_fetched_ok [OF a store_ok_initial] store_ok_initial by (auto simp: a)
  moreover have "r = Inr ?ctx" "rg' = rg\<lparr>rg_orgs := dset (rg_orgs rg) slug ?ctx, rg_db := db\<rparr>"
    using assms by (simp_all add: load_org_eq p Let_def)
  ultimately show ?thesis using c by (intro that [of ?ctx]) simp_all
qed

lemma load_org_ok:
  assumes run: "load_org os org slug tier hash rg = (r, rg')" and inv: "registry_ok rg" and pool: "rg_pool rg"
    and row: "\<lparr>og_org_id = org, og_slug = slug, og_tier = tier, og_api_key_hash = hash\<rparr> \<in> set (db_orgs (rg_db rg))"
  shows "registry_ok rg'" and "rg_pool rg'" and "db_orgs (rg_db rg') = db_orgs (rg_db rg)"
  using run
proof (rule_tac [!] load_org_run)
  fix ctx assume r: "rg' = rg\<lparr>rg_orgs := dset (rg_orgs rg) slug ctx, rg_db := rg_db rg'\<rparr>"
    and t: "same_tables (rg_db rg) (rg_db rg')"
    and c: "oc_org_id ctx = org" "oc_slug ctx = slug" "oc_tier ctx = tier" "oc_api_key_hash ctx = hash"
      "pg_org_id (oc_store ctx) = org" "pg_pool (oc_store ctx) = rg_pool rg" "store_ok (pg_data (oc_store ctx))"
  show orgs: "db_orgs (rg_db rg') = db_orgs (rg_db rg)" using same_tables_simps [OF t] by simp
  have g: "rg_orgs rg' = dset (rg_orgs rg) slug ctx" "rg_pool rg' = rg_pool rg" by (subst r, simp)+
  show "rg_pool rg'" using pool g by simp
  have "context_ok (rg_db rg') slug ctx" using c pool row orgs by (simp add: context_ok_def)
  moreover have "context_ok (rg_db rg') s x" if "dget (rg_orgs rg) s = Some x" for s x
    using context_ok_mono [OF registry_okD [OF inv that]] orgs by simp
  ultimately show "registry_ok rg'"
    using inv pool same_orgs_table [OF orgs] by (auto simp: registry_ok_def g split: if_splits)
qed

lemma load_rows_ok:
  assumes "load_rows os rows rg = (r, rg')" and "registry_ok rg" and "rg_pool rg"
    and "set rows \<subseteq> set (db_orgs (rg_db rg))"
  shows "registry_ok rg'"
  using assms
proof (induction rows arbitrary: rg)
  case (Cons row rows)
  obtain q rg1 where l: "load_org os (og_org_id row) (og_slug row) (og_tier row) (og_api_key_hash row) rg = (q, rg1)"
    by (cases "load_org os (og_org_id row) (og_slug row) (og_tier row) (og_api_key_hash row) rg")
  have "row \<in> set (db_orgs (rg_db rg))" using Cons.prems(4) by simp
  moreover have "\<lparr>og_org_id = og_org_id row, og_slug = og_slug row, og_tier = og_tier row,
      og_api_key_hash = og_api_key_hash row\<rparr> = row" by (cases row) simp
  ultimately have row: "\<lparr>og_org_id = og_org_id row, og_slug = og_slug row, og_tier = og_tier row,
      og_api_key_hash = og_api_key_hash row\<rparr> \<in> set (db_orgs (rg_db rg))" by metis
  note ok = load_org_ok [OF l Cons.prems(2,3) row]
  from l obtain ctx where "q = Inr ctx" by (rule load_org_run)
  with Cons.prems(1) l have "load_rows os rows rg1 = (r, rg')" by (simp add: bindP_apply)
  with Cons.IH [OF this ok(1,2)] Cons.prems(4) ok(3) show ?case by simp
qed (simp add: retP_def)

section \<open>Every operation\<close>

datatype registry_call =
    StartCall bool
  | RegisterCall string string string string   \<comment> \<open>API key, admin token, slug, tier\<close>
  | DeregisterCall string
  | ResolveCall string string                  \<comment> \<open>a request needs the keys of an issuer\<close>
  | ResolverRotateCall string string
  | PushConfigCall string string

definition registry_call :: "os_env \<Rightarrow> key_codec \<Rightarrow> registry_call \<Rightarrow> registry \<Rightarrow> registry" where
  "registry_call os C c rg =
     (case c of
        StartCall connects \<Rightarrow> snd (registry_startup os connects rg)
      | RegisterCall key admin slug tier \<Rightarrow> snd (registry_register os key admin slug tier rg)
      | DeregisterCall slug \<Rightarrow> snd (registry_deregister slug rg)
      | ResolveCall slug issuer \<Rightarrow> snd (resolverP slug (\<lambda>org. load_or_create C org issuer) rg)
      | ResolverRotateCall slug issuer \<Rightarrow> snd (resolverP slug (\<lambda>org. org_rotate C org issuer) rg)
      | PushConfigCall slug yaml \<Rightarrow> snd (registry_push_config slug yaml rg))"

lemma sqlP_run:
  assumes "sqlP q rg = (r, rg')"
  obtains (no_pool) "\<not> rg_pool rg" "r = Inl AttributeError" "rg' = rg"
  | (ran) db where "rg_pool rg" "q (rg_db rg) = (r, db)" "rg' = rg\<lparr>rg_db := db\<rparr>"
  using assms by (cases "rg_pool rg"; cases "q (rg_db rg)") (auto simp: sqlP_def)

lemma registry_ok_db:
  "registry_ok rg \<Longrightarrow> orgs_table_ok db \<Longrightarrow> set (db_orgs (rg_db rg)) \<subseteq> set (db_orgs db) \<Longrightarrow> registry_ok (rg\<lparr>rg_db := db\<rparr>)"
  using context_ok_mono by (fastforce simp: registry_ok_def)

lemma startup_ok:
  assumes "registry_startup os connects rg = (r, rg')" and inv: "registry_ok rg"
  shows "registry_ok rg'"
proof (cases connects)
  case True
  let ?rg = "rg\<lparr>rg_pool := True\<rparr>"
  have inv1: "registry_ok ?rg" using inv by (simp add: registry_ok_def)
  obtain q db where s: "select_orgs (rg_db rg) = (q, db)" by (cases "select_orgs (rg_db rg)")
  have t: "same_tables (rg_db rg) db" using s unfolding select_orgs_def by (rule statement_gets)
  have inv2: "registry_ok (?rg\<lparr>rg_db := db\<rparr>)"
    by (rule registry_ok_db [OF inv1]) (use inv same_tables_simps(8) [OF t] in \<open>simp_all add: registry_ok_def orgs_table_ok_def\<close>)
  show ?thesis
  proof (cases q)
    case (Inl e)
    with assms(1) True s inv2 show ?thesis
      by (simp add: registry_startup_def load_all_def bindP_apply sqlP_def registry_updates)
  next
    case (Inr rows)
    with s have "rows = db_orgs db" unfolding select_orgs_def by (auto dest: statement_gets_InrD)
    moreover have "load_rows os rows (?rg\<lparr>rg_db := db\<rparr>) = (r, rg')"
      using assms(1) True s Inr by (simp add: registry_startup_def load_all_def bindP_apply sqlP_def)
    ultimately show ?thesis using load_rows_ok inv2 by fastforce
  qed
qed (use assms in \<open>simp add: registry_startup_def throwP_def\<close>)

lemma insert_org_run:
  assumes "insert_org row db = (r, db')"
  obtains (failed) "r = Inl driver_error" "same_tables db db'"
  | (inserted) "r = Inr ()" "\<And>o'. o' \<in> set (db_orgs db) \<Longrightarrow> og_org_id o' \<noteq> og_org_id row \<and> og_slug o' \<noteq> og_slug row"
      "db' = db\<lparr>db_statements := Suc (db_statements db), db_orgs := db_orgs db @ [row]\<rparr>"
  using assms
  by (auto simp: insert_org_def statement_def Let_def same_tables_def split: if_splits)

lemma insert_app_config_orgs:
  "insert_app_config org row db = (r, db') \<Longrightarrow> db_orgs db' = db_orgs db"
  by (auto simp: insert_app_config_def statement_def Let_def split: if_splits)

lemma insert_org_ok:
  assumes "sqlP (insert_org row) rg = (q, rg1)" and inv: "registry_ok rg" and "og_org_id row = og_slug row"
  shows "registry_ok rg1 \<and> (q = Inr () \<longrightarrow> rg_pool rg1 \<and> row \<in> set (db_orgs (rg_db rg1)))"
  using assms(1)
proof (cases rule: sqlP_run)
  case (ran db)
  have tab: "orgs_table_ok (rg_db rg)" using inv by (simp add: registry_ok_def)
  from ran(2) show ?thesis
  proof (cases rule: insert_org_run)
    case failed
    have "registry_ok (rg\<lparr>rg_db := db\<rparr>)"
      by (rule registry_ok_db [OF inv]) (use tab same_tables_simps(8) [OF failed(2)] in \<open>simp_all add: orgs_table_ok_def\<close>)
    with failed ran show ?thesis by simp
  next
    case inserted
    have "orgs_table_ok db"
      using tab inserted(2) assms(3) by (fastforce simp: orgs_table_ok_def inserted(3))
    then have "registry_ok (rg\<lparr>rg_db := db\<rparr>)" by (rule registry_ok_db [OF inv]) (auto simp: inserted(3))
    with inserted ran show ?thesis by simp
  qed
qed (use inv in simp)

lemma insert_app_config_ok:
  assumes "sqlP (insert_app_config org row) rg = (q, rg1)" and "registry_ok rg" and "rg_pool rg"
  shows "registry_ok rg1 \<and> rg_pool rg1 \<and> db_orgs (rg_db rg1) = db_orgs (rg_db rg)"
proof -
  from assms(1,3) obtain db where db: "insert_app_config org row (rg_db rg) = (q, db)" "rg1 = rg\<lparr>rg_db := db\<rparr>"
    by (auto elim: sqlP_run)
  note orgs = insert_app_config_orgs [OF db(1)]
  have "registry_ok rg1" unfolding db(2)
    by (rule registry_ok_db [OF assms(2)]) (use assms(2) orgs in \<open>simp_all add: registry_ok_def orgs_table_ok_def\<close>)
  with assms(3) orgs show ?thesis by (simp add: db(2))
qed

lemma register_ok:
  assumes run: "registry_register os key admin slug tier rg = (r, rg')" and inv: "registry_ok rg"
  shows "registry_ok rg'"
proof -
  let ?row = "\<lparr>og_org_id = slug, og_slug = slug, og_tier = tier, og_api_key_hash = Some (key_hash key)\<rparr>"
  obtain q1 rg1 where s1: "sqlP (insert_org ?row) rg = (q1, rg1)" by (cases "sqlP (insert_org ?row) rg")
  note ok1 = insert_org_ok [OF s1 inv]
  obtain q2 rg2 where s2: "sqlP (insert_app_config slug (default_cfg_row admin)) rg1 = (q2, rg2)"
    by (cases "sqlP (insert_app_config slug (default_cfg_row admin)) rg1")
  obtain q3 rg3 where l: "load_org os slug slug tier (Some (key_hash key)) rg2 = (q3, rg3)"
    by (cases "load_org os slug slug tier (Some (key_hash key)) rg2")
  show ?thesis
  proof (cases q1)
    case (Inl e)
    with run s1 ok1 show ?thesis by (simp add: registry_register_def bindP_apply Let_def)
  next
    case (Inr u)
    with ok1 insert_app_config_ok [OF s2] have ok2: "registry_ok rg2" "?row \<in> set (db_orgs (rg_db rg2))" "rg_pool rg2" by auto
    show ?thesis
    proof (cases q2)
      case (Inl e)
      with run s1 s2 ok2 Inr show ?thesis by (simp add: registry_register_def bindP_apply Let_def)
    next
      case Inr2: (Inr u2)
      have "registry_ok rg3" by (rule load_org_ok(1) [OF l ok2(1)]) (use ok2 in simp_all)
      moreover from l obtain ctx where "q3 = Inr ctx" by (rule load_org_run)
      ultimately show ?thesis
        using run s1 s2 l Inr Inr2 by (simp add: registry_register_def bindP_apply Let_def)
    qed
  qed
qed

lemma delete_org_run:
  assumes "delete_org slug db = (r, db')"
  obtains (failed) "r = Inl driver_error" "same_tables db db'"
  | (deleted) "r = Inr (length (filter (\<lambda>o'. og_slug o' = slug) (db_orgs db)))"
      "db' = db\<lparr>db_statements := Suc (db_statements db),
        db_orgs := filter (\<lambda>o'. og_slug o' \<noteq> slug) (db_orgs db),
        db_org_jwks := filter (\<lambda>((org, i), t). org \<notin> og_org_id ` set (filter (\<lambda>o'. og_slug o' = slug) (db_orgs db)))
          (db_org_jwks db)\<rparr>"
  using assms by (auto simp: delete_org_def statement_def Let_def same_tables_def split: if_splits)

lemma deregister_ok:
  assumes run: "registry_deregister slug rg = (r, rg')" and inv: "registry_ok rg"
  shows "registry_ok rg'"
proof -
  obtain q rg1 where s: "sqlP (delete_org slug) rg = (q, rg1)" by (cases "sqlP (delete_org slug) rg")
  from s show ?thesis
  proof (cases rule: sqlP_run)
    case no_pool
    with run s inv show ?thesis by (simp add: registry_deregister_def bindP_apply)
  next
    case (ran db)
    have tab: "orgs_table_ok (rg_db rg)" using inv by (simp add: registry_ok_def)
    from ran(2) show ?thesis
    proof (cases rule: delete_org_run)
      case failed
      have "registry_ok (rg\<lparr>rg_db := db\<rparr>)"
        by (rule registry_ok_db [OF inv]) (use tab same_tables_simps(8) [OF failed(2)] in \<open>simp_all add: orgs_table_ok_def\<close>)
      with run s failed(1) ran show ?thesis by (simp add: registry_deregister_def bindP_apply)
    next
      case deleted
      have tab': "orgs_table_ok db" using tab unfolding orgs_table_ok_def deleted(2) by (simp add: distinct_map_filter)
      show ?thesis
      proof (cases "filter (\<lambda>o'. og_slug o' = slug) (db_orgs (rg_db rg)) = []")
        case True
        then have keep: "db_orgs db = db_orgs (rg_db rg)"
          by (simp add: deleted(2) filter_empty_conv filter_id_conv)
        have "registry_ok (rg\<lparr>rg_db := db\<rparr>)" by (rule registry_ok_db [OF inv tab']) (simp add: keep)
        with run s deleted(1) ran True show ?thesis by (simp add: registry_deregister_def bindP_apply)
      next
        case False
        then have rg': "rg' = rg\<lparr>rg_db := db, rg_orgs := dpop (rg_orgs rg) slug\<rparr>"
          using run s deleted(1) ran by (simp add: registry_deregister_def bindP_apply split: if_splits)
        have "context_ok db k x" if "dget (rg_orgs rg) k = Some x" "k \<noteq> slug" for k x
          using registry_okD [OF inv that(1)] that(2) by (simp add: context_ok_def deleted(2))
        moreover have "rg_pool rg \<or> dpop (rg_orgs rg) slug = []" using ran by simp
        ultimately show ?thesis using tab' by (auto simp: registry_ok_def rg' split: if_splits)
      qed
    qed
  qed
qed

lemma resolver_ok:
  assumes "\<And>org. keeps_orgs (p org)" and "registry_ok rg"
  shows "registry_ok (snd (resolverP slug p rg))"
proof (cases "dget (rg_orgs rg) slug")
  case (Some ctx)
  obtain r s where p: "p (oc_org_id ctx) (org_keys_of rg ctx) = (r, s)"
    by (cases "p (oc_org_id ctx) (org_keys_of rg ctx)")
  have orgs: "db_orgs (ok_db s) = db_orgs (rg_db rg)"
    using assms(1) [of "oc_org_id ctx"] unfolding keeps_orgs_def by (metis p snd_conv org_keys_of_def org_keys.select_convs(2))
  have c: "context_ok (ok_db s) k x" if "dget (rg_orgs rg) k = Some x" for k x
    using context_ok_mono [OF registry_okD [OF assms(2) that]] orgs by simp
  have "context_ok (ok_db s) slug (ctx\<lparr>oc_keys := ok_cache s\<rparr>)"
    using c [OF Some] by (simp add: context_ok_def)
  with c assms(2) same_orgs_table [OF orgs] Some show ?thesis
    by (auto simp: resolverP_def p put_org_keys_def registry_ok_def)
qed (use assms in \<open>simp add: resolverP_def\<close>)

lemma registry_call_ok: "registry_ok rg \<Longrightarrow> registry_ok (registry_call os C c rg)"
  unfolding registry_call_def
  by (cases c; simp add: resolver_ok keeps_orgs_load keeps_orgs_rotate registry_push_config_def)
     (metis prod.collapse startup_ok register_ok deregister_ok)+

fun registry_calls :: "os_env \<Rightarrow> key_codec \<Rightarrow> registry_call list \<Rightarrow> registry \<Rightarrow> registry" where
  "registry_calls os C [] rg = rg"
| "registry_calls os C (c # cs) rg = registry_calls os C cs (registry_call os C c rg)"

text \<open>
  C28: whatever the registry is asked to do, in whatever order and whichever statements fail, every
  organisation it serves is found under its own slug, with the identity store of its own id, and
  with the tier and API-key hash of its row in the \<open>orgs\<close> table.
\<close>

theorem registry_invariant:
  assumes "orgs_table_ok db"
    and "rg = registry_calls os C cs \<lparr>ks_gen = g, ks_drawn = 0, rg_orgs = [], rg_pool = False, rg_db = db\<rparr>"
    and "registry_get slug rg = Some ctx"
  shows "oc_slug ctx = slug \<and> pg_org_id (oc_store ctx) = oc_org_id ctx \<and> store_ok (pg_data (oc_store ctx)) \<and>
    \<lparr>og_org_id = oc_org_id ctx, og_slug = slug, og_tier = oc_tier ctx,
     og_api_key_hash = oc_api_key_hash ctx\<rparr> \<in> set (db_orgs (rg_db rg))"
proof -
  have "registry_ok (registry_calls os C cs r)" if "registry_ok r" for r
    using that registry_call_ok by (induction cs arbitrary: r) simp_all
  then have "registry_ok rg" using assms(1) by (simp add: assms(2) registry_ok_def)
  with assms(3) have "context_ok (rg_db rg) slug ctx" by (simp add: registry_get_def registry_okD)
  then show ?thesis by (simp add: context_ok_def)
qed

section \<open>Provisioning\<close>

text \<open>The run on a working database when the slug is free.\<close>

definition slug_free :: "string \<Rightarrow> database \<Rightarrow> bool" where
  "slug_free slug db = (\<forall>o' \<in> set (db_orgs db). og_org_id o' \<noteq> slug \<and> og_slug o' \<noteq> slug)"

definition provisioned_cfg :: "string \<Rightarrow> string \<Rightarrow> database \<Rightarrow> cfg_row" where
  "provisioned_cfg slug admin db =
     (case dget (db_app_config db) slug of None \<Rightarrow> default_cfg_row admin | Some c \<Rightarrow> c)"

definition provisioned_rows :: "string \<Rightarrow> string \<Rightarrow> database \<Rightarrow> pg_rows" where
  "provisioned_rows slug admin db = (org_rows slug db)\<lparr>pr_cfg := Some (provisioned_cfg slug admin db)\<rparr>"

lemma org_rows_other_tables [simp]:
  "org_users org (db\<lparr>db_orgs := x\<rparr>) = org_users org db"
  "org_service_principals org (db\<lparr>db_orgs := x\<rparr>) = org_service_principals org db"
  "org_client_apps org (db\<lparr>db_orgs := x\<rparr>) = org_client_apps org db"
  "org_users org (db\<lparr>db_org_jwks := y\<rparr>) = org_users org db"
  "org_service_principals org (db\<lparr>db_org_jwks := y\<rparr>) = org_service_principals org db"
  "org_client_apps org (db\<lparr>db_org_jwks := y\<rparr>) = org_client_apps org db"
  "org_users org (db\<lparr>db_app_config := z\<rparr>) = org_users org db"
  "org_service_principals org (db\<lparr>db_app_config := z\<rparr>) = org_service_principals org db"
  "org_client_apps org (db\<lparr>db_app_config := z\<rparr>) = org_client_apps org db"
  by (simp_all add: org_users_def org_service_principals_def org_client_apps_def cong: if_cong)

lemma register_run:
  assumes "db_healthy (rg_db rg)" and "rg_pool rg" and "slug_free slug (rg_db rg)"
  obtains ctx rg' where "registry_register os key admin slug tier rg = (Inr (ctx, key), rg')"
    and "rg' = rg\<lparr>rg_orgs := dset (rg_orgs rg) slug ctx, rg_db := rg_db rg'\<rparr>"
    and "oc_org_id ctx = slug" and "oc_slug ctx = slug" and "oc_tier ctx = tier"
    and "oc_api_key_hash ctx = Some (key_hash key)" and "oc_keys ctx = []"
    and "pg_data (oc_store ctx) = snd (apply_fetched (provisioned_rows slug admin (rg_db rg)) initial_store)"
    and "db_orgs (rg_db rg') = db_orgs (rg_db rg) @ [\<lparr>og_org_id = slug, og_slug = slug, og_tier = tier,
           og_api_key_hash = Some (key_hash key)\<rparr>]"
    and "db_org_jwks (rg_db rg') = db_org_jwks (rg_db rg)" and "db_healthy (rg_db rg')"
proof -
  let ?db = "rg_db rg"
  let ?row = "\<lparr>og_org_id = slug, og_slug = slug, og_tier = tier, og_api_key_hash = Some (key_hash key)\<rparr>"
  let ?db1 = "?db\<lparr>db_statements := Suc (db_statements ?db), db_orgs := db_orgs ?db @ [?row]\<rparr>"
  have h: "db_healthy ?db1" using assms(1) by (simp add: db_healthy_def)
  have one: "insert_org ?row ?db = (Inr (), ?db1)"
    using assms(1,3) by (auto simp: insert_org_def statement_healthy slug_free_def)
  define db2 where db2: "db2 = snd (insert_app_config slug (default_cfg_row admin) ?db1)"
  have two: "insert_app_config slug (default_cfg_row admin) ?db1 = (Inr (), db2)"
    using h by (simp add: insert_app_config_def statement_healthy db2)
  have tab: "db_healthy db2" "db_orgs db2 = db_orgs ?db1" "db_org_jwks db2 = db_org_jwks ?db"
    "org_rows slug db2 = provisioned_rows slug admin ?db"
    using h by (auto simp: insert_app_config_def statement_healthy db_healthy_def org_rows_def db2
        provisioned_rows_def provisioned_cfg_def dhas_iff split: option.split)
  let ?st = "\<lparr>pg_data = initial_store, pg_org_id = slug, pg_pool = True\<rparr>"
  define data where data: "data = snd (apply_fetched (provisioned_rows slug admin ?db) initial_store)"
  let ?ctx = "\<lparr>oc_org_id = slug, oc_slug = slug, oc_tier = tier, oc_api_key_hash = Some (key_hash key),
     oc_store = ?st\<lparr>pg_data := data\<rparr>, oc_keys = []\<rparr>"
  let ?db3 = "db2\<lparr>db_statements := db_statements db2 + 4\<rparr>"
  let ?rg' = "rg\<lparr>rg_orgs := dset (rg_orgs rg) slug ?ctx, rg_db := ?db3\<rparr>"
  have "pg_reload ?st db2 = (Inr (), ?st\<lparr>pg_data := data\<rparr>, ?db3)"
    using pg_reload_healthy [OF tab(1), of ?st] tab(4) by (simp add: data)
  then have load: "load_org os slug slug tier (Some (key_hash key)) (rg\<lparr>rg_db := db2\<rparr>) = (Inr ?ctx, ?rg')"
    using assms(2) by (simp add: load_org_eq registry_updates Let_def)
  have "registry_register os key admin slug tier rg = (Inr (?ctx, key), ?rg')"
    unfolding registry_register_def
    using assms(2) one two load by (simp add: bindP_apply Let_def sqlP_def)
  moreover have "db_healthy ?db3" using tab(1) by (simp add: db_healthy_def)
  ultimately show ?thesis using tab(2,3) by (intro that [of ?ctx ?rg']) (simp_all add: data)
qed

lemma verify_api_key_iff:
  assumes "oc_tier ctx \<noteq> ''sandbox''" and "oc_api_key_hash ctx = Some (key_hash key)"
  shows "verify_api_key ctx (Some a) \<longleftrightarrow>
    (\<exists>k. a = ''Bearer '' @ k \<and> sha256 (utf8_encode k) = sha256 (utf8_encode key))"
  using assms hex_digest_inj by (auto simp: verify_api_key_def key_hash_def prefix_def)

text \<open>
  C29: provisioning a free slug on a working database succeeds; from then on the organisation is
  found, its API is opened by the key that was handed out and by no key with a different SHA-256,
  every other organisation is served as before, and provisioning the slug again is refused without
  changing who is served.
\<close>

theorem provisioning:
  assumes "db_healthy (rg_db rg)" and "rg_pool rg" and "slug_free slug (rg_db rg)" and "tier \<noteq> ''sandbox''"
  shows "\<exists>ctx rg'. registry_register os key admin slug tier rg = (Inr (ctx, key), rg') \<and>
    registry_get slug rg' = Some ctx \<and> oc_tier ctx = tier \<and>
    (\<forall>a. verify_api_key ctx (Some a) \<longleftrightarrow>
       (\<exists>k. a = ''Bearer '' @ k \<and> sha256 (utf8_encode k) = sha256 (utf8_encode key))) \<and>
    \<not> verify_api_key ctx None \<and>
    (\<forall>s. s \<noteq> slug \<longrightarrow> registry_get s rg' = registry_get s rg) \<and>
    (\<forall>key2 admin2 tier2. fst (registry_register os key2 admin2 slug tier2 rg') = Inl driver_error \<and>
       rg_orgs (snd (registry_register os key2 admin2 slug tier2 rg')) = rg_orgs rg')"
  using assms(1-3)
proof (rule register_run [of rg slug os key admin tier])
  fix ctx rg'
  assume r: "registry_register os key admin slug tier rg = (Inr (ctx, key), rg')"
    and rg': "rg' = rg\<lparr>rg_orgs := dset (rg_orgs rg) slug ctx, rg_db := rg_db rg'\<rparr>"
    and c: "oc_tier ctx = tier" "oc_api_key_hash ctx = Some (key_hash key)"
    and db: "db_orgs (rg_db rg') = db_orgs (rg_db rg) @ [\<lparr>og_org_id = slug, og_slug = slug, og_tier = tier,
           og_api_key_hash = Some (key_hash key)\<rparr>]" "db_healthy (rg_db rg')"
  have g: "rg_orgs rg' = dset (rg_orgs rg) slug ctx" "rg_pool rg' = True" using assms(2) by (subst rg', simp)+
  have again: "registry_register os key2 admin2 slug tier2 rg' =
      (Inl driver_error, rg'\<lparr>rg_db := (rg_db rg')\<lparr>db_statements := Suc (db_statements (rg_db rg'))\<rparr>\<rparr>)"
    for key2 admin2 tier2
    using db g by (simp add: registry_register_def bindP_apply Let_def sqlP_def insert_org_def statement_healthy)
  show ?thesis
    using r c g again verify_api_key_iff [of ctx key] assms(4)
    by (intro exI [of _ ctx] exI [of _ rg']) (simp add: registry_get_def, simp add: verify_api_key_def)
qed

lemma deregister_run:
  fixes slug tier hash
  defines "row \<equiv> \<lparr>og_org_id = slug, og_slug = slug, og_tier = tier, og_api_key_hash = hash\<rparr>"
  assumes "db_healthy (rg_db rg)" and "rg_pool rg" and "orgs_table_ok (rg_db rg)" and "row \<in> set (db_orgs (rg_db rg))"
  obtains db1 where "registry_deregister slug rg = (Inr True, rg\<lparr>rg_db := db1, rg_orgs := dpop (rg_orgs rg) slug\<rparr>)"
    and "db_healthy db1" and "slug_free slug db1" and "\<And>i. dget (db_org_jwks db1) (slug, i) = None"
    and "\<And>admin. provisioned_rows slug admin db1 = provisioned_rows slug admin (rg_db rg)"
proof -
  let ?db = "rg_db rg"
  let ?gone = "filter (\<lambda>o'. og_slug o' = slug) (db_orgs ?db)"
  have inj: "inj_on og_org_id (set (db_orgs ?db))" "inj_on og_slug (set (db_orgs ?db))"
    using assms(4) by (simp_all add: orgs_table_ok_def distinct_map)
  have uniq: "o' = row" if "o' \<in> set (db_orgs ?db)" "og_slug o' = slug \<or> og_org_id o' = slug" for o'
    using inj_onD [OF inj(1) _ that(1) assms(5)] inj_onD [OF inj(2) _ that(1) assms(5)] that(2)
    by (auto simp: row_def)
  have slug: "og_slug row = slug" "og_org_id row = slug" by (simp_all add: row_def)
  have gone: "set ?gone = {row}"
  proof (rule equalityI; rule subsetI)
    fix o' assume "o' \<in> set ?gone"
    then have "o' = row" by (intro uniq) simp_all
    then show "o' \<in> {row}" by simp
  qed (use assms(5) slug in simp)
  define db1 where db1: "db1 = ?db\<lparr>db_statements := Suc (db_statements ?db),
        db_orgs := filter (\<lambda>o'. og_slug o' \<noteq> slug) (db_orgs ?db),
        db_org_jwks := filter (\<lambda>((org, i), t). org \<notin> og_org_id ` set ?gone) (db_org_jwks ?db)\<rparr>"
  have "delete_org slug ?db = (Inr (length ?gone), db1)"
    using assms(2) by (simp add: delete_org_def statement_healthy Let_def db1)
  moreover have "length ?gone \<noteq> 0" using gone by (metis insert_not_empty length_0_conv list.set(1))
  ultimately have "registry_deregister slug rg = (Inr True, rg\<lparr>rg_db := db1, rg_orgs := dpop (rg_orgs rg) slug\<rparr>)"
    using assms(3) by (simp add: registry_deregister_def bindP_apply sqlP_def)
  moreover have "db_healthy db1" using assms(2) by (simp add: db1 db_healthy_def)
  moreover have "slug_free slug db1"
    using uniq slug unfolding db1 slug_free_def by (simp, metis)
  moreover have "dget (db_org_jwks db1) (slug, i) = None" for i
    unfolding db1 gone by (auto simp: map_of_eq_None_iff row_def)
  moreover have "provisioned_rows slug admin db1 = provisioned_rows slug admin ?db" for admin
    by (simp add: provisioned_rows_def provisioned_cfg_def org_rows_def db1)
  ultimately show ?thesis by (rule that)
qed

lemma apply_fetched_scalars:
  assumes "pr_cfg rows = Some cfg"
  shows "st_mode (snd (apply_fetched rows d)) = cr_auth_mode cfg"
    and "st_admin_token (snd (apply_fetched rows d)) = cr_admin_token cfg"
proof -
  obtain q d' where a: "apply_cfg_row cfg d = (q, d')" by (cases "apply_cfg_row cfg d")
  show "st_mode (snd (apply_fetched rows d)) = cr_auth_mode cfg"
    "st_admin_token (snd (apply_fetched rows d)) = cr_admin_token cfg"
    using apply_cfg_row_tables(5,6) [OF a] assms a
    by (auto simp: apply_fetched_def apply_rows_def bindE_def split: sum.split prod.split)
qed

text \<open>
  C30: removing an organisation and provisioning its slug again gives it a new API key and new signing
  keys, but the identities, the authentication mode and the admin token are those the removed
  organisation left in the database.
\<close>

theorem reprovisioning:
  assumes "db_healthy (rg_db rg)" and "rg_pool rg" and "orgs_table_ok (rg_db rg)"
    and "\<lparr>og_org_id = slug, og_slug = slug, og_tier = tier, og_api_key_hash = hash\<rparr> \<in> set (db_orgs (rg_db rg))"
    and "dget (db_app_config (rg_db rg)) slug = Some cfg"
    and "registry_deregister slug rg = (r1, rg1)"
    and "registry_register os key admin slug tier2 rg1 = (r2, rg2)"
  shows "r1 = Inr True \<and> registry_get slug rg1 = None \<and>
    (\<exists>ctx. r2 = Inr (ctx, key) \<and> registry_get slug rg2 = Some ctx \<and> oc_api_key_hash ctx = Some (key_hash key) \<and>
       oc_keys ctx = [] \<and> (\<forall>i. dget (db_org_jwks (rg_db rg2)) (slug, i) = None) \<and>
       pg_data (oc_store ctx) = snd (apply_fetched (org_rows slug (rg_db rg)) initial_store) \<and>
       st_mode (pg_data (oc_store ctx)) = cr_auth_mode cfg \<and>
       st_admin_token (pg_data (oc_store ctx)) = cr_admin_token cfg)"
proof -
  obtain db1 where d: "registry_deregister slug rg = (Inr True, rg\<lparr>rg_db := db1, rg_orgs := dpop (rg_orgs rg) slug\<rparr>)"
    and db1: "db_healthy db1" "slug_free slug db1" "\<And>i. dget (db_org_jwks db1) (slug, i) = None"
      "\<And>admin. provisioned_rows slug admin db1 = provisioned_rows slug admin (rg_db rg)"
    using deregister_run [OF assms(1-4)] by blast
  with assms(6) have one: "r1 = Inr True" "rg1 = rg\<lparr>rg_db := db1, rg_orgs := dpop (rg_orgs rg) slug\<rparr>"
    by (metis prod.inject)+
  have rows: "provisioned_rows slug admin db1 = org_rows slug (rg_db rg)"
    using assms(5) db1(4) by (simp add: provisioned_rows_def provisioned_cfg_def org_rows_def)
  have cfg: "pr_cfg (org_rows slug (rg_db rg)) = Some cfg" using assms(5) by (simp add: org_rows_def)
  have h: "db_healthy (rg_db rg1)" "rg_pool rg1" "slug_free slug (rg_db rg1)"
    using db1 assms(2) by (simp_all add: one)
  from h show ?thesis
  proof (rule register_run [of rg1 slug os key admin tier2])
    fix ctx rg'
    assume r: "registry_register os key admin slug tier2 rg1 = (Inr (ctx, key), rg')"
      and rg': "rg' = rg1\<lparr>rg_orgs := dset (rg_orgs rg1) slug ctx, rg_db := rg_db rg'\<rparr>"
      and c: "oc_api_key_hash ctx = Some (key_hash key)" "oc_keys ctx = []"
        "pg_data (oc_store ctx) = snd (apply_fetched (provisioned_rows slug admin (rg_db rg1)) initial_store)"
        "db_org_jwks (rg_db rg') = db_org_jwks (rg_db rg1)"
    have "rg_orgs rg' = dset (rg_orgs rg1) slug ctx" by (subst rg') simp
    moreover have "r2 = Inr (ctx, key)" "rg2 = rg'" using r assms(7) by simp_all
    moreover have "registry_get slug rg1 = None" by (simp add: one registry_get_def)
    ultimately show ?thesis
      using one c rows db1(3) apply_fetched_scalars [OF cfg] by (simp add: registry_get_def)
  qed
qed

section \<open>Instances\<close>

definition empty_registry :: "database \<Rightarrow> registry" where
  "empty_registry db = \<lparr>ks_gen = (\<lambda>n. n), ks_drawn = 0, rg_orgs = [], rg_pool = False, rg_db = db\<rparr>"

definition demo_os :: os_env where
  "demo_os = \<lparr>os_vars = [], os_read = (\<lambda>_. FileMissing)\<rparr>"

lemma orgs_db_simps [simp]:
  "db_healthy (orgs_db slugs)" "db_orgs (orgs_db slugs) = map org_row_of slugs"
  by (simp_all add: orgs_db_def db_healthy_def)

theorem registry_invariant_witness:
  "\<exists>ctx. registry_get ''one'' (registry_calls demo_os demo_codec [StartCall True] (empty_registry (orgs_db [''one'']))) = Some ctx \<and>
     oc_slug ctx = ''one'' \<and> store_ok (pg_data (oc_store ctx))"
proof -
  let ?rg = "registry_calls demo_os demo_codec [StartCall True] (empty_registry (orgs_db [''one'']))"
  have h: "db_healthy ((orgs_db [''one''])\<lparr>db_statements := n\<rparr>)" for n
    by (simp add: orgs_db_def db_healthy_def)
  have "\<exists>ctx. registry_get ''one'' ?rg = Some ctx"
    using pg_reload_healthy [OF h, of "\<lparr>pg_data = initial_store, pg_org_id = ''one'', pg_pool = True\<rparr>"]
    by (simp add: registry_call_def registry_startup_def load_all_def bindP_apply sqlP_def empty_registry_def
        select_orgs_def statement_healthy load_org_eq org_row_of_def Let_def registry_get_def split: prod.split)
  then obtain ctx where c: "registry_get ''one'' ?rg = Some ctx" by blast
  have "orgs_table_ok (orgs_db [''one''])" by (simp add: orgs_table_ok_def)
  moreover have "?rg = registry_calls demo_os demo_codec [StartCall True]
      \<lparr>ks_gen = (\<lambda>n. n), ks_drawn = 0, rg_orgs = [], rg_pool = False, rg_db = orgs_db [''one'']\<rparr>"
    by (simp only: empty_registry_def)
  ultimately show ?thesis using registry_invariant [OF _ _ c] c by blast
qed

theorem provisioning_witness:
  "\<exists>ctx rg'. registry_register demo_os ''key'' ''admin'' ''acme'' ''pro''
       ((empty_registry (orgs_db [''one'']))\<lparr>rg_pool := True\<rparr>) = (Inr (ctx, ''key''), rg') \<and>
     verify_api_key ctx (Some ''Bearer key'')"
proof -
  let ?rg = "(empty_registry (orgs_db [''one'']))\<lparr>rg_pool := True\<rparr>"
  have "db_healthy (rg_db ?rg)" "rg_pool ?rg" "slug_free ''acme'' (rg_db ?rg)"
    by (simp_all add: empty_registry_def slug_free_def org_row_of_def)
  from provisioning [OF this, of "''pro''" demo_os "''key''" "''admin''"] show ?thesis by fastforce
qed

theorem reprovisioning_witness:
  "\<exists>ctx rg'. registry_register demo_os ''new'' ''admin2'' ''acme'' ''pro''
       (snd (registry_deregister ''acme'' ((empty_registry (demo_db\<lparr>db_orgs := [org_row_of ''acme'']\<rparr>))\<lparr>rg_pool := True\<rparr>)))
       = (Inr (ctx, ''new''), rg') \<and> st_admin_token (pg_data (oc_store ctx)) = ''db-admin''"
proof -
  let ?rg = "(empty_registry (demo_db\<lparr>db_orgs := [org_row_of ''acme'']\<rparr>))\<lparr>rg_pool := True\<rparr>"
  obtain r1 rg1 where d: "registry_deregister ''acme'' ?rg = (r1, rg1)" by (cases "registry_deregister ''acme'' ?rg")
  obtain r2 rg2 where r: "registry_register demo_os ''new'' ''admin2'' ''acme'' ''pro'' rg1 = (r2, rg2)"
    by (cases "registry_register demo_os ''new'' ''admin2'' ''acme'' ''pro'' rg1")
  have "db_healthy (rg_db ?rg)" "rg_pool ?rg" "orgs_table_ok (rg_db ?rg)"
    "\<lparr>og_org_id = ''acme'', og_slug = ''acme'', og_tier = ''pro'', og_api_key_hash = None\<rparr> \<in> set (db_orgs (rg_db ?rg))"
    "dget (db_app_config (rg_db ?rg)) ''acme'' = Some demo_cfg_row"
    by (simp_all add: empty_registry_def demo_db_def db_healthy_def orgs_table_ok_def org_row_of_def)
  from reprovisioning [OF this d r] r d show ?thesis by (auto simp: demo_cfg_row_def)
qed

end
