(* ===== verification/Hosted.thy ===== *)
theory Hosted
  imports OrgLife TokenEndpoint
begin

text \<open>
  \<open>routers/hosted.py\<close>: the routes \<open>/{org}/{issuer}/...\<close> of the hosted mode. A handler is a program
  over the registry of organisations, the sandbox hit table and the webhook deliveries; a database
  failure in the key resolver is an exception of the request. Requests run one at a time: the
  context found by \<open>_get_org\<close> is the registered one until the request ends. A \<open>float\<close> time is a
  rational. The handlers repeat code of \<open>token_handler.py\<close>; where it is the same text, the model
  uses the same definition (authentication, the claims of a grant, the fixtures' claims), on a
  context made of the organisation's data.
\<close>

section \<open>State and requests\<close>

record hosted = registry +
  hs_hits :: "(string, rat list) dict"
  hs_posts :: "delivery list"

type_synonym 'r hosted_prog = "(exn, hosted, 'r) prog"

record hosted_env =
  he_env :: env
  he_now :: rat             \<comment> \<open>\<open>time.time()\<close> of the rate check\<close>
  he_codec :: key_codec

record hosted_request =
  hr_request :: request
  hr_client :: "string option"   \<comment> \<open>\<open>request.client.host\<close>\<close>

text \<open>The first header of a name, as \<open>Header\<close> and \<open>request.headers.get\<close> read it.\<close>

definition header_first :: "hosted_request \<Rightarrow> string \<Rightarrow> string option" where
  "header_first rq name = dget (map (\<lambda>(k, v). (py_lower k, v)) (rq_headers (hr_request rq))) name"

definition authorization_of :: "hosted_request \<Rightarrow> string option" where
  "authorization_of rq = header_first rq ''authorization''"

definition pyP :: "(py_exn, hosted, 'r) prog \<Rightarrow> 'r hosted_prog" where
  "pyP p = (\<lambda>s. case p s of (r, s') \<Rightarrow> (lift_py r, s'))"

definition error_detail :: "string \<Rightarrow> json" where
  "error_detail e = JObj [(''error'', JStr e)]"

section \<open>Admission\<close>

definition get_org :: "string \<Rightarrow> string option \<Rightarrow> org_context hosted_prog" where
  "get_org slug authorization =
     bindP (getsP (registry_get slug)) (\<lambda>found.
     case found of
       None \<Rightarrow> throwP (http 404 (error_detail ''org_not_found''))
     | Some ctx \<Rightarrow>
         if \<not> verify_api_key ctx authorization
         then throwP (http 401 (error_detail ''invalid_api_key'')) else retP ctx)"

definition sandbox_rate_window :: rat where
  "sandbox_rate_window = 60"

definition sandbox_rate_limit :: nat where
  "sandbox_rate_limit = 10"

definition sandbox_rate_check ::
  "string option \<Rightarrow> rat \<Rightarrow> (exn, (string, rat list) dict, unit) prog" where
  "sandbox_rate_check client now table =
     (let ip = (case client of Some h \<Rightarrow> h | None \<Rightarrow> ''unknown'');
          hits = (case dget table ip of Some ts \<Rightarrow> ts | None \<Rightarrow> []);
          hits' = filter (\<lambda>t. now - t < sandbox_rate_window) hits
      in if length hits' \<ge> sandbox_rate_limit
         then (Inl (HTTPException 429 (error_detail ''rate_limit_exceeded'') [(''Retry-After'', ''60'')]), table)
         else (Inr (), dset table ip (hits' @ [now])))"

definition hitsP :: "(exn, (string, rat list) dict, 'r) prog \<Rightarrow> 'r hosted_prog" where
  "hitsP p = (\<lambda>s. case p (hs_hits s) of (r, h) \<Rightarrow> (r, s\<lparr>hs_hits := h\<rparr>))"

definition full_issuer :: "string \<Rightarrow> string \<Rightarrow> string" where
  "full_issuer org issuer = org @ ''/'' @ issuer"

definition hosted_resolve ::
  "hosted_env \<Rightarrow> string \<Rightarrow> string \<Rightarrow> hosted_request \<Rightarrow> (org_context \<times> string) hosted_prog" where
  "hosted_resolve H org issuer rq =
     bindP (get_org org (authorization_of rq)) (\<lambda>ctx.
     bindP (if oc_tier ctx = ''sandbox'' then hitsP (sandbox_rate_check (hr_client rq) (he_now H)) else retP ())
       (\<lambda>_. retP (ctx, full_issuer org issuer)))"

section \<open>The organisation's context\<close>

text \<open>
  What \<open>make_token_context\<close> collects, with the organisation's own key operations where the adapter
  for the handlers' protocol raises (the hosted router awaits the resolver instead).
\<close>

definition org_token_context ::
  "key_codec \<Rightarrow> string \<Rightarrow> (claims \<Rightarrow> 'a \<Rightarrow> (py_exn + unit) \<times> 'a) \<Rightarrow> org_context \<Rightarrow> (org_keys, 'a) token_context" where
  "org_token_context C iss_base wr oc =
     (let d = pg_data (oc_store oc); org = oc_org_id oc in
      \<lparr>ctx_iss_base = iss_base @ ''/'' @ oc_slug oc, ctx_users = st_users d,
       ctx_service_principals = st_service_principals d, ctx_clients = st_client_apps d,
       ctx_mode = st_mode d, ctx_issuer_modes = st_issuer_modes d, ctx_write_token_event = wr,
       ctx_signing_key_for_alg = org_signing_key C org, ctx_alt_key_for_alg = org_alt_key C org,
       ctx_jwks_keys = org_jwks C org, ctx_signing_public_key = org_public_key C org\<rparr>)"

text \<open>
  The handlers compute the effective mode from the bare issuer first and use the full issuer from
  then on.
\<close>

definition context_for ::
  "hosted_env \<Rightarrow> (claims \<Rightarrow> 'a \<Rightarrow> (py_exn + unit) \<times> 'a) \<Rightarrow> org_context \<Rightarrow> string \<Rightarrow> (org_keys, 'a) token_context" where
  "context_for H wr oc issuer =
     (let ctx = org_token_context (he_codec H) (cf_iss_base (e_cfg (he_env H))) wr oc
      in ctx\<lparr>ctx_mode := effective_mode ctx issuer, ctx_issuer_modes := []\<rparr>)"

definition hosted_context :: "hosted_env \<Rightarrow> org_context \<Rightarrow> string \<Rightarrow> (org_keys, database) token_context" where
  "hosted_context H oc issuer = context_for H (pg_write_token_event (oc_store oc)) oc issuer"

definition hosted_hooks :: "hosted_request \<Rightarrow> unit hosted_prog" where
  "hosted_hooks rq = bindP (liftP (apply_test_hooks (headers_of (hr_request rq)))) (\<lambda>_. retP ())"

definition hosted_jwks_keys :: "hosted_env \<Rightarrow> string \<Rightarrow> string \<Rightarrow> jwk list hosted_prog" where
  "hosted_jwks_keys H org full = pyP (resolverP org (\<lambda>o'. async_jwks_keys (he_codec H) o' full))"

section \<open>Discovery and keys\<close>

definition hosted_discovery :: "hosted_env \<Rightarrow> string \<Rightarrow> string \<Rightarrow> hosted_request \<Rightarrow> json hosted_prog" where
  "hosted_discovery H org issuer rq =
     bindP (hosted_resolve H org issuer rq) (\<lambda>(oc, full).
     bindP (hosted_hooks rq) (\<lambda>_.
     (let iss_base = cf_iss_base (e_cfg (he_env H));
          base = iss_base @ ''/'' @ full;
          url = (\<lambda>what. JStr (iss_base @ ''/'' @ org @ ''/'' @ issuer @ ''/'' @ what))
      in retP (JObj
        [(''issuer'', JStr base),
         (''token_endpoint'', url ''token''),
         (''jwks_uri'', url ''jwks''),
         (''userinfo_endpoint'', url ''userinfo''),
         (''introspection_endpoint'', url ''introspect''),
         (''response_types_supported'', jstrs [''token'', ''id_token'']),
         (''subject_types_supported'', jstrs [''public'']),
         (''id_token_signing_alg_values_supported'', jstrs [''RS256'', ''ES256'']),
         (''scopes_supported'', jstrs [''openid'', ''profile'', ''email'']),
         (''grant_types_supported'', jstrs [''client_credentials'', ''password'', grant_exchange]),
         (''introspection_endpoint_auth_methods_supported'', jstrs [''client_secret_post''])]))))"

definition hosted_jwks :: "hosted_env \<Rightarrow> string \<Rightarrow> string \<Rightarrow> hosted_request \<Rightarrow> json hosted_prog" where
  "hosted_jwks H org issuer rq =
     bindP (hosted_resolve H org issuer rq) (\<lambda>(oc, full).
     bindP (hosted_hooks rq) (\<lambda>_.
     bindP (hosted_jwks_keys H org full) (\<lambda>ks.
     retP (JObj [(''keys'', JList (map (jwk_public_dict (e_lib (he_env H))) ks))]))))"

section \<open>The token endpoint\<close>

text \<open>\<open>_hosted_emit\<close>: \<open>write_token_event\<close> of the organisation's store never raises.\<close>

definition hosted_emit ::
  "hosted_env \<Rightarrow> string \<Rightarrow> string \<Rightarrow> string \<Rightarrow> claims \<Rightarrow> pg_store \<Rightarrow> unit hosted_prog" where
  "hosted_emit H org issuer grant_type claims store = (\<lambda>s.
     let E = he_env H;
         payload = [(''issuer'', JStr (full_issuer org issuer)), (''grant_type'', JStr grant_type),
                    (''claims'', JObj claims)];
         posts = fire_webhooks (cf_webhooks (e_cfg E)) (e_post E) (e_timestamp E) ''token_issued'' payload;
         (r, db) = pg_write_token_event store (dset claims ''grant_type'' (JStr grant_type)) (rg_db s)
     in (Inr (), s\<lparr>hs_posts := hs_posts s @ posts, rg_db := db\<rparr>))"

definition hosted_issue ::
  "hosted_env \<Rightarrow> org_context \<Rightarrow> string \<Rightarrow> string \<Rightarrow> headers \<Rightarrow> string \<Rightarrow> claims \<times> string \<Rightarrow>
   (string \<times> claims) hosted_prog" where
  "hosted_issue H oc org issuer headers grant_type ca =
     (let claims = omit (fst ca) (dget headers ''x-omit-claims''); full = full_issuer org issuer in
      bindP (pyP (resolverP org (\<lambda>o'. async_signing_key_for_alg (he_codec H) o' full (snd ca)))) (\<lambda>k.
      let token = sign (e_lib (he_env H)) claims k in
      bindP (hosted_emit H org issuer grant_type claims (oc_store oc)) (\<lambda>_. retP (token, claims))))"

definition hosted_subject :: "hosted_env \<Rightarrow> string \<Rightarrow> string \<Rightarrow> form \<Rightarrow> claims hosted_prog" where
  "hosted_subject H org full form =
     (let token_str = py_strip (str_or (dget form ''subject_token'') []);
          bad = (\<lambda>m. throwP (http 400 (oauth_detail ''invalid_request'' m)))
      in if token_str = [] then bad ''subject_token required''
         else
           bindP (hosted_jwks_keys H org full) (\<lambda>ks.
           (case verify_token (e_lib (he_env H)) token_str ks of
              None \<Rightarrow> bad ''subject_token signature invalid''
            | Some claims \<Rightarrow>
                bindP (liftP (exp_before claims (e_check_now (he_env H)))) (\<lambda>expired.
                if expired then bad ''subject_token is expired'' else retP claims))))"

definition hosted_exchange_grant ::
  "hosted_env \<Rightarrow> org_context \<Rightarrow> string \<Rightarrow> string \<Rightarrow> form \<Rightarrow> headers \<Rightarrow> (claims \<times> string) hosted_prog" where
  "hosted_exchange_grant H oc org issuer form headers =
     (let full = full_issuer org issuer; ctx = hosted_context H oc issuer in
      bindP (liftP (authenticate_sp ctx form)) (\<lambda>who.
      bindP (hosted_subject H org full form) (\<lambda>subject.
      bindP (liftP (sp_token_claims (he_env H) ctx full form headers
                      (str_or (dget form ''audience'') (resolve_aud form)) who
                      (resolve_expiry (id_token_lifetime_seconds (snd who)) headers)
                      (\<lambda>rs. apply_roles_override rs headers))) (\<lambda>claims.
      retP (dset (copy_claims exchange_identity subject claims) ''act'' (act_claim (snd who)),
            id_signing_alg (snd who))))))"

definition hosted_token :: "hosted_env \<Rightarrow> string \<Rightarrow> string \<Rightarrow> hosted_request \<Rightarrow> json hosted_prog" where
  "hosted_token H org issuer rq =
     bindP (hosted_resolve H org issuer rq) (\<lambda>(oc, full).
     (let E = he_env H; form = form_of (hr_request rq); headers = headers_of (hr_request rq);
          grant_type = dget form ''grant_type''; ctx = hosted_context H oc issuer in
      bindP (hosted_hooks rq) (\<lambda>_.
      if grant_type = Some ''password'' then
        bindP (liftP (password_grant E ctx full form headers)) (\<lambda>ca.
        bindP (hosted_issue H oc org issuer headers ''password'' ca) (\<lambda>tc.
        liftP (token_response E form tc)))
      else if grant_type = Some ''client_credentials'' then
        bindP (liftP (client_credentials_grant E ctx full form headers)) (\<lambda>ca.
        bindP (hosted_issue H oc org issuer headers ''client_credentials'' ca) (\<lambda>tc.
        liftP (token_response E form tc)))
      else if grant_type = Some grant_exchange then
        bindP (hosted_exchange_grant H oc org issuer form headers) (\<lambda>ca.
        bindP (hosted_issue H oc org issuer headers grant_exchange ca) (\<lambda>tc.
        liftP (exchange_response E tc)))
      else throwP (http 400 (JStr ''unsupported_grant_type'')))))"

section \<open>Introspection and userinfo\<close>

text \<open>Unlike the flat introspection, this one does not look at the token's audience.\<close>

definition hosted_introspect :: "hosted_env \<Rightarrow> string \<Rightarrow> string \<Rightarrow> hosted_request \<Rightarrow> json hosted_prog" where
  "hosted_introspect H org issuer rq =
     bindP (hosted_resolve H org issuer rq) (\<lambda>(oc, full).
     (let form = form_of (hr_request rq) in
      bindP (liftP (authenticate_caller (hosted_context H oc issuer) form)) (\<lambda>_.
      (let token_str = py_strip (str_or (dget form ''token'') []) in
       if token_str = []
       then throwP (http 400 (oauth_detail ''invalid_request'' ''token parameter required''))
       else
         bindP (hosted_jwks_keys H org full) (\<lambda>ks.
         (case verify_token (e_lib (he_env H)) token_str ks of
            None \<Rightarrow> retP inactive
          | Some claims \<Rightarrow>
              bindP (liftP (exp_before claims (e_check_now (he_env H)))) (\<lambda>expired.
              if expired then retP inactive else retP (JObj (introspection_response claims)))))))))"

definition hosted_userinfo :: "hosted_env \<Rightarrow> string \<Rightarrow> string \<Rightarrow> hosted_request \<Rightarrow> json hosted_prog" where
  "hosted_userinfo H org issuer rq =
     bindP (get_org org None) (\<lambda>oc.
     (let bearer = (case authorization_of rq of Some a \<Rightarrow> a | None \<Rightarrow> []) in
      if \<not> prefix ''Bearer '' bearer then throwP (http 401 (JStr ''missing bearer token''))
      else
        bindP (hosted_jwks_keys H org (full_issuer org issuer)) (\<lambda>ks.
        (case verify_token (e_lib (he_env H)) (drop 7 bearer) ks of
           None \<Rightarrow> throwP (http 401 (JStr ''invalid token''))
         | Some claims \<Rightarrow> retP (JObj claims)))))"

section \<open>Test fixtures\<close>

definition hosted_token_wrong_sig :: "hosted_env \<Rightarrow> string \<Rightarrow> string \<Rightarrow> hosted_request \<Rightarrow> json hosted_prog" where
  "hosted_token_wrong_sig H org issuer rq =
     bindP (hosted_resolve H org issuer rq) (\<lambda>(oc, full).
     bindP (liftP (fixture_claims (he_env H) (hosted_context H oc issuer) full (hr_request rq)))
       (\<lambda>(claims, alg).
     bindP (pyP (resolverP org (\<lambda>o'. async_alt_key_for_alg (he_codec H) o' full alg))) (\<lambda>k.
     retP (fixture_response (sign (e_lib (he_env H)) claims k)))))"

definition hosted_token_malformed :: "string \<Rightarrow> json hosted_prog" where
  "hosted_token_malformed org =
     bindP (getsP (registry_get org)) (\<lambda>found.
     case found of
       None \<Rightarrow> throwP (http 404 (error_detail ''org_not_found''))
     | Some _ \<Rightarrow> retP token_malformed)"

end
