(* ===== verification/HostedRefinement.thy ===== *)
theory HostedRefinement
  imports Hosted Demo
begin

text \<open>
  The hosted token endpoint refines the shared one: on a working database, an admitted request of a
  grant both know is answered exactly as \<open>handle_token\<close> answers it on the organisation's context,
  with no faults injected, under the full issuer; the registry afterwards is the one the shared
  handler's world stands for. So what is proved of the shared handler holds of the hosted route.
\<close>

section \<open>Simulation of programs\<close>

text \<open>
  \<open>p\<close>, run in the state that \<open>w\<close> stands for, gives the result of \<open>q\<close> in \<open>w\<close> and ends in the state
  that the world \<open>q\<close> ends in stands for.
\<close>

definition simulates ::
  "('w \<Rightarrow> bool) \<Rightarrow> ('w \<Rightarrow> bool) \<Rightarrow> ('w \<Rightarrow> 's) \<Rightarrow> ('e, 's, 'r) prog \<Rightarrow> ('e, 'w, 'r) prog \<Rightarrow> bool" where
  "simulates I J stands_for p q =
     (\<forall>w. I w \<longrightarrow> p (stands_for w) = (fst (q w), stands_for (snd (q w))) \<and> (\<forall>x. fst (q w) = Inr x \<longrightarrow> J (snd (q w))))"

lemma simulatesD: "simulates I J f p q \<Longrightarrow> I w \<Longrightarrow> p (f w) = (fst (q w), f (snd (q w)))"
  by (simp add: simulates_def)

lemma simulates_lift: "simulates I I f (liftP r) (liftP r)"
  and simulates_ret: "simulates I I f (retP x) (retP x)"
  and simulates_throw: "simulates I J f (throwP e) (throwP e)"
  by (simp_all add: simulates_def liftP_def retP_def throwP_def)

lemma simulates_bind:
  assumes "simulates I J f p q" and "\<And>x. simulates J K f (p' x) (q' x)"
  shows "simulates I K f (bindP p p') (bindP q q')"
  unfolding simulates_def
proof (intro allI impI)
  fix w assume w: "I w"
  obtain r w1 where q: "q w = (r, w1)" by (cases "q w")
  have p: "p (f w) = (r, f w1)" "\<And>x. r = Inr x \<Longrightarrow> J w1"
    using assms(1) w unfolding simulates_def by (metis q fst_conv snd_conv)+
  show "bindP p p' (f w) = (fst (bindP q q' w), f (snd (bindP q q' w))) \<and>
      (\<forall>x. fst (bindP q q' w) = Inr x \<longrightarrow> K (snd (bindP q q' w)))"
  proof (cases r)
    case (Inl e)
    then show ?thesis by (simp add: bindP_apply p q)
  next
    case (Inr x)
    with assms(2) [of x] p(2) show ?thesis by (simp add: bindP_apply p q simulates_def)
  qed
qed

lemma simulates_if:
  "(b \<Longrightarrow> simulates I J f p q) \<Longrightarrow> (\<not> b \<Longrightarrow> simulates I J f p' q') \<Longrightarrow>
   simulates I J f (if b then p else p') (if b then q else q')"
  by simp

section \<open>What the worlds of the shared handler stand for\<close>

text \<open>The shared handler logs the events; the hosted one writes each to the database.\<close>

definition write_events :: "pg_store \<Rightarrow> claims list \<Rightarrow> database \<Rightarrow> database" where
  "write_events store events db = fold (\<lambda>ev d. snd (pg_write_token_event store ev d)) events db"

type_synonym org_world = "(org_keys, claims list) world"

definition in_registry :: "string \<Rightarrow> org_context \<Rightarrow> hosted \<Rightarrow> org_world \<Rightarrow> hosted" where
  "in_registry org oc s w =
     (put_org_keys org oc (w_keys w) s)
       \<lparr>rg_db := write_events (oc_store oc) (w_audit w) (ok_db (w_keys w)), hs_posts := w_posts w\<rparr>"

definition org_world_of :: "hosted \<Rightarrow> org_context \<Rightarrow> org_world" where
  "org_world_of s oc =
     \<lparr>w_keys = org_keys_of s oc, w_faults = [], w_posts = hs_posts s, w_audit = []\<rparr>"

text \<open>The worlds before the event.\<close>

definition quiet :: "key_codec \<Rightarrow> string \<Rightarrow> bundles \<Rightarrow> org_world \<Rightarrow> bool" where
  "quiet C org B w = (w_faults w = [] \<and> w_audit w = [] \<and> org_keys_inv C org B (w_keys w))"

lemma in_registry_orgs [simp]:
  "dget (rg_orgs (in_registry org oc s w)) org = Some (oc\<lparr>oc_keys := ok_cache (w_keys w)\<rparr>)"
  "hs_posts (in_registry org oc s w) = w_posts w"
  by (simp_all add: in_registry_def put_org_keys_def)

lemma in_registry_keys:
  "w_audit w = [] \<Longrightarrow> org_keys_of (in_registry org oc s w) (oc\<lparr>oc_keys := ok_cache (w_keys w)\<rparr>) = w_keys w"
  by (simp add: in_registry_def org_keys_of_def put_org_keys_def write_events_def)

lemma in_registry_put:
  "w_audit w = [] \<Longrightarrow>
   put_org_keys org (oc\<lparr>oc_keys := ok_cache (w_keys w)\<rparr>) k (in_registry org oc s w) = in_registry org oc s (w\<lparr>w_keys := k\<rparr>)"
  by (simp add: in_registry_def put_org_keys_def write_events_def update_triv)

section \<open>The key operations\<close>

lemma resolverP_in_registry:
  assumes "w_audit w = []" and "p (oc_org_id oc) (w_keys w) = (r, k)"
  shows "resolverP org p (in_registry org oc s w) = (r, in_registry org oc s (w\<lparr>w_keys := k\<rparr>))"
  using assms in_registry_keys [OF assms(1), of org oc s] in_registry_put [OF assms(1), of org oc k s]
  by (simp add: resolverP_def)

lemma simulates_jwks:
  "simulates (quiet (he_codec H) (oc_org_id oc) B) (quiet (he_codec H) (oc_org_id oc) B) (in_registry org oc s)
     (hosted_jwks_keys H org full) (keysP (org_jwks (he_codec H) (oc_org_id oc) full))"
  unfolding simulates_def
proof (intro allI impI)
  fix w assume q: "quiet (he_codec H) (oc_org_id oc) B w"
  then have inv: "org_keys_inv (he_codec H) (oc_org_id oc) B (w_keys w)" and a: "w_audit w = []"
    by (simp_all add: quiet_def)
  obtain ks k where ks: "org_jwks (he_codec H) (oc_org_id oc) full (w_keys w) = (ks, k)"
    by (cases "org_jwks (he_codec H) (oc_org_id oc) full (w_keys w)")
  have "async_jwks_keys (he_codec H) (oc_org_id oc) full (w_keys w) = (Inr ks, k)"
    using async_ops_eq(3) [OF inv] by (simp add: ks)
  from resolverP_in_registry [where p = "\<lambda>o'. async_jwks_keys (he_codec H) o' full", OF a this] have
    "hosted_jwks_keys H org full (in_registry org oc s w) = (Inr ks, in_registry org oc s (w\<lparr>w_keys := k\<rparr>))"
    by (simp add: hosted_jwks_keys_def pyP_def lift_py_def)
  moreover have "quiet (he_codec H) (oc_org_id oc) B (w\<lparr>w_keys := k\<rparr>)"
    using q org_keys.jwks_inv [OF inv, of full] by (simp add: quiet_def ks)
  ultimately show "hosted_jwks_keys H org full (in_registry org oc s w) =
      (fst (keysP (org_jwks (he_codec H) (oc_org_id oc) full) w),
       in_registry org oc s (snd (keysP (org_jwks (he_codec H) (oc_org_id oc) full) w))) \<and>
      (\<forall>x. fst (keysP (org_jwks (he_codec H) (oc_org_id oc) full) w) = Inr x \<longrightarrow>
         quiet (he_codec H) (oc_org_id oc) B (snd (keysP (org_jwks (he_codec H) (oc_org_id oc) full) w)))"
    by (simp add: keysP_def ks)
qed

text \<open>The context of the shared handler, and that its writer is irrelevant before the event.\<close>

lemma context_for_simps [simp]:
  "ctx_users (context_for H wr oc i) = st_users (pg_data (oc_store oc))"
  "ctx_service_principals (context_for H wr oc i) = st_service_principals (pg_data (oc_store oc))"
  "ctx_clients (context_for H wr oc i) = st_client_apps (pg_data (oc_store oc))"
  "ctx_signing_key_for_alg (context_for H wr oc i) = org_signing_key (he_codec H) (oc_org_id oc)"
  "ctx_alt_key_for_alg (context_for H wr oc i) = org_alt_key (he_codec H) (oc_org_id oc)"
  "ctx_jwks_keys (context_for H wr oc i) = org_jwks (he_codec H) (oc_org_id oc)"
  "ctx_signing_public_key (context_for H wr oc i) = org_public_key (he_codec H) (oc_org_id oc)"
  "ctx_write_token_event (context_for H wr oc i) = wr"
  by (simp_all add: context_for_def org_token_context_def Let_def)

text \<open>The mode in force is the organisation's for the bare issuer, whatever full issuer is asked about.\<close>

lemma context_for_mode [simp]:
  "effective_mode (context_for H wr oc i) full =
     str_or (dget (st_issuer_modes (pg_data (oc_store oc))) i) (st_mode (pg_data (oc_store oc)))"
  by (simp add: context_for_def org_token_context_def effective_mode_def Let_def)

lemma context_for_writer:
  "password_grant E (context_for H wr oc i) = password_grant E (context_for H wr' oc i)"
  "client_credentials_grant E (context_for H wr oc i) = client_credentials_grant E (context_for H wr' oc i)"
  "authenticate_sp (context_for H wr oc i) = authenticate_sp (context_for H wr' oc i)"
  "authenticate_caller (context_for H wr oc i) = authenticate_caller (context_for H wr' oc i)"
  "sp_token_claims E (context_for H wr oc i) = sp_token_claims E (context_for H wr' oc i)"
  by (simp_all add: fun_eq_iff password_grant_def client_credentials_grant_def authenticate_user_def
      authenticate_sp_def authenticate_caller_def user_token_claims_def sp_token_claims_def Let_def)

abbreviation shared_context :: "hosted_env \<Rightarrow> org_context \<Rightarrow> string \<Rightarrow> (org_keys, claims list) token_context" where
  "shared_context H oc issuer \<equiv> context_for H log_event oc issuer"

section \<open>The steps\<close>

lemma simulates_exchange:
  "simulates (quiet (he_codec H) (oc_org_id oc) B) (quiet (he_codec H) (oc_org_id oc) B) (in_registry org oc s)
     (hosted_exchange_grant H oc org issuer form headers)
     (token_exchange_grant (he_env H) (shared_context H oc issuer) (full_issuer org issuer) form headers)"
proof -
  let ?Q = "quiet (he_codec H) (oc_org_id oc) B"
  let ?full = "full_issuer org issuer"
  have subject: "simulates ?Q ?Q (in_registry org oc s) (hosted_subject H org ?full form)
      (presented_token (he_env H) (shared_context H oc issuer) ?full form ''subject_token'' ''subject_token'' ''invalid_request'')"
  proof -
    have checked: "simulates ?Q ?Q (in_registry org oc s)
        (bindP (liftP r) (\<lambda>expired. if expired then throwP e else retP c))
        (bindP (liftP r) (\<lambda>expired. if expired then throwP e else retP c))" for r e and c :: claims
      by (intro simulates_bind [OF simulates_lift] simulates_if simulates_throw simulates_ret)
    have looked: "simulates ?Q ?Q (in_registry org oc s)
        (case v of None \<Rightarrow> throwP e1 | Some c \<Rightarrow> bindP (liftP (f c)) (\<lambda>expired. if expired then throwP e2 else retP c))
        (case v of None \<Rightarrow> throwP e1 | Some c \<Rightarrow> bindP (liftP (f c)) (\<lambda>expired. if expired then throwP e2 else retP c))"
      for v e1 e2 and f :: "claims \<Rightarrow> exn + bool"
      by (cases v) (simp_all add: simulates_throw checked)
    show ?thesis
      unfolding hosted_subject_def presented_token_def Let_def context_for_simps append.simps
      by (intro simulates_if simulates_bind [OF simulates_jwks]) (simp_all add: simulates_throw looked)
  qed
  show ?thesis
    unfolding hosted_exchange_grant_def token_exchange_grant_def Let_def hosted_context_def
      context_for_writer(5) [of _ H "pg_write_token_event (oc_store oc)" oc issuer log_event]
      context_for_writer(3) [of H "pg_write_token_event (oc_store oc)" oc issuer log_event]
    by (intro simulates_bind [OF simulates_lift] simulates_bind [OF subject] simulates_ret)
qed

lemma simulates_issue:
  "simulates (quiet (he_codec H) (oc_org_id oc) B) (\<lambda>w. True) (in_registry org oc s)
     (hosted_issue H oc org issuer headers g ca)
     (issue (he_env H) (shared_context H oc issuer) (full_issuer org issuer) headers g (fst ca) (snd ca))"
  unfolding simulates_def
proof (intro allI impI)
  fix w assume "quiet (he_codec H) (oc_org_id oc) B w"
  then have inv: "org_keys_inv (he_codec H) (oc_org_id oc) B (w_keys w)" and a: "w_audit w = []" "w_faults w = []"
    by (simp_all add: quiet_def)
  let ?full = "full_issuer org issuer"
  obtain k ks where ks: "org_signing_key (he_codec H) (oc_org_id oc) ?full (snd ca) (w_keys w) = (k, ks)"
    by (cases "org_signing_key (he_codec H) (oc_org_id oc) ?full (snd ca) (w_keys w)")
  have "async_signing_key_for_alg (he_codec H) (oc_org_id oc) ?full (snd ca) (w_keys w) = (Inr k, ks)"
    using async_ops_eq(1) [OF inv] by (simp add: ks)
  note sign = resolverP_in_registry [where p = "\<lambda>o'. async_signing_key_for_alg (he_codec H) o' ?full (snd ca)",
      OF a(1) this, of org s]
  define c where c: "c = omit (fst ca) (dget headers ''x-omit-claims'')"
  let ?w1 = "w\<lparr>w_keys := ks\<rparr>"
  have emit: "hosted_emit H org issuer g c (oc_store oc) (in_registry org oc s ?w1) =
      (Inr (), in_registry org oc s (emit_event (he_env H) ''token_issued'' ?full g c (shared_context H oc issuer) ?w1))"
    using a by (simp add: hosted_emit_def emit_event_def in_registry_def write_events_def log_event_def Let_def
        split: prod.split)
  have "hosted_issue H oc org issuer headers g ca (in_registry org oc s w) =
      (Inr (sign (e_lib (he_env H)) c k, c), in_registry org oc s
        (emit_event (he_env H) ''token_issued'' ?full g c (shared_context H oc issuer) ?w1))"
    using emit by (simp add: hosted_issue_def bindP_apply pyP_def sign lift_py_def c Let_def)
  moreover have "issue (he_env H) (shared_context H oc issuer) ?full headers g (fst ca) (snd ca) w =
      (Inr (sign (e_lib (he_env H)) c k, c),
        emit_event (he_env H) ''token_issued'' ?full g c (shared_context H oc issuer) ?w1)"
    by (simp add: issue_eq issued_token_def get_fault_def a ks c Let_def)
  ultimately show "hosted_issue H oc org issuer headers g ca (in_registry org oc s w) =
      (fst (issue (he_env H) (shared_context H oc issuer) ?full headers g (fst ca) (snd ca) w),
       in_registry org oc s (snd (issue (he_env H) (shared_context H oc issuer) ?full headers g (fst ca) (snd ca) w))) \<and>
      (\<forall>x. fst (issue (he_env H) (shared_context H oc issuer) ?full headers g (fst ca) (snd ca) w) = Inr x \<longrightarrow> True)"
    by simp
qed

section \<open>The endpoint\<close>

lemma hosted_resolve_InrE:
  assumes "hosted_resolve H org issuer rq s = (Inr (oc, full), s')"
  obtains h where "registry_get org s = Some oc" and "verify_api_key oc (authorization_of rq)"
    and "full = full_issuer org issuer" and "s' = s\<lparr>hs_hits := h\<rparr>"
    and "oc_tier oc \<noteq> ''sandbox'' \<Longrightarrow> s' = s"
proof -
  from assms obtain ctx u where "get_org org (authorization_of rq) s = (Inr ctx, u)"
    and rest: "bindP (if oc_tier ctx = ''sandbox'' then hitsP (sandbox_rate_check (hr_client rq) (he_now H)) else retP ())
       (\<lambda>_. retP (ctx, full_issuer org issuer)) u = (Inr (oc, full), s')"
    unfolding hosted_resolve_def by (rule bindP_InrE)
  then have g: "registry_get org s = Some ctx" "verify_api_key ctx (authorization_of rq)" "u = s"
    by (auto simp: get_org_def bindP_apply split: option.splits if_splits)
  from rest obtain h where "oc = ctx" "full = full_issuer org issuer" "s' = s\<lparr>hs_hits := h\<rparr>"
    "oc_tier ctx \<noteq> ''sandbox'' \<Longrightarrow> s' = s"
  proof (cases "oc_tier ctx = ''sandbox''")
    case True
    with rest that show ?thesis
      by (auto simp: bindP_apply hitsP_def g(3) split: prod.splits sum.splits)
  next
    case False
    with rest that [of "hs_hits s"] show ?thesis by (simp add: g(3))
  qed
  with g show ?thesis by (intro that) simp_all
qed

lemma in_registry_start:
  assumes "registry_get org s = Some oc"
  shows "in_registry org oc s (org_world_of s oc) = s"
proof -
  have "dset (rg_orgs s) org oc = rg_orgs s"
    using assms unfolding registry_get_def by (rule update_triv)
  then show ?thesis
    by (simp add: in_registry_def org_world_of_def put_org_keys_def org_keys_of_def write_events_def)
qed

text \<open>Both endpoints, after the test hooks: what they do for a grant.\<close>

definition shared_step where
  "shared_step H oc issuer full rq g =
     bindP (grant_claims (he_env H) (context_for H log_event oc issuer) full (form_of rq) (headers_of rq) g) (\<lambda>(claims, alg).
     bindP (issue (he_env H) (context_for H log_event oc issuer) full (headers_of rq) g claims alg) (\<lambda>tc.
     liftP (grant_response (he_env H) (form_of rq) g tc)))"

definition hosted_step where
  "hosted_step H org oc issuer full rq g =
     bindP (if g = ''password'' then liftP (password_grant (he_env H) (context_for H log_event oc issuer) full (form_of rq) (headers_of rq))
       else if g = ''client_credentials'' then liftP (client_credentials_grant (he_env H) (context_for H log_event oc issuer) full (form_of rq) (headers_of rq))
       else if g = grant_exchange then hosted_exchange_grant H oc org issuer (form_of rq) (headers_of rq)
       else throwP (http 400 (JStr ''unsupported_grant_type''))) (\<lambda>ca.
     bindP (hosted_issue H oc org issuer (headers_of rq) g ca) (\<lambda>tc. liftP (grant_response (he_env H) (form_of rq) g tc)))"

lemma steps_simulated:
  assumes "g \<noteq> grant_obo"
  shows "simulates (quiet (he_codec H) (oc_org_id oc) B) (\<lambda>w. True) (in_registry org oc s)
    (hosted_step H org oc issuer (full_issuer org issuer) rq g) (shared_step H oc issuer (full_issuer org issuer) rq g)"
  unfolding hosted_step_def shared_step_def grant_claims_def case_prod_unfold using assms
  by (intro simulates_bind [OF _ simulates_bind [OF simulates_issue [where B = B] simulates_lift]])
    (simp add: simulates_lift simulates_throw simulates_exchange)

lemma hosted_token_steps:
  assumes "hosted_resolve H org issuer rq s0 = (Inr (oc, full), s)"
  shows "hosted_token H org issuer rq s0 =
    (case apply_test_hooks (headers_of (hr_request rq)) of Inl e \<Rightarrow> (Inl e, s)
     | Inr _ \<Rightarrow> (case dget (form_of (hr_request rq)) ''grant_type'' of
           None \<Rightarrow> (Inl (http 400 (JStr ''unsupported_grant_type'')), s)
         | Some g \<Rightarrow> hosted_step H org oc issuer full (hr_request rq) g s))"
  by (auto simp: hosted_token_def bindP_apply assms hosted_hooks_def hosted_step_def grant_response_def hosted_context_def
      context_for_writer(1,2) [of _ H "pg_write_token_event (oc_store oc)" oc issuer log_event] Let_def
      split: sum.split option.split)

lemma handle_token_steps:
  "handle_token (he_env H) full rq (context_for H log_event oc issuer) (org_world_of s oc) =
    (case apply_test_hooks (headers_of rq) of Inl e \<Rightarrow> (Inl e, org_world_of s oc)
     | Inr _ \<Rightarrow> (case dget (form_of rq) ''grant_type'' of
           None \<Rightarrow> (Inl (http 400 (JStr ''unsupported_grant_type'')), org_world_of s oc)
         | Some g \<Rightarrow> shared_step H oc issuer full rq g (org_world_of s oc)))"
  by (auto simp: handle_token_eq bindP_apply shared_step_def apply_pre_def get_fault_def org_world_of_def
      split: sum.split option.split)

lemma hosted_token_simulated:
  assumes "hosted_resolve H org issuer rq s0 = (Inr (oc, full), s)"
    and "org_keys_inv (he_codec H) (oc_org_id oc) B (org_keys_of s oc)"
    and "dget (form_of (hr_request rq)) ''grant_type'' \<noteq> Some grant_obo"
  shows "hosted_token H org issuer rq s0 =
    (case handle_token (he_env H) full (hr_request rq) (context_for H log_event oc issuer) (org_world_of s oc) of
       (r, w) \<Rightarrow> (r, in_registry org oc s w))"
proof -
  let ?I = "in_registry org oc s"
  from assms(1) obtain h where res: "registry_get org s0 = Some oc" "full = full_issuer org issuer"
    "s = s0\<lparr>hs_hits := h\<rparr>" by (rule hosted_resolve_InrE)
  have start: "?I (org_world_of s oc) = s" by (rule in_registry_start) (use res in \<open>simp add: registry_get_def\<close>)
  have q: "quiet (he_codec H) (oc_org_id oc) B (org_world_of s oc)" using assms(2) by (simp add: quiet_def org_world_of_def)
  have step: "hosted_step H org oc issuer full (hr_request rq) g s =
      (case shared_step H oc issuer full (hr_request rq) g (org_world_of s oc) of (r, w) \<Rightarrow> (r, ?I w))"
    if "g \<noteq> grant_obo" for g
    using simulatesD [OF steps_simulated [OF that, where org = org and s = s and issuer = issuer and rq = "hr_request rq"] q]
    by (simp add: start res(2) case_prod_unfold)
  show ?thesis
    using step assms(3) start
    by (cases "apply_test_hooks (headers_of (hr_request rq))"; cases "dget (form_of (hr_request rq)) ''grant_type''")
      (simp_all add: hosted_token_steps [OF assms(1)] handle_token_steps)
qed

text \<open>
  C23: an admitted token request of a grant other than \<open>jwt-bearer\<close> is answered, on a working database,
  exactly as the shared \<open>handle_token\<close> answers it under the full issuer on the organisation's context
  with no faults set: same response or error, same webhooks, same key bundles, and the events the
  shared handler records are the rows written.
\<close>

theorem hosted_token_refines:
  assumes "hosted_resolve H org issuer rq s0 = (Inr (oc, full), s)"
    and "org_keys_inv (he_codec H) (oc_org_id oc) B (org_keys_of s oc)"
    and "dget (form_of (hr_request rq)) ''grant_type'' \<noteq> Some grant_obo"
  shows "hosted_token H org issuer rq s0 =
    (case handle_token (he_env H) full (hr_request rq) (context_for H log_event oc issuer) (org_world_of s oc) of
       (r, w) \<Rightarrow> (r, in_registry org oc s w))"
  using assms by (rule hosted_token_simulated)

end
