(* ===== verification/HostedAccess.thy ===== *)
theory HostedAccess
  imports HostedRefinement
begin

text \<open>
  Who gets through the hosted router's door: the API key of the organisation, the sandbox's rate
  limit, and the route that no organisation with a key can use.
\<close>

section \<open>The API key\<close>

text \<open>The routes that resolve the organisation from the request's \<open>Authorization\<close> header.\<close>

datatype hosted_route = HostedDiscovery | HostedJwks | HostedToken | HostedIntrospect | HostedWrongSig

definition hosted_route_handler ::
  "hosted_route \<Rightarrow> hosted_env \<Rightarrow> string \<Rightarrow> string \<Rightarrow> hosted_request \<Rightarrow> json hosted_prog" where
  "hosted_route_handler route =
     (case route of HostedDiscovery \<Rightarrow> hosted_discovery | HostedJwks \<Rightarrow> hosted_jwks
      | HostedToken \<Rightarrow> hosted_token | HostedIntrospect \<Rightarrow> hosted_introspect
      | HostedWrongSig \<Rightarrow> hosted_token_wrong_sig)"

lemma route_refused:
  assumes "hosted_resolve H org issuer rq s = (Inl e, s')"
  shows "hosted_route_handler route H org issuer rq s = (Inl e, s')"
  using assms
  by (cases route) (simp_all add: hosted_route_handler_def hosted_discovery_def hosted_jwks_def hosted_token_def
      hosted_introspect_def hosted_token_wrong_sig_def bindP_apply)

definition opens_with_key :: "org_context \<Rightarrow> hosted_request \<Rightarrow> bool" where
  "opens_with_key oc rq =
     (\<exists>key. authorization_of rq = Some (''Bearer '' @ key) \<and> oc_api_key_hash oc = Some (key_hash key))"

lemma verify_api_key_opens:
  "oc_tier oc \<noteq> ''sandbox'' \<Longrightarrow> verify_api_key oc (authorization_of rq) \<longleftrightarrow> opens_with_key oc rq"
  by (auto simp: verify_api_key_def opens_with_key_def prefix_def split: option.splits)


text \<open>
  The userinfo route is closed for every organisation with an API key: whatever the request
  carries, a valid access token and the right key included, it is answered 401 \<open>invalid_api_key\<close>.
\<close>

lemma hosted_userinfo_locked:
  assumes "registry_get org s = Some oc" and "oc_tier oc \<noteq> ''sandbox''"
  shows "hosted_userinfo H org issuer rq s = (Inl (http 401 (error_detail ''invalid_api_key'')), s)"
  using assms by (simp add: hosted_userinfo_def get_org_def bindP_apply verify_api_key_def)

section \<open>The sandbox rate limit\<close>

text \<open>A sequence of checks, and the log of the admitted ones.\<close>

type_synonym rate_request = "string option \<times> rat"

fun rate_run ::
  "rate_request list \<Rightarrow> (string, rat list) dict \<Rightarrow> bool list \<times> (string, rat list) dict" where
  "rate_run [] table = ([], table)"
| "rate_run ((client, now) # rs) table =
     (case sandbox_rate_check client now table of (r, table') \<Rightarrow>
        map_prod ((#) (r = Inr ())) id (rate_run rs table'))"

definition source_ip :: "string option \<Rightarrow> string" where
  "source_ip client = (case client of Some h \<Rightarrow> h | None \<Rightarrow> ''unknown'')"

text \<open>
  The rule the pruned lists implement: a request is admitted when fewer than ten requests of its
  source were admitted in the minute before it.
\<close>

definition recent :: "rate_request list \<Rightarrow> string \<Rightarrow> rat \<Rightarrow> rate_request list" where
  "recent admitted ip now = filter (\<lambda>(c, t). source_ip c = ip \<and> now - t < 60) admitted"

fun rate_spec :: "rate_request list \<Rightarrow> rate_request list \<Rightarrow> bool list" where
  "rate_spec [] admitted = []"
| "rate_spec ((client, now) # rs) admitted =
     (let ok = length (recent admitted (source_ip client) now) < 10
      in ok # rate_spec rs (if ok then admitted @ [(client, now)] else admitted))"

fun admitted_by :: "rate_request list \<Rightarrow> bool list \<Rightarrow> rate_request list" where
  "admitted_by (r # rs) (ok # oks) = (if ok then r # admitted_by rs oks else admitted_by rs oks)"
| "admitted_by _ _ = []"

text \<open>
  The table agrees with the log: what a later request can still see of a source's hits is the same
  in both.
\<close>

definition hits_of :: "(string, rat list) dict \<Rightarrow> string \<Rightarrow> rat list" where
  "hits_of table ip = (case dget table ip of Some ts \<Rightarrow> ts | None \<Rightarrow> [])"

definition table_agrees :: "(string, rat list) dict \<Rightarrow> rate_request list \<Rightarrow> rat \<Rightarrow> bool" where
  "table_agrees table admitted since =
     (\<forall>ip now. since \<le> now \<longrightarrow>
        filter (\<lambda>t. now - t < 60) (hits_of table ip) = map snd (recent admitted ip now))"

lemma table_agrees_mono: "table_agrees table admitted a \<Longrightarrow> a \<le> b \<Longrightarrow> table_agrees table admitted b"
  unfolding table_agrees_def by (meson order_trans)

lemma rate_check_step:
  fixes client :: "string option"
  assumes "table_agrees table admitted now"
  defines "ok \<equiv> length (recent admitted (source_ip client) now) < 10"
  shows "\<exists>r table'. sandbox_rate_check client now table = (r, table') \<and> (r = Inr ()) = ok \<and>
    table_agrees table' (if ok then admitted @ [(client, now)] else admitted) now"
proof -
  let ?ip = "source_ip client"
  let ?hits = "filter (\<lambda>t. now - t < 60) (hits_of table ?ip)"
  have len: "length ?hits = length (recent admitted ?ip now)"
    using assms(1) by (simp add: table_agrees_def)
  have check: "sandbox_rate_check client now table =
      (if ok then (Inr (), dset table ?ip (?hits @ [now]))
       else (Inl (HTTPException 429 (error_detail ''rate_limit_exceeded'') [(''Retry-After'', ''60'')]), table))"
    using len by (simp add: sandbox_rate_check_def sandbox_rate_window_def sandbox_rate_limit_def source_ip_def
        hits_of_def ok_def Let_def not_less)
  show ?thesis
  proof (cases ok)
    case True
    have "table_agrees (dset table ?ip (?hits @ [now])) (admitted @ [(client, now)]) now"
      unfolding table_agrees_def
    proof (intro allI impI)
      fix ip later assume later: "now \<le> later"
      show "filter (\<lambda>t. later - t < 60) (hits_of (dset table ?ip (?hits @ [now])) ip) =
          map snd (recent (admitted @ [(client, now)]) ip later)"
      proof (cases "ip = ?ip")
        case True
        have "filter (\<lambda>t. later - t < 60) ?hits = filter (\<lambda>t. later - t < 60) (hits_of table ?ip)"
          using later by (auto simp: filter_filter intro!: filter_cong)
        with True assms(1) later show ?thesis by (simp add: hits_of_def table_agrees_def recent_def)
      next
        case False
        with assms(1) later show ?thesis by (simp add: hits_of_def table_agrees_def recent_def)
      qed
    qed
    with check True show ?thesis by simp
  next
    case False
    with check assms(1) show ?thesis by simp
  qed
qed

lemma rate_run_agrees:
  "sorted (map snd rs) \<Longrightarrow> (\<forall>r \<in> set rs. since \<le> snd r) \<Longrightarrow> table_agrees table admitted since \<Longrightarrow>
   fst (rate_run rs table) = rate_spec rs admitted"
proof (induction rs arbitrary: table admitted since)
  case (Cons r rs)
  obtain client now where r: "r = (client, now)" by (cases r)
  have "table_agrees table admitted now" using Cons.prems(2,3) table_agrees_mono by (simp add: r)
  from rate_check_step [OF this, of client] Cons.IH [of now] Cons.prems(1) show ?case
    by (auto simp: r Let_def)
qed simp

lemma rate_run_spec:
  assumes "sorted (map snd rs)"
  shows "fst (rate_run rs []) = rate_spec rs []"
proof (cases rs)
  case (Cons r rs')
  have "table_agrees [] [] (snd r)" by (simp add: table_agrees_def hits_of_def recent_def)
  moreover have "\<forall>q \<in> set rs. snd r \<le> snd q" using assms by (auto simp: Cons)
  ultimately show ?thesis using assms rate_run_agrees by blast
qed simp

text \<open>
  C26: while the clock does not run backwards, the pruned per-source lists admit exactly the requests
  that the log of all admitted requests would: those with fewer than ten admitted requests of the
  same source in the minute before them.
\<close>

theorem sandbox_rate_refines:
  assumes "sorted (map snd rs)"
  shows "fst (rate_run rs []) = rate_spec rs []"
  using assms by (rule rate_run_spec)

text \<open>The admitted requests of a source in the minute up to a time.\<close>

definition window :: "rate_request list \<Rightarrow> string \<Rightarrow> rat \<Rightarrow> rate_request list" where
  "window admitted ip t = filter (\<lambda>(c, u). source_ip c = ip \<and> u \<le> t \<and> t - u < 60) admitted"

lemma window_admit:
  assumes "\<And>ip t. length (window admitted ip t) \<le> 10" and "\<forall>q \<in> set admitted. snd q \<le> now"
    and "length (recent admitted (source_ip client) now) < 10"
  shows "length (window (admitted @ [(client, now)]) ip t) \<le> 10"
proof (cases "now \<le> t \<and> source_ip client = ip")
  case True
  have "window admitted ip t = filter (\<lambda>q. t - snd q < 60) (recent admitted ip now)"
    unfolding window_def recent_def filter_filter using assms(2) True
    by (intro filter_cong) auto
  then have "length (window admitted ip t) \<le> length (recent admitted ip now)" by simp
  with assms(3) True show ?thesis by (simp add: window_def)
next
  case False
  then have "window (admitted @ [(client, now)]) ip t = window admitted ip t" by (auto simp: window_def)
  with assms(1) show ?thesis by simp
qed

lemma rate_spec_bound:
  "sorted (map snd rs) \<Longrightarrow> (\<forall>q \<in> set admitted. \<forall>r \<in> set rs. snd q \<le> snd r) \<Longrightarrow>
   (\<And>ip t. length (window admitted ip t) \<le> 10) \<Longrightarrow>
   length (window (admitted @ admitted_by rs (rate_spec rs admitted)) ip t) \<le> 10"
proof (induction rs arbitrary: admitted)
  case (Cons r rs)
  obtain client now where r: "r = (client, now)" by (cases r)
  show ?case
  proof (cases "length (recent admitted (source_ip client) now) < 10")
    case True
    let ?a = "admitted @ [(client, now)]"
    have "length (window ?a ip t) \<le> 10" for ip t
      by (rule window_admit [OF Cons.prems(3)]) (use Cons.prems(2) True in \<open>auto simp: r\<close>)
    with Cons.IH [of ?a] Cons.prems(1,2) True show ?thesis by (auto simp: r Let_def)
  next
    case False
    with Cons.IH [of admitted] Cons.prems show ?thesis by (auto simp: r Let_def)
  qed
qed simp

text \<open>
  C27: while the clock does not run backwards, no source ever gets more than ten sandbox requests
  through in any minute, however many it and others send.
\<close>

theorem sandbox_rate_bound:
  assumes "sorted (map snd rs)"
  shows "length (window (admitted_by rs (fst (rate_run rs []))) ip t) \<le> 10"
proof -
  have "length (window ([] @ admitted_by rs (rate_spec rs [])) ip t) \<le> 10"
    by (rule rate_spec_bound [OF assms]) (simp_all add: window_def)
  then show ?thesis by (simp add: rate_run_spec [OF assms])
qed

end
