(* ===== verification/HostedKeys.thy ===== *)
theory HostedKeys
  imports HostedAccess
begin

text \<open>
  The keys of all organisations together: the invariant under which every organisation's resolver
  meets its contract, its preservation by a token request, and with it who can verify a token the
  hosted endpoint issued.
\<close>

section \<open>The invariant\<close>

text \<open>Every bundle in use anywhere: cached by an organisation's resolver, or stored.\<close>

definition all_bundles :: "key_codec \<Rightarrow> 'a registry_scheme \<Rightarrow> bundles" where
  "all_bundles C rg k ik =
     ((\<exists>slug oc. registry_get slug rg = Some oc \<and> oc_org_id oc = fst k \<and> dget (oc_keys oc) (snd k) = Some ik) \<or>
      stored_bundle C (rg_db rg) (fst k) (snd k) ik)"

definition hosted_keys_ok :: "key_codec \<Rightarrow> 'a registry_scheme \<Rightarrow> bool" where
  "hosted_keys_ok C rg =
     (codec_lawful C \<and> inj (ks_gen rg) \<and>
      (\<forall>slug oc. registry_get slug rg = Some oc \<longrightarrow> keys_db_ok C (oc_org_id oc) (rg_db rg)) \<and>
      bundles_ok (ks_gen rg) (ks_drawn rg) (all_bundles C rg))"

lemma hosted_keys_resolver:
  assumes "hosted_keys_ok C rg" and "registry_get slug rg = Some oc"
  shows "org_keys_inv C (oc_org_id oc) (all_bundles C rg) (org_keys_of rg oc)"
proof -
  have "bundle_of C (oc_org_id oc) (all_bundles C rg) (org_keys_of rg oc) k ik \<Longrightarrow> all_bundles C rg k ik" for k ik
    using assms(2) unfolding bundle_of_def all_bundles_def by (auto simp: org_keys_of_def) metis
  then have "bundles_ok (ks_gen rg) (ks_drawn rg)
      (bundle_of C (oc_org_id oc) (all_bundles C rg) (org_keys_of rg oc))"
    using assms(1) bundles_ok_mono unfolding hosted_keys_ok_def by blast
  with assms show ?thesis by (simp add: org_keys_inv_def hosted_keys_ok_def org_keys_of_def)
qed

text \<open>What a request leaves behind, its events included.\<close>

lemma pg_write_tables:
  "db_org_jwks (snd (pg_write_token_event st ev db)) = db_org_jwks db"
  "db_orgs (snd (pg_write_token_event st ev db)) = db_orgs db"
  "db_fails (snd (pg_write_token_event st ev db)) = db_fails db"
  "db_jsonb (snd (pg_write_token_event st ev db)) = db_jsonb db"
  by (auto simp: pg_write_token_event_def insert_event_def insert_token_event_def bindP_apply statement_def Let_def
      split: prod.split sum.split option.split)

lemma write_events_tables:
  "db_org_jwks (write_events st evs db) = db_org_jwks db"
  "db_orgs (write_events st evs db) = db_orgs db"
  "db_fails (write_events st evs db) = db_fails db"
  "db_jsonb (write_events st evs db) = db_jsonb db"
  unfolding write_events_def by (induction evs arbitrary: db) (simp_all add: pg_write_tables)

lemma stored_bundle_write [simp]: "stored_bundle C (write_events st evs db) = stored_bundle C db"
  by (simp add: stored_bundle_def fun_eq_iff write_events_tables)

lemma keys_db_ok_write: "keys_db_ok C org db \<Longrightarrow> keys_db_ok C org (write_events st evs db)"
  by (simp add: keys_db_ok_def db_healthy_def write_events_tables)

lemma hosted_keys_request:
  assumes "hosted_keys_ok C s" and "registry_get org s = Some oc"
    and "org_keys_inv C (oc_org_id oc) (all_bundles C s) (w_keys w)"
    and "db_orgs (ok_db (w_keys w)) = db_orgs (rg_db s)"
  shows "hosted_keys_ok C (in_registry org oc s w)"
proof -
  let ?s = "in_registry org oc s w"
  have db: "rg_db ?s = write_events (oc_store oc) (w_audit w) (ok_db (w_keys w))"
    and orgs: "registry_get slug ?s = (if slug = org then Some (oc\<lparr>oc_keys := ok_cache (w_keys w)\<rparr>) else registry_get slug s)"
    and gen: "ks_gen ?s = ks_gen (w_keys w)" "ks_drawn ?s = ks_drawn (w_keys w)" for slug
    by (simp_all add: in_registry_def put_org_keys_def registry_get_def)
  have "all_bundles C ?s k ik \<Longrightarrow> bundle_of C (oc_org_id oc) (all_bundles C s) (w_keys w) k ik" for k ik
    by (auto simp: all_bundles_def bundle_of_def orgs db split: if_splits)
  with assms(3) have "bundles_ok (ks_gen ?s) (ks_drawn ?s) (all_bundles C ?s)"
    using bundles_ok_mono unfolding org_keys_inv_def gen by blast
  moreover have "keys_db_ok C (oc_org_id x) (rg_db ?s)" if reg: "registry_get slug ?s = Some x" for slug x
  proof -
    obtain y z where "registry_get z s = Some y" "oc_org_id y = oc_org_id x"
    proof (cases "slug = org")
      case True
      with reg [unfolded orgs] have "oc_org_id oc = oc_org_id x" by auto
      with assms(2) show thesis by (rule that)
    next
      case False
      with reg show thesis by (intro that [of slug x]) (simp_all add: orgs)
    qed
    then have "oc_org_id x \<in> og_org_id ` set (db_orgs (rg_db s))"
      using assms(1) unfolding hosted_keys_ok_def keys_db_ok_def by metis
    with assms(3,4) have "keys_db_ok C (oc_org_id x) (ok_db (w_keys w))"
      by (simp add: org_keys_inv_def keys_db_ok_def)
    then show ?thesis unfolding db by (rule keys_db_ok_write)
  qed
  ultimately show ?thesis using assms(1,3) by (simp add: hosted_keys_ok_def org_keys_inv_def gen)
qed

text \<open>The resolver's contract again, with the table of organisations fixed.\<close>

lemma org_ops_orgs:
  assumes "org_keys_inv C org B k"
  shows "db_orgs (ok_db (snd (org_bundle C org i k))) = db_orgs (ok_db k)"
proof -
  obtain ik k' where b: "org_bundle C org i k = (ik, k')" by (cases "org_bundle C org i k")
  from org_bundle_run [OF assms b] keeps_orgs_load [of C org i] show ?thesis
    unfolding keeps_orgs_def by (metis b snd_conv)
qed

definition org_keys_at :: "key_codec \<Rightarrow> string \<Rightarrow> bundles \<Rightarrow> org_row list \<Rightarrow> org_keys \<Rightarrow> bool" where
  "org_keys_at C org B orgs k = (org_keys_inv C org B k \<and> db_orgs (ok_db k) = orgs)"

interpretation org_keys_at: key_resolver "org_signing_key C org" "org_alt_key C org" "org_jwks C org"
  "org_public_key C org" "org_keys_at C org B orgs"
  for C org B orgs
proof unfold_locales
  fix s i j a k ks s'
  assume at: "org_keys_at C org B orgs s"
  then have inv: "org_keys_inv C org B s" by (simp add: org_keys_at_def)
  note same = org_ops_orgs [OF inv, of i]
  show "org_keys_at C org B orgs (snd (org_signing_key C org i a s))"
    "org_keys_at C org B orgs (snd (org_alt_key C org i a s))"
    "org_keys_at C org B orgs (snd (org_jwks C org i s))"
    "org_keys_at C org B orgs (snd (org_public_key C org i s))"
    using at same org_keys.signing_inv [OF inv, of i a] org_keys.alt_inv [OF inv, of i a]
      org_keys.jwks_inv [OF inv, of i] org_keys.public_inv [OF inv, of i]
    by (simp_all add: org_keys_at_def org_signing_key_def org_alt_key_def org_jwks_def org_public_key_def
        split: prod.splits)
  show "k \<in> set (fst (org_jwks C org i s'))" if "org_signing_key C org i a s = (k, s')"
    by (rule org_keys.signing_published [OF inv that])
  show "jwk_material k \<notin> jwk_material ` set (fst (org_jwks C org j s'))"
    if "i \<noteq> j" "org_signing_key C org i a s = (k, s')"
    by (rule org_keys.signing_foreign [OF inv that])
  show "jwk_material k \<notin> jwk_material ` set (fst (org_jwks C org i s'))" if "org_alt_key C org i a s = (k, s')"
    by (rule org_keys.alt_unpublished [OF inv that])
  show "org_jwks C org i s' = (ks, s')" if "org_jwks C org i s = (ks, s')"
    by (rule org_keys.jwks_stable [OF inv that])
  show "distinct (map jwk_kid (fst (org_jwks C org i s)))" by (rule org_keys.kids_distinct [OF inv])
  show "jwk_kty (fst (org_signing_key C org i a s)) = (if a = ''ES256'' then EC else RSA)"
    by (rule org_keys.signing_type [OF inv])
qed

section \<open>Who can verify a hosted token\<close>

lemma hits_simps [simp]:
  "registry_get slug (s\<lparr>hs_hits := h\<rparr>) = registry_get slug s"
  "hosted_keys_ok C (s\<lparr>hs_hits := h\<rparr>) = hosted_keys_ok C s"
  "registry_ok (s\<lparr>hs_hits := h\<rparr>) = registry_ok s"
  "org_keys_of (s\<lparr>hs_hits := h\<rparr>) oc = org_keys_of s oc"
  by (simp_all add: registry_get_def hosted_keys_ok_def registry_ok_def org_keys_of_def all_bundles_def [abs_def])

lemma hosted_token_InrE:
  assumes "hosted_token H org issuer rq s0 = (Inr r, s')"
  obtains oc s where "hosted_resolve H org issuer rq s0 = (Inr (oc, full_issuer org issuer), s)"
    and "registry_get org s0 = Some oc" and "\<exists>h. s = s0\<lparr>hs_hits := h\<rparr>"
    and "dget (form_of (hr_request rq)) ''grant_type'' \<noteq> Some grant_obo"
proof -
  obtain q s where res: "hosted_resolve H org issuer rq s0 = (q, s)" by (cases "hosted_resolve H org issuer rq s0")
  with assms obtain oc full where q: "q = Inr (oc, full)"
    by (cases q) (auto simp: hosted_token_def bindP_apply)
  have g: "dget (form_of (hr_request rq)) ''grant_type'' \<noteq> Some grant_obo"
  proof
    assume "dget (form_of (hr_request rq)) ''grant_type'' = Some grant_obo"
    with assms show False
      by (cases "apply_test_hooks (headers_of (hr_request rq))")
        (auto simp: hosted_token_def bindP_apply res q hosted_hooks_def Let_def)
  qed
  from res [unfolded q] obtain h where "registry_get org s0 = Some oc" "full = full_issuer org issuer"
    "s = s0\<lparr>hs_hits := h\<rparr>" by (rule hosted_resolve_InrE)
  with res q g show ?thesis by (intro that) auto
qed

lemma resolverP_other:
  "registry_get org s = Some oc \<Longrightarrow> p (oc_org_id oc) (org_keys_of s oc) = (r, k) \<Longrightarrow>
   resolverP org p s = (r, put_org_keys org oc k s)"
  by (simp add: resolverP_def registry_get_def)

lemma distinct_org_ids:
  assumes "registry_ok s" and "registry_get a s = Some x" and "registry_get b s = Some y" and "a \<noteq> b"
  shows "oc_org_id x \<noteq> oc_org_id y"
proof
  assume eq: "oc_org_id x = oc_org_id y"
  have inj: "inj_on og_org_id (set (db_orgs (rg_db s)))"
    using assms(1) by (simp add: registry_ok_def orgs_table_ok_def distinct_map)
  have "context_ok (rg_db s) a x" "context_ok (rg_db s) b y"
    using assms(1-3) registry_okD by (simp_all add: registry_get_def)
  with inj_onD [OF inj] eq have "\<lparr>og_org_id = oc_org_id x, og_slug = a, og_tier = oc_tier x, og_api_key_hash = oc_api_key_hash x\<rparr>
      = \<lparr>og_org_id = oc_org_id y, og_slug = b, og_tier = oc_tier y, og_api_key_hash = oc_api_key_hash y\<rparr>"
    unfolding context_ok_def by (metis org_row.select_convs(1))
  then show False using assms(4) by simp
qed

text \<open>The published keys of any organisation's issuer, given the bundle that signed.\<close>

lemma published_or_foreign:
  assumes ok: "hosted_keys_ok (he_codec H) s" and lib: "jwt_lawful L" and c: "claims_ok c"
    and org: "registry_get org s = Some oc" and ik: "dget (oc_keys oc) full = Some ik"
    and org2: "registry_get org2 s = Some oc2"
    and same: "org2 = org \<and> full2 = full \<or> (oc_org_id oc2, full2) \<noteq> (oc_org_id oc, full)"
  shows "\<exists>ks s'. hosted_jwks_keys H org2 full2 s = (Inr ks, s') \<and>
    verify_token L (sign L c (ik_signing_key_for_alg ik alg)) ks = (if org2 = org \<and> full2 = full then Some c else None)"
proof -
  let ?C = "he_codec H"
  note inv = hosted_keys_resolver [OF ok org2]
  obtain jk k where b: "org_bundle ?C (oc_org_id oc2) full2 (org_keys_of s oc2) = (jk, k)"
    by (cases "org_bundle ?C (oc_org_id oc2) full2 (org_keys_of s oc2)")
  note r = org_bundle_ok_run [OF inv b]
  have "async_jwks_keys ?C (oc_org_id oc2) full2 (org_keys_of s oc2) = (Inr (ik_jwks_keys jk), k)"
    using async_ops_eq(3) [OF inv] by (simp add: org_jwks_def b)
  from resolverP_other [where p = "\<lambda>o'. async_jwks_keys ?C o' full2", OF org2 this]
  have run: "hosted_jwks_keys H org2 full2 s = (Inr (ik_jwks_keys jk), put_org_keys org2 oc2 k s)"
    by (simp add: hosted_jwks_keys_def pyP_def lift_py_def)
  have all: "all_bundles ?C s (oc_org_id oc, full) ik" using org ik by (auto simp: all_bundles_def)
  show ?thesis
  proof (cases "org2 = org \<and> full2 = full")
    case True
    with org org2 have "oc2 = oc" by simp
    with True ik b have "jk = ik"
      by (simp add: org_bundle_def load_or_create_def bindP_apply org_keys_of_def)
    moreover have "distinct (map jwk_kid (ik_jwks_keys jk))" by (rule org_bundle_kids_distinct [OF r(2)])
    moreover have "ik_signing_key_for_alg ik alg \<in> set (ik_jwks_keys ik)"
      by (simp add: ik_signing_key_for_alg_def ik_jwks_keys_def)
    ultimately show ?thesis using run True verify_signed [OF lib c] by simp
  next
    case False
    have "bundle_of ?C (oc_org_id oc2) (all_bundles ?C s) k (oc_org_id oc, full) ik"
      using all by (simp add: bundle_of_def)
    from same False have "(oc_org_id oc, full) \<noteq> (oc_org_id oc2, full2)" by auto
    from other_bundle_jwks [OF r(1) \<open>bundle_of _ _ _ _ _ ik\<close> r(3) this, of alg]
    have "jwk_material (ik_signing_key_for_alg ik alg) \<notin> jwk_material ` set (ik_jwks_keys jk)" .
    from verify_foreign [OF lib this] run False show ?thesis by (metis (no_types))
  qed
qed

text \<open>
  A token request that returned signed with a bundle that is now in the organisation's cache, and
  left the registry's other organisations alone.
\<close>

lemma hosted_token_signed:
  assumes "hosted_token H org issuer rq s0 = (Inr r, s')"
    and "registry_ok s0" and "hosted_keys_ok (he_codec H) s0" and "jwt_lawful (e_lib (he_env H))"
    and "registry_get org s0 = Some oc" and "identities_ok (context_for H log_event oc issuer)"
  obtains claims alg ik oc' where
    "field_of r ''access_token'' = Some (JStr (sign (e_lib (he_env H)) claims (ik_signing_key_for_alg ik alg)))"
    and "claims_ok claims" and "hosted_keys_ok (he_codec H) s'"
    and "registry_get org s' = Some oc'" and "oc_org_id oc' = oc_org_id oc"
    and "dget (oc_keys oc') (full_issuer org issuer) = Some ik"
    and "\<And>org2. org2 \<noteq> org \<Longrightarrow> registry_get org2 s' = registry_get org2 s0"
  using assms(1)
proof (rule hosted_token_InrE)
  fix x s
  assume res: "hosted_resolve H org issuer rq s0 = (Inr (x, full_issuer org issuer), s)"
    and "registry_get org s0 = Some x" and s: "\<exists>h. s = s0\<lparr>hs_hits := h\<rparr>"
    and g: "dget (form_of (hr_request rq)) ''grant_type'' \<noteq> Some grant_obo"
  then have x: "x = oc" using assms(5) by simp
  let ?C = "he_codec H" and ?full = "full_issuer org issuer" and ?L = "e_lib (he_env H)"
  have ok: "hosted_keys_ok ?C s" "registry_get org s = Some oc" using assms(3,5) s by auto
  note inv = hosted_keys_resolver [OF ok(1,2)]
  let ?ctx = "context_for H log_event oc issuer" and ?w = "org_world_of s oc"
  obtain r' w' where h: "handle_token (he_env H) ?full (hr_request rq) ?ctx ?w = (r', w')"
    by (cases "handle_token (he_env H) ?full (hr_request rq) ?ctx ?w")
  from hosted_token_simulated [OF res [unfolded x] inv g] assms(1) h
  have h: "handle_token (he_env H) ?full (hr_request rq) ?ctx ?w = (Inr r, w')" and s': "s' = in_registry org oc s w'"
    by auto
  have at: "org_keys_at ?C (oc_org_id oc) (all_bundles ?C s) (db_orgs (rg_db s)) (w_keys ?w)"
    using inv by (simp add: org_keys_at_def org_world_of_def org_keys_of_def)
  from h show ?thesis
  proof (rule org_keys_at.handled_token [where org = "oc_org_id oc", OF _ assms(4) at assms(6)])
    fix g claims alg key k
    assume tok: "field_of r ''access_token'' = Some (JStr (sign ?L claims key))" and c: "claims_ok claims"
      and k: "org_keys_at ?C (oc_org_id oc) (all_bundles ?C s) (db_orgs (rg_db s)) k"
      and key: "org_signing_key ?C (oc_org_id oc) ?full alg k = (key, w_keys w')"
    have "org_keys_at ?C (oc_org_id oc) (all_bundles ?C s) (db_orgs (rg_db s)) (w_keys w')"
      using org_keys_at.signing_inv [OF k, of ?full alg] key by simp
    then have ok': "hosted_keys_ok ?C s'" unfolding s'
      by (intro hosted_keys_request [OF ok(1,2)]) (simp_all add: org_keys_at_def)
    obtain ik where b: "org_bundle ?C (oc_org_id oc) ?full k = (ik, w_keys w')"
      and ik: "key = ik_signing_key_for_alg ik alg" using key by (auto simp: org_signing_key_def split: prod.splits)
    have "org_keys_inv ?C (oc_org_id oc) (all_bundles ?C s) k" using k by (simp add: org_keys_at_def)
    from load_or_create_InrE [OF org_bundle_run [OF this b] this]
    have "dget (ok_cache (w_keys w')) ?full = Some ik" by auto
    moreover have "registry_get org s' = Some (oc\<lparr>oc_keys := ok_cache (w_keys w')\<rparr>)" by (simp add: s' registry_get_def)
    moreover have "registry_get org2 s' = registry_get org2 s0" if "org2 \<noteq> org" for org2
      using that s by (auto simp: s' in_registry_def put_org_keys_def registry_get_def)
    ultimately show ?thesis
      using tok c ok' ik by (intro that [where oc' = "oc\<lparr>oc_keys := ok_cache (w_keys w')\<rparr>"]) auto
  qed (simp_all add: org_world_of_def corrupting_def get_fault_def)
qed

text \<open>
  C24: a token the hosted endpoint issues verifies against the keys its organisation publishes for its
  issuer, with the claims that were recorded, and against those of no other issuer of the
  organisation and of no issuer of any other registered organisation.
\<close>

theorem hosted_token_scope:
  assumes "hosted_token H org issuer rq s0 = (Inr r, s')"
    and "registry_ok s0" and "hosted_keys_ok (he_codec H) s0" and "jwt_lawful (e_lib (he_env H))"
    and "registry_get org s0 = Some oc" and "identities_ok (context_for H log_event oc issuer)"
  shows "\<exists>tok claims. field_of r ''access_token'' = Some (JStr tok) \<and>
    (\<forall>org2 oc2 j. registry_get org2 s' = Some oc2 \<longrightarrow>
       (\<exists>ks t. hosted_jwks_keys H org2 (full_issuer org2 j) s' = (Inr ks, t) \<and>
          verify_token (e_lib (he_env H)) tok ks = (if org2 = org \<and> j = issuer then Some claims else None)))"
proof (rule hosted_token_signed [OF assms])
  let ?full = "full_issuer org issuer" and ?L = "e_lib (he_env H)"
  fix claims alg ik oc'
  assume tok: "field_of r ''access_token'' = Some (JStr (sign ?L claims (ik_signing_key_for_alg ik alg)))"
    and c: "claims_ok claims" and ok: "hosted_keys_ok (he_codec H) s'"
    and org: "registry_get org s' = Some oc'" "oc_org_id oc' = oc_org_id oc"
    and ik: "dget (oc_keys oc') ?full = Some ik"
    and rest: "\<And>org2. org2 \<noteq> org \<Longrightarrow> registry_get org2 s' = registry_get org2 s0"
  have "\<exists>ks t. hosted_jwks_keys H org2 (full_issuer org2 j) s' = (Inr ks, t) \<and>
      verify_token ?L (sign ?L claims (ik_signing_key_for_alg ik alg)) ks =
        (if org2 = org \<and> j = issuer then Some claims else None)"
    if org2: "registry_get org2 s' = Some oc2" for org2 oc2 j
  proof -
    have "oc_org_id oc2 \<noteq> oc_org_id oc'" if "org2 \<noteq> org"
      using distinct_org_ids [OF assms(2) _ assms(5) that] org2 rest [OF that] org(2) by simp
    then have "org2 = org \<and> full_issuer org2 j = ?full \<or> (oc_org_id oc2, full_issuer org2 j) \<noteq> (oc_org_id oc', ?full)"
      by auto
    from published_or_foreign [OF ok assms(4) c org(1) ik org2 this, of alg]
    show ?thesis by (auto simp: full_issuer_def)
  qed
  with tok show ?thesis by blast
qed

end
