(* ===== verification/HostedDemo.thy ===== *)
theory HostedDemo
  imports HostedKeys
begin

text \<open>
  A registry with two organisations, one of them serving the identities of the theory Demo, and the
  closed instances of the hosted theorems.
\<close>

definition demo_org :: "string \<Rightarrow> org_context" where
  "demo_org slug = \<lparr>oc_org_id = slug, oc_slug = slug, oc_tier = ''pro'', oc_api_key_hash = Some (key_hash ''k''),
     oc_store = \<lparr>pg_data = demo_data, pg_org_id = slug, pg_pool = True\<rparr>, oc_keys = []\<rparr>"

definition demo_org_row :: "string \<Rightarrow> org_row" where
  "demo_org_row slug = \<lparr>og_org_id = slug, og_slug = slug, og_tier = ''pro'',
     og_api_key_hash = Some (key_hash ''k'')\<rparr>"

definition demo_hosted :: hosted where
  "demo_hosted = \<lparr>ks_gen = (\<lambda>n. n), ks_drawn = 0,
     rg_orgs = [(''acme'', demo_org ''acme''), (''two'', demo_org ''two'')], rg_pool = True,
     rg_db = (orgs_db [])\<lparr>db_orgs := [demo_org_row ''acme'', demo_org_row ''two'']\<rparr>,
     hs_hits = [], hs_posts = []\<rparr>"

definition demo_hosted_env :: hosted_env where
  "demo_hosted_env = \<lparr>he_env = demo_env, he_now = 0, he_codec = demo_codec\<rparr>"

definition demo_hosted_request :: hosted_request where
  "demo_hosted_request = \<lparr>hr_request = demo_request\<lparr>rq_headers := [(''authorization'', ''Bearer k'')]\<rparr>,
     hr_client = None\<rparr>"

lemma demo_hosted_simps [simp]:
  "registry_get ''acme'' demo_hosted = Some (demo_org ''acme'')"
  "registry_get ''two'' demo_hosted = Some (demo_org ''two'')"
  "registry_get ''none'' demo_hosted = None"
  "he_env demo_hosted_env = demo_env" "he_codec demo_hosted_env = demo_codec"
  "oc_tier (demo_org slug) = ''pro''" "oc_org_id (demo_org slug) = slug"
  "oc_api_key_hash (demo_org slug) = Some (key_hash ''k'')" "oc_keys (demo_org slug) = []"
  "pg_data (oc_store (demo_org slug)) = demo_data"
  by (simp_all add: registry_get_def demo_hosted_def demo_hosted_env_def demo_org_def)

lemma demo_hosted_form [simp]: "form_of (hr_request demo_hosted_request) = form_of demo_request"
  by (simp add: demo_hosted_request_def form_of_def demo_request_def)

lemma lower_authorization: "py_lower ''authorization'' = ''authorization''"
  by code_simp

lemma demo_hosted_headers [simp]:
  "headers_of (hr_request demo_hosted_request) = [(''authorization'', ''Bearer k'')]"
  "authorization_of demo_hosted_request = Some ''Bearer k''"
  by (simp_all add: demo_hosted_request_def headers_of_def dict_of_def authorization_of_def header_first_def
      demo_request_def lower_authorization)

lemma demo_hosted_ok: "registry_ok demo_hosted"
proof -
  have "store_ok demo_data" using demo_store_ok by (simp add: demo_cfg_def config_init_def)
  then show ?thesis
    by (simp add: registry_ok_def demo_hosted_def orgs_table_ok_def demo_org_row_def context_ok_def demo_org_def)
qed

lemma demo_hosted_keys: "hosted_keys_ok demo_codec demo_hosted"
proof -
  have g: "registry_get slug demo_hosted = Some oc \<Longrightarrow> oc = demo_org slug \<and> slug \<in> {''acme'', ''two''}" for slug oc
    by (simp add: registry_get_def demo_hosted_def split: if_splits)
  have jwks: "db_org_jwks (rg_db demo_hosted) = []" by (simp add: demo_hosted_def orgs_db_def)
  have none: "\<not> all_bundles demo_codec demo_hosted k ik" for k ik
  proof
    assume "all_bundles demo_codec demo_hosted k ik"
    then obtain slug oc where "registry_get slug demo_hosted = Some oc" "dget (oc_keys oc) (snd k) = Some ik"
      unfolding all_bundles_def stored_bundle_def jwks by auto
    with g [of slug oc] show False by simp
  qed
  have db: "keys_db_ok demo_codec slug (rg_db demo_hosted)" if "slug \<in> {''acme'', ''two''}" for slug
  proof -
    have "slug \<in> og_org_id ` set (db_orgs (rg_db demo_hosted))"
      using that by (simp add: demo_hosted_def demo_org_row_def)
    then show ?thesis
      unfolding keys_db_ok_def jwks by (simp add: demo_hosted_def orgs_db_def db_healthy_def jsonb_lawful_id)
  qed
  have "keys_db_ok demo_codec (oc_org_id oc) (rg_db demo_hosted)" if "registry_get slug demo_hosted = Some oc" for slug oc
    using g [OF that] db by auto
  moreover have "inj (ks_gen demo_hosted)" by (simp add: demo_hosted_def)
  ultimately show ?thesis
    unfolding hosted_keys_ok_def bundles_ok_def using none demo_codec_lawful by blast
qed

lemma demo_hosted_resolve:
  "hosted_resolve demo_hosted_env ''acme'' ''web'' demo_hosted_request demo_hosted =
     (Inr (demo_org ''acme'', full_issuer ''acme'' ''web''), demo_hosted)"
  by (simp add: hosted_resolve_def get_org_def bindP_apply verify_api_key_def)

lemma demo_data_lookup: "dget (st_service_principals demo_data) ''svc'' = Some demo_sp"
  by (simp add: demo_data_def)

lemma demo_hosted_serves:
  "serves_principal demo_env (context_for demo_hosted_env log_event (demo_org ''acme'') ''web'') (full_issuer ''acme'' ''web'')
     (hr_request demo_hosted_request) (org_world_of demo_hosted (demo_org ''acme'')) ''svc'' demo_sp EntraId"
proof -
  let ?ctx = "context_for demo_hosted_env log_event (demo_org ''acme'') ''web''"
  have "apply_test_hooks (headers_of (hr_request demo_hosted_request)) = Inr 0"
    by (simp add: apply_test_hooks_def test_delay_def)
  moreover have "sp_presents ?ctx (form_of (hr_request demo_hosted_request)) ''svc'' demo_sp"
    by (simp add: sp_presents_def demo_data_lookup)
  moreover have "audience_passed demo_env ?ctx (full_issuer ''acme'' ''web'') ''svc'' (SpId demo_sp)
      (resolve_aud (form_of (hr_request demo_hosted_request)))"
    unfolding demo_hosted_form demo_aud by (simp add: audience_passed_def audience_allowed_def)
  ultimately show ?thesis unfolding serves_principal_def by (simp add: org_world_of_def)
qed

lemma demo_hosted_run:
  "\<exists>r s'. hosted_token demo_hosted_env ''acme'' ''web'' demo_hosted_request demo_hosted = (Inr r, s')"
proof -
  have "org_keys_inv (he_codec demo_hosted_env) (oc_org_id (demo_org ''acme'')) (all_bundles demo_codec demo_hosted)
      (org_keys_of demo_hosted (demo_org ''acme''))"
    using hosted_keys_resolver [OF demo_hosted_keys, of "''acme''"] by simp
  moreover have "dget (form_of (hr_request demo_hosted_request)) ''grant_type'' \<noteq> Some grant_obo" by simp
  ultimately show ?thesis
    using hosted_token_simulated [OF demo_hosted_resolve] credentials_run [OF demo_hosted_serves] by fastforce
qed

lemma demo_hosted_identities: "identities_ok (context_for demo_hosted_env log_event (demo_org slug) issuer)"
  by (simp add: identities_ok_def demo_defs)

section \<open>The instances\<close>

theorem hosted_token_refines_witness:
  "hosted_token demo_hosted_env ''acme'' ''web'' demo_hosted_request demo_hosted =
    (case handle_token demo_env ''acme/web'' (hr_request demo_hosted_request)
       (context_for demo_hosted_env log_event (demo_org ''acme'') ''web'') (org_world_of demo_hosted (demo_org ''acme'')) of
       (r, w) \<Rightarrow> (r, in_registry ''acme'' (demo_org ''acme'') demo_hosted w))"
proof -
  have "org_keys_inv (he_codec demo_hosted_env) (oc_org_id (demo_org ''acme'')) (all_bundles demo_codec demo_hosted)
      (org_keys_of demo_hosted (demo_org ''acme''))"
    using hosted_keys_resolver [OF demo_hosted_keys, of "''acme''"] by simp
  from hosted_token_refines [OF demo_hosted_resolve this] show ?thesis by (simp add: full_issuer_def)
qed

theorem hosted_token_scope_witness:
  "\<exists>r s' tok claims. hosted_token demo_hosted_env ''acme'' ''web'' demo_hosted_request demo_hosted = (Inr r, s') \<and>
    field_of r ''access_token'' = Some (JStr tok) \<and>
    (\<forall>org2 oc2 j. registry_get org2 s' = Some oc2 \<longrightarrow>
       (\<exists>ks t. hosted_jwks_keys demo_hosted_env org2 (full_issuer org2 j) s' = (Inr ks, t) \<and>
          verify_token reference_jwt tok ks = (if org2 = ''acme'' \<and> j = ''web'' then Some claims else None)))"
proof -
  obtain r s' where run: "hosted_token demo_hosted_env ''acme'' ''web'' demo_hosted_request demo_hosted = (Inr r, s')"
    using demo_hosted_run by blast
  have "hosted_keys_ok (he_codec demo_hosted_env) demo_hosted" "jwt_lawful (e_lib (he_env demo_hosted_env))"
    by (simp_all add: demo_hosted_keys reference_jwt_lawful)
  from hosted_token_scope [OF run demo_hosted_ok this demo_hosted_simps(1) demo_hosted_identities] run
  show ?thesis by simp
qed

definition keyless_request :: hosted_request where
  "keyless_request = \<lparr>hr_request = demo_request, hr_client = None\<rparr>"

lemma keyless_authorization [simp]: "authorization_of keyless_request = None"
  by (simp add: authorization_of_def header_first_def keyless_request_def demo_request_def)


theorem hosted_userinfo_locked_witness:
  "hosted_userinfo demo_hosted_env ''acme'' ''web'' demo_hosted_request demo_hosted =
     (Inl (http 401 (error_detail ''invalid_api_key'')), demo_hosted)"
  by (rule hosted_userinfo_locked [OF demo_hosted_simps(1)]) simp

definition eleven_requests :: "rate_request list" where
  "eleven_requests = map (\<lambda>n. (Some ''10.0.0.1'', of_nat n)) [0..<11]"

lemma eleven_sorted: "sorted (map snd eleven_requests)"
  unfolding eleven_requests_def by (simp add: upt_rec)

theorem sandbox_rate_refines_witness:
  "fst (rate_run eleven_requests []) = replicate 10 True @ [False]"
  unfolding sandbox_rate_refines [OF eleven_sorted]
  by (simp add: eleven_requests_def upt_rec recent_def source_ip_def Let_def eval_nat_numeral)

theorem sandbox_rate_bound_witness:
  "length (window (admitted_by eleven_requests (fst (rate_run eleven_requests []))) ''10.0.0.1'' 10) \<le> 10"
  by (rule sandbox_rate_bound [OF eleven_sorted])

end
