(* ===== verification/Admin.thy ===== *)
theory Admin
  imports Hosted
begin

text \<open>
  \<open>routers/admin.py\<close>, \<open>main.py\<close> and the state of the whole process they act on: the module
  configuration, the global keys, the injected faults, the active store, and the hosted registry.
  The dictionaries of the configuration are the active store's own; both backends share the one
  database of the registry. A body or query parameter FastAPI rejects is the library's error, raised
  before the handler runs.
\<close>

section \<open>The process\<close>

datatype active_store =
    YamlActive string               \<comment> \<open>the path\<close>
  | PostgresActive string bool      \<comment> \<open>the organisation id, whether the pool exists\<close>

record app = hosted +
  ap_cfg :: config
  ap_keys :: key_store
  ap_faults :: chaos
  ap_backend :: active_store

type_synonym 'r app_prog = "(exn, app, 'r) prog"

record app_env =
  ae_libs :: yaml_libs
  ae_os :: os_env

definition hosted_mode :: "os_env \<Rightarrow> bool" where
  "hosted_mode os = (py_lower (getenv os ''MOCK_IDP_HOSTED'' []) \<in> {''1'', ''true'', ''yes''})"

text \<open>\<open>_cfg.reload_config()\<close> on the active store.\<close>

definition active_pg :: "app \<Rightarrow> string \<Rightarrow> bool \<Rightarrow> pg_store" where
  "active_pg s org pool = \<lparr>pg_data = cf_data (ap_cfg s), pg_org_id = org, pg_pool = pool\<rparr>"

definition app_reload :: "app_env \<Rightarrow> (py_exn, app, unit) prog" where
  "app_reload A s =
     (case ap_backend s of
        YamlActive path \<Rightarrow>
          (case reload_config (ae_os A) (yaml_reload path (ae_libs A, ae_os A)) (ap_cfg s) of
             (r, cf) \<Rightarrow> (r, s\<lparr>ap_cfg := cf\<rparr>))
      | PostgresActive org pool \<Rightarrow>
          (case pg_reload (active_pg s org pool) (rg_db s) of (r, st, db) \<Rightarrow>
             (case reload_config (ae_os A) (\<lambda>d. (r, pg_data st)) (ap_cfg s) of
                (r', cf) \<Rightarrow> (r', s\<lparr>ap_cfg := cf, rg_db := db\<rparr>))))"

definition app_query_audit :: "nat \<Rightarrow> int \<Rightarrow> (py_exn, app, json list \<times> int option) prog" where
  "app_query_audit limit cursor s =
     (case ap_backend s of
        YamlActive path \<Rightarrow> (Inr ([], None), s)
      | PostgresActive org pool \<Rightarrow>
          (case pg_query_audit (active_pg s org pool) limit cursor (rg_db s) of (r, db) \<Rightarrow>
             (r, s\<lparr>rg_db := db\<rparr>)))"

definition appP :: "(py_exn, app, 'r) prog \<Rightarrow> 'r app_prog" where
  "appP p = (\<lambda>s. case p s of (r, s') \<Rightarrow> (lift_py r, s'))"

text \<open>FastAPI's own validation of parameters and bodies.\<close>

abbreviation request_validation_error :: exn where
  "request_validation_error \<equiv> PyError (LibraryError ''RequestValidationError'')"

definition validated :: "bool \<Rightarrow> unit app_prog" where
  "validated ok = (if ok then retP () else throwP request_validation_error)"

section \<open>The gate\<close>

definition admin_gate :: "string option \<Rightarrow> unit app_prog" where
  "admin_gate tok = (\<lambda>s.
     if tok \<noteq> Some (cf_admin_token (ap_cfg s)) then (Inl (http 403 (JStr ''invalid admin token'')), s)
     else (Inr (), s))"

definition require_hosted :: "app_env \<Rightarrow> unit app_prog" where
  "require_hosted A =
     (if \<not> hosted_mode (ae_os A) then throwP (http 404 (error_detail ''hosted mode not enabled'')) else retP ())"

definition error_with :: "string \<Rightarrow> (string \<times> json) list \<Rightarrow> json" where
  "error_with e rest = JObj ((''error'', JStr e) # rest)"

section \<open>Keys, configuration, audit\<close>

definition admin_rotate :: "string option \<Rightarrow> string option \<Rightarrow> json app_prog" where
  "admin_rotate issuer tok =
     bindP (admin_gate tok) (\<lambda>_.
     (\<lambda>s. case rotate_keys issuer (ap_keys s) of (result, ks) \<Rightarrow>
        (Inr (case result of
                Inr kids \<Rightarrow> JObj [(''status'', JStr ''rotated''), (''issuers'', JObj (map (\<lambda>(n, k). (n, JStr k)) kids))]
              | Inl key \<Rightarrow> JObj [(''status'', JStr ''rotated''), (''new_signing_kid'', JStr (jwk_kid key))]),
         s\<lparr>ap_keys := ks\<rparr>)))"

definition count_json :: "'a list \<Rightarrow> json" where
  "count_json xs = JInt (int (length xs))"

definition admin_reload :: "app_env \<Rightarrow> string option \<Rightarrow> json app_prog" where
  "admin_reload A tok =
     bindP (admin_gate tok) (\<lambda>_.
     bindP (appP (app_reload A)) (\<lambda>_.
     getsP (\<lambda>s. let d = cf_data (ap_cfg s) in
       JObj [(''status'', JStr ''reloaded''), (''users'', count_json (st_users d)),
             (''service_principals'', count_json (st_service_principals d)),
             (''client_apps'', count_json (st_client_apps d))])))"

definition admin_audit :: "string option \<Rightarrow> int \<Rightarrow> int \<Rightarrow> json app_prog" where
  "admin_audit tok limit cursor =
     bindP (validated (1 \<le> limit \<and> limit \<le> 200 \<and> 0 \<le> cursor)) (\<lambda>_.
     bindP (admin_gate tok) (\<lambda>_.
     bindP (appP (app_query_audit (nat limit) cursor)) (\<lambda>(events, next).
     retP (JObj [(''events'', JList events),
                 (''next_cursor'', case next of None \<Rightarrow> JNull | Some n \<Rightarrow> JInt n)]))))"

section \<open>Fault injection\<close>

text \<open>
  The body of a set request: the mode and the optional numbers with their defaults. The responses
  carry the fault records themselves, a probability being no integer. The dash in the note of a new
  organisation is a hyphen here.
\<close>

record chaos_body =
  cb_mode :: string
  cb_probability :: "rat option"
  cb_value :: "int option"
  cb_skew_seconds :: "int option"

definition chaos_fault :: "chaos_body \<Rightarrow> fault" where
  "chaos_fault b =
     \<lparr>f_mode = cb_mode b,
      f_probability = Some (case cb_probability b of None \<Rightarrow> 1 | Some p \<Rightarrow> p),
      f_value = Some (case cb_value b of None \<Rightarrow> 2000 | Some v \<Rightarrow> v),
      f_skew_seconds = Some (case cb_skew_seconds b of None \<Rightarrow> -3600 | Some n \<Rightarrow> n)\<rparr>"

definition admin_list_chaos :: "string option \<Rightarrow> chaos app_prog" where
  "admin_list_chaos tok = bindP (admin_gate tok) (\<lambda>_. getsP (\<lambda>s. get_faults (ap_faults s)))"

definition admin_set_chaos :: "string \<Rightarrow> chaos_body \<Rightarrow> string option \<Rightarrow> (string \<times> fault) app_prog" where
  "admin_set_chaos issuer body tok =
     bindP (validated (cb_mode body \<in> valid_fault_modes)) (\<lambda>_.
     bindP (admin_gate tok) (\<lambda>_.
     (\<lambda>s. (Inr (issuer, chaos_fault body), s\<lparr>ap_faults := set_fault issuer (chaos_fault body) (ap_faults s)\<rparr>))))"

definition admin_clear_chaos :: "string \<Rightarrow> string option \<Rightarrow> json app_prog" where
  "admin_clear_chaos issuer tok =
     bindP (admin_gate tok) (\<lambda>_.
     bindP (\<lambda>s. case clear_fault issuer (ap_faults s) of (cleared, f) \<Rightarrow> (Inr cleared, s\<lparr>ap_faults := f\<rparr>)) (\<lambda>cleared.
     if \<not> cleared then throwP (http 404 (error_with ''no_fault_set'' [(''issuer'', JStr issuer)]))
     else retP (JObj [(''status'', JStr ''cleared''), (''issuer'', JStr issuer)])))"

section \<open>Organisations\<close>

definition admin_create_org ::
  "app_env \<Rightarrow> string \<Rightarrow> string \<Rightarrow> string option \<Rightarrow> string \<Rightarrow> string \<Rightarrow> json app_prog" where
  "admin_create_org A plaintext admin tok slug tier =
     bindP (admin_gate tok) (\<lambda>_.
     bindP (require_hosted A) (\<lambda>_.
     bindP (getsP (registry_get slug)) (\<lambda>existing.
     if existing \<noteq> None then throwP (http 409 (error_with ''org_exists'' [(''slug'', JStr slug)]))
     else if tier \<notin> {''pro'', ''enterprise''}
     then throwP (http 400 (error_with ''invalid_tier'' [(''allowed'', jstrs [''pro'', ''enterprise''])]))
     else
       bindP (appP (registry_register (ae_os A) plaintext admin slug tier)) (\<lambda>(ctx, api_key).
       getsP (\<lambda>s. let base = cf_iss_base (ap_cfg s) @ ''/'' @ slug @ ''/{issuer}/'' in
         JObj [(''slug'', JStr slug), (''tier'', JStr tier), (''api_key'', JStr api_key),
               (''token_endpoint'', JStr (base @ ''token'')), (''jwks_uri'', JStr (base @ ''jwks'')),
               (''note'', JStr ''Store the api_key now - it will not be shown again.'')])))))"

definition admin_list_orgs :: "app_env \<Rightarrow> string option \<Rightarrow> json app_prog" where
  "admin_list_orgs A tok =
     bindP (admin_gate tok) (\<lambda>_.
     bindP (require_hosted A) (\<lambda>_.
     getsP (\<lambda>s. JObj [(''orgs'', JList (map (\<lambda>(k, ctx).
        JObj [(''slug'', JStr (oc_slug ctx)), (''tier'', JStr (oc_tier ctx)), (''org_id'', JStr (oc_org_id ctx))])
        (rg_orgs s)))])))"

definition admin_delete_org :: "app_env \<Rightarrow> string \<Rightarrow> string option \<Rightarrow> json app_prog" where
  "admin_delete_org A slug tok =
     bindP (admin_gate tok) (\<lambda>_.
     bindP (require_hosted A) (\<lambda>_.
     if slug = ''sandbox'' then throwP (http 400 (error_detail ''cannot_delete_sandbox''))
     else
       bindP (appP (registry_deregister slug)) (\<lambda>deleted.
       if \<not> deleted then throwP (http 404 (error_with ''org_not_found'' [(''slug'', JStr slug)]))
       else retP (JObj [(''status'', JStr ''deleted''), (''slug'', JStr slug)]))))"

text \<open>\<open>str(exc)\<close> of the exceptions the model has.\<close>

definition exn_text :: "py_exn \<Rightarrow> string" where
  "exn_text e =
     (case e of KeyError k \<Rightarrow> py_repr_str k | ValueError m \<Rightarrow> m | ImportError m \<Rightarrow> m | RuntimeError m \<Rightarrow> m
      | LibraryError m \<Rightarrow> m | _ \<Rightarrow> [])"

definition admin_push_config :: "app_env \<Rightarrow> string \<Rightarrow> string \<Rightarrow> string option \<Rightarrow> json app_prog" where
  "admin_push_config A slug config_yaml tok =
     bindP (admin_gate tok) (\<lambda>_.
     bindP (require_hosted A) (\<lambda>_.
     bindP (getsP (registry_get slug)) (\<lambda>found.
     case found of
       None \<Rightarrow> throwP (http 404 (error_with ''org_not_found'' [(''slug'', JStr slug)]))
     | Some ctx \<Rightarrow>
         if slug = ''sandbox'' then throwP (http 400 (error_detail ''sandbox_config_is_readonly''))
         else (\<lambda>s.
           case registry_push_config slug config_yaml s of
             (Inl e, s') \<Rightarrow>
               (Inl (http 422 (error_with ''invalid_config'' [(''detail'', JStr (exn_text e))])), s')
           | (Inr _, s') \<Rightarrow>
               (Inr (JObj [(''status'', JStr ''reloaded''), (''slug'', JStr slug),
                           (''users'', count_json (st_users (pg_data (oc_store ctx)))),
                           (''service_principals'',
                              count_json (st_service_principals (pg_data (oc_store ctx))))]), s')))))"

section \<open>Start and shutdown\<close>

text \<open>
  \<open>lifespan\<close> up to its \<open>yield\<close>: the store, the watcher (its existence is the result), the registry.
  The module's scalars are not read again. Each \<open>connects\<close> says whether a pool could be made.
\<close>

definition store_startup :: "bool \<Rightarrow> (py_exn, app, unit) prog" where
  "store_startup connects s =
     (case ap_backend s of
        YamlActive path \<Rightarrow> (Inr (), s)
      | PostgresActive org pool \<Rightarrow>
          (case pg_startup connects (active_pg s org pool) (rg_db s) of (r, st, db) \<Rightarrow>
             (r, s\<lparr>ap_cfg := (ap_cfg s)\<lparr>cf_data := pg_data st\<rparr>, rg_db := db,
                   ap_backend := PostgresActive org (pg_pool st)\<rparr>)))"

definition app_startup :: "app_env \<Rightarrow> bool \<Rightarrow> bool \<Rightarrow> bool \<Rightarrow> (py_exn, app, bool) prog" where
  "app_startup A config_exists connects connects2 =
     bindP (store_startup connects) (\<lambda>_.
     bindP (if hosted_mode (ae_os A) then
              (if getenv (ae_os A) ''MOCK_IDP_PG_DSN'' [] = []
               then throwP (RuntimeError ''MOCK_IDP_HOSTED=true requires MOCK_IDP_PG_DSN to be set'')
               else registry_startup (ae_os A) connects2)
            else retP ()) (\<lambda>_.
     retP config_exists))"

definition app_shutdown :: "app_env \<Rightarrow> app \<Rightarrow> app" where
  "app_shutdown A s =
     (let s1 = (if hosted_mode (ae_os A) then registry_shutdown s else s) in
      case ap_backend s1 of
        YamlActive path \<Rightarrow> s1
      | PostgresActive org pool \<Rightarrow>
          s1\<lparr>ap_backend := PostgresActive org (pg_pool (pg_shutdown (active_pg s1 org pool)))\<rparr>)"

end
