(* ===== verification/AdminProperties.thy ===== *)
theory AdminProperties
  imports Admin PgReload HostedDemo
begin

text \<open>
  The admin API: nothing without the token, faults set and cleared, what a reload brings into force
  and what a start with Postgres does not, and the life of an organisation through the API.
\<close>

section \<open>The token\<close>

datatype admin_request =
    RotateRequest "string option"
  | ReloadRequest
  | AuditRequest int int
  | ListChaosRequest
  | SetChaosRequest string chaos_body
  | ClearChaosRequest string
  | CreateOrgRequest string string string string   \<comment> \<open>the two random tokens, slug, tier\<close>
  | ListOrgsRequest
  | DeleteOrgRequest string
  | PushConfigRequest string string

datatype admin_response = AdminJson json | AdminFaults chaos | AdminFault string fault

definition mapP :: "('a \<Rightarrow> 'b) \<Rightarrow> ('e, 's, 'a) prog \<Rightarrow> ('e, 's, 'b) prog" where
  "mapP f p = bindP p (\<lambda>x. retP (f x))"

definition admin_route :: "app_env \<Rightarrow> admin_request \<Rightarrow> string option \<Rightarrow> admin_response app_prog" where
  "admin_route A req tok =
     (case req of
        RotateRequest issuer \<Rightarrow> mapP AdminJson (admin_rotate issuer tok)
      | ReloadRequest \<Rightarrow> mapP AdminJson (admin_reload A tok)
      | AuditRequest limit cursor \<Rightarrow> mapP AdminJson (admin_audit tok limit cursor)
      | ListChaosRequest \<Rightarrow> mapP AdminFaults (admin_list_chaos tok)
      | SetChaosRequest issuer body \<Rightarrow> mapP (\<lambda>(i, f). AdminFault i f) (admin_set_chaos issuer body tok)
      | ClearChaosRequest issuer \<Rightarrow> mapP AdminJson (admin_clear_chaos issuer tok)
      | CreateOrgRequest key admin slug tier \<Rightarrow> mapP AdminJson (admin_create_org A key admin tok slug tier)
      | ListOrgsRequest \<Rightarrow> mapP AdminJson (admin_list_orgs A tok)
      | DeleteOrgRequest slug \<Rightarrow> mapP AdminJson (admin_delete_org A slug tok)
      | PushConfigRequest slug yaml \<Rightarrow> mapP AdminJson (admin_push_config A slug yaml tok))"

lemmas admin_defs = admin_rotate_def admin_reload_def admin_audit_def admin_list_chaos_def admin_set_chaos_def
  admin_clear_chaos_def admin_create_org_def admin_list_orgs_def admin_delete_org_def admin_push_config_def

text \<open>
  C31: whatever is asked of the admin API, without the token in force it is refused, with 403 unless
  the request itself is malformed, and changes nothing.
\<close>

theorem admin_needs_token:
  assumes "tok \<noteq> Some (cf_admin_token (ap_cfg s))"
  shows "\<exists>e. admin_route A req tok s = (Inl e, s) \<and>
    (e = http 403 (JStr ''invalid admin token'') \<or> e = request_validation_error)"
proof -
  have gate: "admin_gate tok s = (Inl (http 403 (JStr ''invalid admin token'')), s)"
    using assms by (simp add: admin_gate_def)
  show ?thesis
    by (cases req) (simp_all add: admin_route_def mapP_def admin_defs bindP_apply gate validated_def)
qed

section \<open>Faults\<close>

lemma admin_gate_open [simp]: "admin_gate (Some (cf_admin_token (ap_cfg s))) s = (Inr (), s)"
  by (simp add: admin_gate_def)

text \<open>
  A fault set through the API is the one in force for its issuer, with the documented defaults for
  what the body left out; it leaves other issuers' faults alone, is what the list shows, and clearing
  it restores the issuer; a second clear is a 404.
\<close>

lemma admin_chaos_lifecycle:
  assumes "tok = Some (cf_admin_token (ap_cfg s))" and "cb_mode body \<in> valid_fault_modes"
  shows "\<exists>s1 s2. admin_set_chaos issuer body tok s = (Inr (issuer, chaos_fault body), s1) \<and>
    get_fault issuer (ap_faults s1) = Some (chaos_fault body) \<and>
    (\<forall>other. other \<noteq> issuer \<longrightarrow> get_fault other (ap_faults s1) = get_fault other (ap_faults s)) \<and>
    admin_list_chaos tok s1 = (Inr (ap_faults s1), s1) \<and>
    (\<exists>r. admin_clear_chaos issuer tok s1 = (Inr r, s2)) \<and>
    get_fault issuer (ap_faults s2) = None \<and>
    (\<exists>d. admin_clear_chaos issuer tok s2 = (Inl (http 404 d), s2))"
proof -
  let ?s1 = "s\<lparr>ap_faults := set_fault issuer (chaos_fault body) (ap_faults s)\<rparr>"
  let ?s2 = "?s1\<lparr>ap_faults := dpop (ap_faults ?s1) issuer\<rparr>"
  have "admin_set_chaos issuer body tok s = (Inr (issuer, chaos_fault body), ?s1)"
    using assms by (simp add: admin_set_chaos_def validated_def bindP_apply)
  moreover have "\<exists>r. admin_clear_chaos issuer tok ?s1 = (Inr r, ?s2)"
    using assms by (simp add: admin_clear_chaos_def bindP_apply admin_gate_def clear_fault_def set_fault_def)
  moreover have "\<exists>d. admin_clear_chaos issuer tok ?s2 = (Inl (http 404 d), ?s2)"
    using assms by (simp add: admin_clear_chaos_def bindP_apply admin_gate_def clear_fault_def set_fault_def delete_idem)
  ultimately show ?thesis
    using assms by (intro exI [of _ ?s1] exI [of _ ?s2])
      (simp add: get_set_fault admin_list_chaos_def bindP_apply admin_gate_def get_faults_def get_fault_def set_fault_def)
qed

section \<open>Configuration\<close>

text \<open>
  C32: after a reload that was answered, on either backend, the mode, the admin token, the origins and
  the webhooks in force are those of the store that is served; from then on the API answers to the
  store's admin token, or to the environment's when it is set, and to no other.
\<close>

theorem admin_reload_in_step:
  assumes "admin_reload A tok s = (Inr r, s')"
  shows "tok = Some (cf_admin_token (ap_cfg s)) \<and> in_step (ae_os A) (ap_cfg s') \<and>
    (\<forall>tok'. fst (admin_list_chaos tok' s') = Inr (ap_faults s') \<longleftrightarrow>
       tok' = Some (effective_admin_token (ae_os A) (cf_data (ap_cfg s'))))"
proof -
  from assms have tok: "tok = Some (cf_admin_token (ap_cfg s))"
    by (auto simp: admin_reload_def bindP_apply admin_gate_def split: if_splits)
  from assms obtain u where re: "app_reload A s = (Inr u, s')"
    by (auto simp: admin_reload_def bindP_apply tok appP_def lift_py_def split: prod.splits sum.splits)
  have step: "in_step (ae_os A) (ap_cfg s')"
  proof (cases "ap_backend s")
    case (YamlActive path)
    with re show ?thesis
      by (auto simp: app_reload_def split: prod.splits dest: reload_config_in_step)
  next
    case (PostgresActive org pool)
    with re show ?thesis
      by (auto simp: app_reload_def split: prod.splits dest: reload_config_in_step)
  qed
  then have "cf_admin_token (ap_cfg s') = effective_admin_token (ae_os A) (cf_data (ap_cfg s'))"
    by (simp add: in_step_def)
  with tok step show ?thesis
    by (auto simp: admin_list_chaos_def bindP_apply admin_gate_def get_faults_def split: if_splits)
qed

text \<open>
  C33: a process that starts on Postgres serves the database's identities but keeps the built-in mode
  and admin token, whatever the database says: audiences are not enforced and the admin API answers
  to \<open>change-me\<close>, until a reload brings the configured values into force.
\<close>

theorem postgres_start_defaults:
  assumes "ap_cfg s = config_init (ae_os A) initial_store" and "ap_backend s = PostgresActive org False"
    and "dget (os_vars (ae_os A)) ''MOCK_IDP_ADMIN_TOKEN'' = None" and "\<not> hosted_mode (ae_os A)"
    and "db_healthy (rg_db s)" and "dget (db_app_config (rg_db s)) org = Some cfg"
  shows "\<exists>s1 r s2. app_startup A exists True connects2 s = (Inr exists, s1) \<and>
    cf_data (ap_cfg s1) = snd (apply_fetched (org_rows org (rg_db s)) initial_store) \<and>
    cf_mode (ap_cfg s1) = ''lax'' \<and> cf_admin_token (ap_cfg s1) = ''change-me'' \<and>
    admin_reload A (Some ''change-me'') s1 = (Inr r, s2) \<and>
    cf_mode (ap_cfg s2) = cr_auth_mode cfg \<and> cf_admin_token (ap_cfg s2) = cr_admin_token cfg"
proof -
  let ?db = "rg_db s" and ?data = "snd (apply_fetched (org_rows org (rg_db s)) initial_store)"
  let ?cfg1 = "(config_init (ae_os A) initial_store)\<lparr>cf_data := ?data\<rparr>"
  let ?s1 = "s\<lparr>ap_cfg := ?cfg1, rg_db := ?db\<lparr>db_statements := db_statements ?db + 4\<rparr>,
    ap_backend := PostgresActive org True\<rparr>"
  have start: "app_startup A exists True connects2 s = (Inr exists, ?s1)"
    using assms pg_reload_healthy [OF assms(5), of "\<lparr>pg_data = initial_store, pg_org_id = org, pg_pool = True\<rparr>"]
    by (simp add: app_startup_def store_startup_def pg_startup_def active_pg_def bindP_apply config_init_def)
  have one: "cf_mode (ap_cfg ?s1) = ''lax''" "cf_admin_token (ap_cfg ?s1) = ''change-me''"
    using assms(3) by (simp_all add: config_init_def initial_store_def effective_admin_token_def)
  have rows: "org_rows org (rg_db ?s1) = org_rows org ?db" by (simp add: org_rows_def)
  let ?data2 = "snd (apply_fetched (org_rows org ?db) ?data)"
  obtain q d2 where a: "apply_cfg_row cfg ?data = (q, d2)" by (cases "apply_cfg_row cfg ?data")
  have data2: "st_mode ?data2 = cr_auth_mode cfg" "st_admin_token ?data2 = cr_admin_token cfg"
    using apply_cfg_row_tables(5,6) [OF a] assms(6) a
    by (auto simp: apply_fetched_def org_rows_def apply_rows_def bindE_def split: sum.split prod.split)
  have h: "db_healthy (rg_db ?s1)" using assms(5) by (simp add: db_healthy_def)
  have "\<exists>s2. app_reload A ?s1 = (Inr (), s2) \<and> cf_mode (ap_cfg s2) = cr_auth_mode cfg \<and>
      cf_admin_token (ap_cfg s2) = cr_admin_token cfg"
    using pg_reload_healthy [OF h, of "\<lparr>pg_data = ?data, pg_org_id = org, pg_pool = True\<rparr>"] rows data2 assms(3)
    by (simp add: app_reload_def active_pg_def reload_config_def effective_admin_token_def)
  then obtain s2 where re: "app_reload A ?s1 = (Inr (), s2)" "cf_mode (ap_cfg s2) = cr_auth_mode cfg"
    "cf_admin_token (ap_cfg s2) = cr_admin_token cfg" by blast
  have "\<exists>r. admin_reload A (Some ''change-me'') ?s1 = (Inr r, s2)"
    using one(2) re(1) by (simp add: admin_reload_def bindP_apply admin_gate_def appP_def lift_py_def)
  with start one re(2,3) show ?thesis by (intro exI [of _ ?s1]) auto
qed

section \<open>Rotating every issuer\<close>

lemma dset_keys: "k \<in> set (dkeys d) \<Longrightarrow> dkeys (dset d k v) = dkeys d"
  by (induction d) auto

lemma rotate_issuer_known:
  assumes "dget (ks_stores ks) i = Some ik" and "rotate_issuer i ks = (k, ks')"
  shows "dkeys (ks_stores ks') = dkeys (ks_stores ks)"
    and "\<exists>ik'. ks_stores ks' = dset (ks_stores ks) i ik' \<and> k = ik_signing ik'"
proof -
  have i: "i \<in> set (dkeys (ks_stores ks))" using assms(1) by (force dest: map_of_SomeD)
  from assms show e: "\<exists>ik'. ks_stores ks' = dset (ks_stores ks) i ik' \<and> k = ik_signing ik'"
    by (auto simp: rotate_issuer_def key_get_hit ik_rotate_eq Let_def)
  then obtain ik' where "ks_stores ks' = dset (ks_stores ks) i ik'" by blast
  then show "dkeys (ks_stores ks') = dkeys (ks_stores ks)" by (simp only: dset_keys [OF i])
qed

lemma rotate_names_known:
  "rotate_names names ks = (kids, ks') \<Longrightarrow> set names \<subseteq> set (dkeys (ks_stores ks)) \<Longrightarrow> distinct names \<Longrightarrow>
   dkeys (ks_stores ks') = dkeys (ks_stores ks) \<and>
   (\<forall>n. n \<notin> set names \<longrightarrow> dget (ks_stores ks') n = dget (ks_stores ks) n) \<and>
   kids = map (\<lambda>n. (n, jwk_kid (ik_signing (the (dget (ks_stores ks') n))))) names"
proof (induction names arbitrary: ks kids)
  case (Cons name names)
  obtain k ks1 where r: "rotate_issuer name ks = (k, ks1)" by (cases "rotate_issuer name ks")
  obtain kids1 where n: "rotate_names names ks1 = (kids1, ks')" "kids = (name, jwk_kid k) # kids1"
    using Cons.prems(1) r by (auto split: prod.splits)
  obtain ik where "dget (ks_stores ks) name = Some ik"
    using Cons.prems(2) by (cases "dget (ks_stores ks) name") (auto simp: map_of_eq_None_iff)
  note one = rotate_issuer_known [OF this r]
  then obtain ik' where ik': "ks_stores ks1 = dset (ks_stores ks) name ik'" "k = ik_signing ik'" by blast
  have "set names \<subseteq> set (dkeys (ks_stores ks1))" "distinct names" "name \<notin> set names"
    using Cons.prems(2,3) one(1) by auto
  from Cons.IH [OF n(1) this(1,2)] this(3) one(1) n(2) ik' show ?case by simp
qed simp

text \<open>
  Rotating without naming an issuer rotates all known ones: the key ids in the response are those
  of the keys every known issuer signs with afterwards, in the order of the store, and no issuer
  appears or disappears.
\<close>

lemma admin_rotate_all:
  assumes "tok = Some (cf_admin_token (ap_cfg s))" and "key_store_inv (ap_keys s)"
  shows "\<exists>s'. admin_rotate None tok s =
      (Inr (JObj [(''status'', JStr ''rotated''),
                  (''issuers'', JObj (map (\<lambda>(n, k). (n, JStr k)) (all_signing_kids (ap_keys s'))))]), s') \<and>
    dkeys (ks_stores (ap_keys s')) = dkeys (ks_stores (ap_keys s))"
proof -
  let ?names = "dkeys (ks_stores (ap_keys s))"
  obtain kids ks' where r: "rotate_names ?names (ap_keys s) = (kids, ks')"
    by (cases "rotate_names ?names (ap_keys s)")
  have d: "distinct ?names" using assms(2) by (simp add: key_store_inv_def dict_ok_def)
  note k = rotate_names_known [OF r order_refl d]
  have "kids = all_signing_kids ks'"
  proof -
    have d': "distinct (dkeys (ks_stores ks'))" using k d by simp
    have "map (\<lambda>n. (n, jwk_kid (ik_signing (the (dget (ks_stores ks') n))))) (dkeys (ks_stores ks')) = all_signing_kids ks'"
      unfolding all_signing_kids_def map_map by (rule map_cong) (auto simp: map_of_is_SomeI [OF d'])
    with k show ?thesis by simp
  qed
  then show ?thesis
    using assms(1) r k by (simp add: admin_rotate_def bindP_apply rotate_keys_def rotate_all_def)
qed

section \<open>Organisations\<close>

definition to_hosted :: "app \<Rightarrow> hosted" where
  "to_hosted s =
     \<lparr>ks_gen = ks_gen s, ks_drawn = ks_drawn s, rg_orgs = rg_orgs s, rg_pool = rg_pool s, rg_db = rg_db s,
      hs_hits = hs_hits s, hs_posts = hs_posts s\<rparr>"

lemma to_hosted_get [simp]: "registry_get slug (to_hosted s) = registry_get slug s"
  by (simp add: to_hosted_def registry_get_def)

lemma resolve_with_key:
  assumes "registry_get slug s = Some oc" and "oc_tier oc \<noteq> ''sandbox''" and "verify_api_key oc (authorization_of rq)"
  shows "hosted_resolve H slug issuer rq s = (Inr (oc, full_issuer slug issuer), s)"
  using assms by (simp add: hosted_resolve_def get_org_def bindP_apply)

text \<open>
  An organisation created through the API is served at once to requests with the key of the
  response; deleting it through the API closes it to every request, that key included.
\<close>

lemma admin_org_lifecycle:
  assumes "tok = Some (cf_admin_token (ap_cfg s))" and "hosted_mode (ae_os A)"
    and "db_healthy (rg_db s)" and "rg_pool s" and "slug_free slug (rg_db s)" and "registry_get slug s = None"
    and "tier \<in> {''pro'', ''enterprise''}" and "slug \<noteq> ''sandbox''"
  shows "\<exists>r s1 d s2. admin_create_org A key admin tok slug tier s = (Inr r, s1) \<and>
    field_of r ''api_key'' = Some (JStr key) \<and>
    (\<forall>H issuer rq. authorization_of rq = Some (''Bearer '' @ key) \<longrightarrow>
       (\<exists>oc. hosted_resolve H slug issuer rq (to_hosted s1) = (Inr (oc, full_issuer slug issuer), to_hosted s1))) \<and>
    admin_delete_org A slug tok s1 = (Inr d, s2) \<and>
    (\<forall>H issuer rq. hosted_resolve H slug issuer rq (to_hosted s2) =
       (Inl (http 404 (error_detail ''org_not_found'')), to_hosted s2))"
  using assms(3-5)
proof (rule register_run [of s slug "ae_os A" key admin tier])
  fix ctx s1
  assume r: "registry_register (ae_os A) key admin slug tier s = (Inr (ctx, key), s1)"
    and s1: "s1 = s\<lparr>rg_orgs := dset (rg_orgs s) slug ctx, rg_db := rg_db s1\<rparr>"
    and c: "oc_tier ctx = tier" "oc_api_key_hash ctx = Some (key_hash key)"
    and db: "db_orgs (rg_db s1) = db_orgs (rg_db s) @ [\<lparr>og_org_id = slug, og_slug = slug, og_tier = tier,
           og_api_key_hash = Some (key_hash key)\<rparr>]" "db_healthy (rg_db s1)"
  have g: "ap_cfg s1 = ap_cfg s" "registry_get slug s1 = Some ctx" "rg_pool s1"
    using assms(4) by (subst s1, simp add: registry_get_def)+
  have create: "\<exists>j. admin_create_org A key admin tok slug tier s = (Inr j, s1) \<and> field_of j ''api_key'' = Some (JStr key)"
    using assms(1,2,6,7) r by (auto simp: admin_create_org_def bindP_apply require_hosted_def appP_def lift_py_def
        field_of_def Let_def)
  have tier: "oc_tier ctx \<noteq> ''sandbox''" using assms(7) c(1) by auto
  have open_key: "hosted_resolve H slug issuer rq (to_hosted s1) = (Inr (ctx, full_issuer slug issuer), to_hosted s1)"
    if "authorization_of rq = Some (''Bearer '' @ key)" for H issuer rq
    by (rule resolve_with_key) (use g tier c that in \<open>simp_all add: verify_api_key_def\<close>)
  obtain q db2 where d: "delete_org slug (rg_db s1) = (q, db2)" by (cases "delete_org slug (rg_db s1)")
  have q: "q = Inr (length (filter (\<lambda>o'. og_slug o' = slug) (db_orgs (rg_db s1))))"
    using d db(2) by (auto simp: delete_org_def statement_healthy Let_def)
  let ?s2 = "s1\<lparr>rg_db := db2, rg_orgs := dpop (rg_orgs s1) slug\<rparr>"
  have "registry_deregister slug s1 = (Inr True, ?s2)"
    using d q g(3) db(1) by (simp add: registry_deregister_def bindP_apply sqlP_def)
  then have delete: "\<exists>j. admin_delete_org A slug tok s1 = (Inr j, ?s2)"
    using assms(1,2,8) g(1) by (simp add: admin_delete_org_def bindP_apply require_hosted_def appP_def lift_py_def
        admin_gate_def)
  have "hosted_resolve H slug issuer rq (to_hosted ?s2) =
       (Inl (http 404 (error_detail ''org_not_found'')), to_hosted ?s2)" for H issuer rq
    by (simp add: hosted_resolve_def get_org_def bindP_apply registry_get_def to_hosted_def)
  with create open_key delete show ?thesis by metis
qed

text \<open>
  No configuration can be uploaded for an organisation: whatever YAML an authorised request
  carries, the upload of a registered organisation is answered 422, and nothing changes.
\<close>

lemma push_config_rejected:
  assumes "tok = Some (cf_admin_token (ap_cfg s))" and "hosted_mode (ae_os A)"
    and "registry_get slug s = Some ctx" and "slug \<noteq> ''sandbox''"
  shows "\<exists>d. admin_push_config A slug yaml tok s = (Inl (http 422 (error_with ''invalid_config'' d)), s)"
proof -
  obtain e where "registry_push_config slug yaml s = (Inl e, s)" by (simp add: registry_push_config_def)
  with assms have "admin_push_config A slug yaml tok s =
      (Inl (http 422 (error_with ''invalid_config'' [(''detail'', JStr (exn_text e))])), s)"
    by (simp add: admin_push_config_def bindP_apply require_hosted_def)
  then show ?thesis by blast
qed

section \<open>Instances\<close>

definition demo_libs :: yaml_libs where
  "demo_libs = \<lparr>yaml_safe_load = (\<lambda>_. Inr JNull), model_validate = (\<lambda>_. Inr default_config)\<rparr>"

definition demo_app_env :: "(string, string) dict \<Rightarrow> app_env" where
  "demo_app_env vars = \<lparr>ae_libs = demo_libs, ae_os = \<lparr>os_vars = vars, os_read = (\<lambda>_. FileMissing)\<rparr>\<rparr>"

definition demo_process :: app where
  "demo_process = \<lparr>ks_gen = (\<lambda>n. n), ks_drawn = 0, rg_orgs = [(''two'', demo_org ''two'')], rg_pool = True,
     rg_db = demo_db, hs_hits = [], hs_posts = [], ap_cfg = demo_cfg, ap_keys = demo_keys, ap_faults = [],
     ap_backend = PostgresActive ''acme'' True\<rparr>"

lemma demo_process_simps [simp]:
  "cf_admin_token (ap_cfg demo_process) = ''adm''" "ap_keys demo_process = demo_keys"
  "rg_db demo_process = demo_db" "rg_pool demo_process" "ap_backend demo_process = PostgresActive ''acme'' True"
  "registry_get ''two'' demo_process = Some (demo_org ''two'')" "registry_get ''one'' demo_process = None"
  by (simp_all add: demo_process_def registry_get_def)

lemma demo_hosted_mode: "hosted_mode (ae_os (demo_app_env [(''MOCK_IDP_HOSTED'', ''true'')]))"
proof -
  have "py_lower ''true'' = ''true''" by code_simp
  then show ?thesis by (simp add: hosted_mode_def demo_app_env_def getenv_def)
qed

theorem admin_needs_token_witness:
  "\<exists>e. admin_route (demo_app_env []) ReloadRequest (Some ''guess'') demo_process = (Inl e, demo_process)"
proof -
  have "Some ''guess'' \<noteq> Some (cf_admin_token (ap_cfg demo_process))" by simp
  from admin_needs_token [OF this] show ?thesis by blast
qed

definition demo_chaos_body :: chaos_body where
  "demo_chaos_body = \<lparr>cb_mode = ''error_500'', cb_probability = None, cb_value = None, cb_skew_seconds = None\<rparr>"

theorem admin_chaos_lifecycle_witness:
  "\<exists>s1. admin_set_chaos ''acme'' demo_chaos_body (Some ''adm'') demo_process = (Inr (''acme'', chaos_fault demo_chaos_body), s1) \<and>
     get_fault ''acme'' (ap_faults s1) = Some (chaos_fault demo_chaos_body)"
proof -
  have "Some ''adm'' = Some (cf_admin_token (ap_cfg demo_process))" "cb_mode demo_chaos_body \<in> valid_fault_modes"
    by (simp_all add: demo_chaos_body_def valid_fault_modes_def)
  from admin_chaos_lifecycle [OF this] show ?thesis by blast
qed

theorem admin_reload_in_step_witness:
  "\<exists>r s'. admin_reload (demo_app_env []) (Some ''adm'') demo_process = (Inr r, s') \<and>
     in_step (ae_os (demo_app_env [])) (ap_cfg s')"
proof -
  have "\<exists>r s'. admin_reload (demo_app_env []) (Some ''adm'') demo_process = (Inr r, s')"
    using pg_reload_healthy [of demo_db "active_pg demo_process ''acme'' True"]
    by (simp add: admin_reload_def bindP_apply admin_gate_def appP_def app_reload_def reload_config_def lift_py_def
        active_pg_def)
  then show ?thesis using admin_reload_in_step by blast
qed

theorem postgres_start_defaults_witness:
  "\<exists>s1. app_startup (demo_app_env []) False True True
       (demo_process\<lparr>ap_cfg := config_init (ae_os (demo_app_env [])) initial_store, ap_backend := PostgresActive ''acme'' False\<rparr>)
       = (Inr False, s1) \<and> cf_mode (ap_cfg s1) = ''lax'' \<and> cf_admin_token (ap_cfg s1) = ''change-me''"
proof -
  let ?A = "demo_app_env []"
  let ?s = "demo_process\<lparr>ap_cfg := config_init (ae_os ?A) initial_store, ap_backend := PostgresActive ''acme'' False\<rparr>"
  have "ap_cfg ?s = config_init (ae_os ?A) initial_store" "ap_backend ?s = PostgresActive ''acme'' False"
    "dget (os_vars (ae_os ?A)) ''MOCK_IDP_ADMIN_TOKEN'' = None" "\<not> hosted_mode (ae_os ?A)"
    "db_healthy (rg_db ?s)" "dget (db_app_config (rg_db ?s)) ''acme'' = Some demo_cfg_row"
    by (simp_all add: demo_app_env_def hosted_mode_def getenv_def py_lower_def)
  from postgres_start_defaults [OF this] show ?thesis by blast
qed

theorem admin_rotate_all_witness:
  "\<exists>s'. admin_rotate None (Some ''adm'') (demo_process\<lparr>ap_keys := snd (key_get ''acme'' demo_keys)\<rparr>) =
     (Inr (JObj [(''status'', JStr ''rotated''),
                 (''issuers'', JObj (map (\<lambda>(n, k). (n, JStr k)) (all_signing_kids (ap_keys s'))))]), s') \<and>
     dkeys (ks_stores (ap_keys s')) = [''acme'']"
proof -
  let ?s = "demo_process\<lparr>ap_keys := snd (key_get ''acme'' demo_keys)\<rparr>"
  have "key_store_inv (ap_keys ?s)"
    using global_keys.jwks_inv [OF demo_keys_inv, of "''acme''"] by (simp add: get_jwks_keys_def split: prod.splits)
  moreover have "Some ''adm'' = Some (cf_admin_token (ap_cfg ?s))" by simp
  moreover have "dkeys (ks_stores (ap_keys ?s)) = [''acme'']"
    by (simp add: key_get_miss demo_keys_def)
  ultimately show ?thesis using admin_rotate_all by metis
qed

lemma admin_org_lifecycle_witness:
  "\<exists>r s1. admin_create_org (demo_app_env [(''MOCK_IDP_HOSTED'', ''true'')]) ''key'' ''admin'' (Some ''adm'') ''one'' ''pro'' demo_process = (Inr r, s1) \<and>
     field_of r ''api_key'' = Some (JStr ''key'')"
proof -
  have "Some ''adm'' = Some (cf_admin_token (ap_cfg demo_process))" "db_healthy (rg_db demo_process)"
    "slug_free ''one'' (rg_db demo_process)" "''pro'' \<in> {''pro'', ''enterprise''}" "''one'' \<noteq> ''sandbox''"
    by (simp_all, simp add: slug_free_def demo_db_def)
  from admin_org_lifecycle [OF this(1) demo_hosted_mode this(2) demo_process_simps(4) this(3) demo_process_simps(7) this(4,5)]
  show ?thesis by blast
qed

theorem push_config_rejected_witness:
  "\<exists>d. admin_push_config (demo_app_env [(''MOCK_IDP_HOSTED'', ''true'')]) ''two'' ''tenants: {}'' (Some ''adm'') demo_process =
     (Inl (http 422 (error_with ''invalid_config'' d)), demo_process)"
proof -
  have "Some ''adm'' = Some (cf_admin_token (ap_cfg demo_process))" "''two'' \<noteq> ''sandbox''" by simp_all
  from push_config_rejected [OF this(1) demo_hosted_mode demo_process_simps(6) this(2)] show ?thesis .
qed

end
