(* ===== verification/ServedData.thy ===== *)
theory ServedData
  imports AdminProperties
begin

text \<open>
  The type invariant of what a running process serves, over any history of reloads of either
  backend and of changes other programs make to the database in between.
\<close>

section \<open>Histories\<close>

datatype served_event =
    Reload app_env          \<comment> \<open>a reload, with the file and the environment as they are then\<close>
  | DatabaseChange database

fun serve :: "served_event list \<Rightarrow> app \<Rightarrow> app" where
  "serve [] s = s"
| "serve (Reload A # es) s = serve es (snd (app_reload A s))"
| "serve (DatabaseChange db # es) s = serve es (s\<lparr>rg_db := db\<rparr>)"

text \<open>Pydantic runs the validators; the mode columns hold modes, which the program does not check.\<close>

fun event_lawful :: "served_event \<Rightarrow> bool" where
  "event_lawful (Reload A) = pydantic_lawful (ae_libs A)"
| "event_lawful (DatabaseChange db) = modes_valid db"

definition served_ok :: "app \<Rightarrow> bool" where
  "served_ok s =
     (store_ok (cf_data (ap_cfg s)) \<and> store_valid (cf_data (ap_cfg s)) \<and> modes_valid (rg_db s))"

lemma modes_valid_same: "same_tables db db' \<Longrightarrow> modes_valid db' = modes_valid db"
  by (auto simp: same_tables_def modes_valid_def)

text \<open>Both backends through the contract of the store.\<close>

lemma app_reload_ok:
  assumes "served_ok s" and "pydantic_lawful (ae_libs A)"
  shows "served_ok (snd (app_reload A s))"
proof (cases "ap_backend s")
  case (YamlActive path)
  let ?d = "cf_data (ap_cfg s)" and ?e = "(ae_libs A, ae_os A)"
  have "cf_data (ap_cfg (snd (app_reload A s))) = snd (yaml_reload path ?e ?d)"
    "rg_db (snd (app_reload A s)) = rg_db s"
    using reload_config_data [of "ae_os A" "yaml_reload path ?e" "ap_cfg s"]
    by (cases "reload_config (ae_os A) (yaml_reload path ?e) (ap_cfg s)", simp add: app_reload_def YamlActive)+
  with assms yaml_reload_ok [of ?d path ?e] yaml_reload_valid [of ?e ?d path] show ?thesis
    by (simp add: served_ok_def)
next
  case (PostgresActive org pool)
  let ?st = "active_pg s org pool"
  obtain r st db where p: "pg_reload ?st (rg_db s) = (r, st, db)" by (metis prod_cases3)
  have data: "cf_data (ap_cfg (snd (app_reload A s))) = pg_data (snd (pg_reload_in (rg_db s) ?st))"
    using reload_config_data [of "ae_os A" "\<lambda>d. (r, pg_data st)" "ap_cfg s"]
    by (cases "reload_config (ae_os A) (\<lambda>d. (r, pg_data st)) (ap_cfg s)")
      (simp add: app_reload_def PostgresActive p pg_reload_in_def)
  have "rg_db (snd (app_reload A s)) = db"
    by (simp add: app_reload_def PostgresActive p split: prod.splits)
  then have "modes_valid (rg_db (snd (app_reload A s)))"
    using assms(1) modes_valid_same [OF pg_reload_cases(2) [OF p]] by (simp add: served_ok_def)
  moreover have "pg_data ?st = cf_data (ap_cfg s)" by (simp add: active_pg_def)
  ultimately show ?thesis
    using assms(1) pg_store.reload_ok [of "rg_db s" ?st] pg_store.reload_valid [of "rg_db s" ?st]
    by (simp add: served_ok_def data)
qed

lemma serve_ok: "served_ok s \<Longrightarrow> list_all event_lawful es \<Longrightarrow> served_ok (serve es s)"
proof (induction es s rule: serve.induct)
  case (2 A es s)
  then show ?case using app_reload_ok [of s A] by simp
qed (simp_all add: served_ok_def)



end
