(* ===== verification/Debug.thy ===== *)
theory Debug
  imports Admin Demo
begin

text \<open>
  \<open>routers/debug.py\<close>: the token decoder, the page of identities and the page of the configuration.
  The pages read the module configuration and the published keys; they change nothing. The text of a
  decoding exception is the library's and is an argument.
\<close>

section \<open>json.loads of bytes\<close>

text \<open>
  \<open>json.detect_encoding\<close> and the decoders it chooses. A text with a code point above 255 is outside
  the model of strings, which reads it as undecodable.
\<close>

fun utf8_decode :: "string \<Rightarrow> string option" where
  "utf8_decode [] = Some []"
| "utf8_decode (a # r) =
     (if code a < 128 then map_option ((#) a) (utf8_decode r)
      else if code a = 194 \<or> code a = 195 then
        (case r of
           b # r' \<Rightarrow>
             if 128 \<le> code b \<and> code b < 192
             then map_option ((#) (char_of (code a mod 4 * 64 + code b mod 64))) (utf8_decode r')
             else None
         | [] \<Rightarrow> None)
      else None)"

text \<open>UTF-16 and UTF-32: \<open>n\<close> bytes for a character, its value in the last (big endian) or the first.\<close>

definition wide_char :: "bool \<Rightarrow> string \<Rightarrow> char option" where
  "wide_char big g =
     (let g' = (if big then rev g else g) in
      if list_all (\<lambda>b. code b = 0) (tl g') then Some (hd g') else None)"

function wide_decode :: "bool \<Rightarrow> nat \<Rightarrow> string \<Rightarrow> string option" where
  "wide_decode big n s =
     (if s = [] then Some []
      else if n = 0 \<or> length s < n then None
      else case wide_char big (take n s) of
             None \<Rightarrow> None
           | Some c \<Rightarrow> map_option ((#) c) (wide_decode big n (drop n s)))"
  by pat_completeness auto
termination by (relation "measure (\<lambda>(big, n, s). length s)") auto

declare wide_decode.simps [simp del]

definition json_bytes :: "string \<Rightarrow> string option" where
  "json_bytes b =
     (let n = map code b in
      if prefix [0, 0, 254, 255] n then wide_decode True 4 (drop 4 b)
      else if prefix [255, 254, 0, 0] n then wide_decode False 4 (drop 4 b)
      else if prefix [254, 255] n then wide_decode True 2 (drop 2 b)
      else if prefix [255, 254] n then wide_decode False 2 (drop 2 b)
      else if prefix [239, 187, 191] n then utf8_decode (drop 3 b)
      else if 4 \<le> length n \<and> n ! 0 = 0 then wide_decode True (if n ! 1 \<noteq> 0 then 2 else 4) b
      else if 4 \<le> length n \<and> n ! 1 = 0
      then wide_decode False (if n ! 2 \<noteq> 0 \<or> n ! 3 \<noteq> 0 then 2 else 4) b
      else if length n = 2 \<and> n ! 0 = 0 then wide_decode True 2 b
      else if length n = 2 \<and> n ! 1 = 0 then wide_decode False 2 b
      else utf8_decode b)"

section \<open>The decoder\<close>

definition debug_segment :: "string \<Rightarrow> json option" where
  "debug_segment seg =
     (case b64decode_segment seg of
        None \<Rightarrow> None
      | Some b \<Rightarrow> (case json_bytes b of None \<Rightarrow> None | Some t \<Rightarrow> loads t))"

definition debug_decode ::
  "jwt_lib \<Rightarrow> (string \<Rightarrow> string) \<Rightarrow> key_store \<Rightarrow> string \<Rightarrow> exn + json" where
  "debug_decode L failure ks tok =
     (case split_on CHR ''.'' tok of
        [h, p, sg] \<Rightarrow>
          (case debug_segment h of
             None \<Rightarrow> Inl (http 400 (JStr (''decode failed: '' @ failure h)))
           | Some header \<Rightarrow>
               (case debug_segment p of
                  None \<Rightarrow> Inl (http 400 (JStr (''decode failed: '' @ failure p)))
                | Some payload \<Rightarrow>
                    Inr (JObj [(''header'', header), (''payload'', payload),
                               (''signature_validated_against_published_key'',
                                JBool (verify_token L tok (all_jwks_keys ks) \<noteq> None))])))
      | _ \<Rightarrow> Inl (http 400 (JStr ''not a JWT (expected three segments)'')))"

section \<open>The pages\<close>

text \<open>\<open>model_dump()\<close>: the declared fields in order; private attributes are not among them.\<close>

definition user_dump :: "user_record \<Rightarrow> json" where
  "user_dump u = JObj
     [(''password'', JStr (u_password u)), (''upn'', jopt (u_upn u)),
      (''preferred_username'', jopt (u_preferred_username u)), (''oid'', JStr (u_oid u)),
      (''tid'', JStr (id_tid u)), (''token_version'', JStr (id_token_version u)),
      (''token_lifetime_seconds'', JInt (id_token_lifetime_seconds u)),
      (''signing_alg'', JStr (id_signing_alg u)), (''realm_roles'', jstrs (id_realm_roles u)),
      (''roles'', jstrs (id_roles u)), (''groups'', jstrs (id_groups u)),
      (''allowed_audiences'', jstrs (id_allowed_audiences u)),
      (''extra_claims'', JObj (id_extra_claims u))]"

definition sp_dump :: "sp_record \<Rightarrow> json" where
  "sp_dump sp = JObj
     [(''client_id'', jopt (sp_client_id sp)), (''secret'', JStr (sp_secret sp)),
      (''label'', jopt (sp_label sp)), (''token_version'', JStr (id_token_version sp)),
      (''token_lifetime_seconds'', JInt (id_token_lifetime_seconds sp)),
      (''signing_alg'', JStr (id_signing_alg sp)), (''realm_roles'', jstrs (id_realm_roles sp)),
      (''roles'', jstrs (id_roles sp)), (''groups'', jstrs (id_groups sp)),
      (''tid'', JStr (id_tid sp)), (''allowed_audiences'', jstrs (id_allowed_audiences sp)),
      (''extra_claims'', JObj (id_extra_claims sp)),
      (''override_any_claim'', JBool (sp_override_any_claim sp)),
      (''override_iss_too'', JBool (sp_override_iss_too sp))]"

definition app_dump :: "client_app \<Rightarrow> json" where
  "app_dump a = JObj
     [(''app_id'', jopt (app_id a)), (''label'', jopt (app_label a)), (''roles'', jstrs (app_roles a)),
      (''grants'', JObj (map (\<lambda>(k, rs). (k, jstrs rs)) (app_grants a)))]"

definition debug_identities :: "config \<Rightarrow> json" where
  "debug_identities cf = JObj
     [(''users'', JObj (map (\<lambda>(k, v). (k, redact (user_dump v))) (cf_users cf))),
      (''service_principals'',
         JObj (map (\<lambda>(k, v). (k, redact (sp_dump v))) (st_service_principals_raw (cf_data cf)))),
      (''client_apps'', JObj (map (\<lambda>(k, v). (k, app_dump v)) (cf_client_apps cf)))]"

definition debug_config :: "config \<Rightarrow> key_store \<Rightarrow> json" where
  "debug_config cf ks = JObj
     [(''auth_mode'', JStr (cf_mode cf)), (''cors_allow_origins'', jstrs (cf_cors_origins cf)),
      (''iss_base'', JStr (cf_iss_base cf)), (''user_count'', count_json (cf_users cf)),
      (''service_principal_count'', count_json (st_service_principals_raw (cf_data cf))),
      (''client_app_count'', count_json (cf_client_apps cf)),
      (''signing_kids'', JObj (map (\<lambda>(n, k). (n, JStr k)) (all_signing_kids ks))),
      (''alt_kid_present'', JBool True)]"

section \<open>No secret is shown\<close>

text \<open>
  The configuration with every secret replaced: passwords by \<open>f\<close> of the user's name, secrets by \<open>g\<close>
  of the principal's name, values under a secret key inside extra claims by \<open>h\<close>, the administration
  token by \<open>t\<close>.
\<close>

definition scramble_claims :: "(string \<Rightarrow> json \<Rightarrow> json) \<Rightarrow> claims \<Rightarrow> claims" where
  "scramble_claims h c = map (\<lambda>(k, v). (k, if k \<in> secret_keys then h k v else scramble h v)) c"

definition other_user ::
  "(string \<Rightarrow> string) \<Rightarrow> (string \<Rightarrow> json \<Rightarrow> json) \<Rightarrow> string \<times> user_record \<Rightarrow> string \<times> user_record" where
  "other_user f h e = (case e of (k, u) \<Rightarrow>
     (k, u\<lparr>u_password := f k, id_extra_claims := scramble_claims h (id_extra_claims u)\<rparr>))"

definition other_sp ::
  "(string \<Rightarrow> string) \<Rightarrow> (string \<Rightarrow> json \<Rightarrow> json) \<Rightarrow> string \<times> sp_record \<Rightarrow> string \<times> sp_record" where
  "other_sp g h e = (case e of (k, sp) \<Rightarrow>
     (k, sp\<lparr>sp_secret := g k, id_extra_claims := scramble_claims h (id_extra_claims sp)\<rparr>))"

definition other_secrets ::
  "(string \<Rightarrow> string) \<Rightarrow> (string \<Rightarrow> string) \<Rightarrow> (string \<Rightarrow> json \<Rightarrow> json) \<Rightarrow> string \<Rightarrow> config \<Rightarrow> config" where
  "other_secrets f g h t cf =
     (let d = cf_data cf in
      cf\<lparr>cf_admin_token := t,
         cf_data := d\<lparr>st_admin_token := t, st_users := map (other_user f h) (st_users d),
           st_service_principals := map (other_sp g h) (st_service_principals d),
           st_service_principals_raw := map (other_sp g h) (st_service_principals_raw d)\<rparr>\<rparr>)"

text \<open>The names a section of the page lists.\<close>

definition page_section :: "json \<Rightarrow> string \<Rightarrow> string list" where
  "page_section page s =
     (case page of
        JObj d \<Rightarrow> (case dget d s of Some (JObj e) \<Rightarrow> dkeys e | _ \<Rightarrow> [])
      | _ \<Rightarrow> [])"

lemma redact_scramble_claims: "redact (JObj (scramble_claims h c)) = redact (JObj c)"
  using redact_scramble [of h "JObj c"] by (simp add: scramble_claims_def)

lemma redact_jopt [simp]: "redact (jopt v) = jopt v"
  by (simp add: jopt_def split: option.split)

lemma redact_other_user:
  "redact (user_dump (snd (other_user f h (k, u)))) = redact (user_dump u)"
  using redact_scramble_claims [of h "id_extra_claims u"]
  by (simp add: user_dump_def other_user_def secret_keys_def)

lemma redact_other_sp:
  "redact (sp_dump (snd (other_sp g h (k, sp)))) = redact (sp_dump sp)"
  using redact_scramble_claims [of h "id_extra_claims sp"]
  by (simp add: sp_dump_def other_sp_def secret_keys_def)

lemma page_users:
  "map (\<lambda>(k, v). (k, redact (user_dump v))) (map (other_user f h) us) =
   map (\<lambda>(k, v). (k, redact (user_dump v))) us"
proof (induction us)
  case (Cons e us)
  then show ?case using redact_other_user [of f h "fst e" "snd e"]
    by (cases e) (simp add: other_user_def)
qed simp

lemma page_sps:
  "map (\<lambda>(k, v). (k, redact (sp_dump v))) (map (other_sp g h) sps) =
   map (\<lambda>(k, v). (k, redact (sp_dump v))) sps"
proof (induction sps)
  case (Cons e sps)
  then show ?case using redact_other_sp [of g h "fst e" "snd e"]
    by (cases e) (simp add: other_sp_def)
qed simp

text \<open>
  C35: The debug pages are independent of every secret. Whatever the passwords, the client secrets,
  the administration token and the values under a secret key anywhere inside extra claims are
  replaced by, \<open>/debug/identities\<close> and \<open>/debug/config\<close> answer the same, and still list every user,
  service principal and client application by name.
\<close>
theorem debug_pages_hide_secrets:
  "debug_identities (other_secrets f g h t cf) = debug_identities cf \<and>
   debug_config (other_secrets f g h t cf) ks = debug_config cf ks \<and>
   page_section (debug_identities cf) ''users'' = dkeys (cf_users cf) \<and>
   page_section (debug_identities cf) ''service_principals'' =
     dkeys (st_service_principals_raw (cf_data cf)) \<and>
   page_section (debug_identities cf) ''client_apps'' = dkeys (cf_client_apps cf)"
proof (intro conjI)
  show "debug_identities (other_secrets f g h t cf) = debug_identities cf"
    using page_users [of f h] page_sps [of g h]
    by (simp add: debug_identities_def other_secrets_def Let_def)
  show "debug_config (other_secrets f g h t cf) ks = debug_config cf ks"
    by (simp add: debug_config_def other_secrets_def Let_def count_json_def)
qed (simp_all add: page_section_def debug_identities_def case_prod_beta comp_def)

section \<open>Reading tokens back\<close>

text \<open>
  A compact serialisation (RFC 7515) is three segments, the first two being the header and the
  claims: documented behaviour of the JOSE library.
\<close>

definition compact_tokens :: "jwt_lib \<Rightarrow> bool" where
  "compact_tokens L =
     (\<forall>h c k. json_ok (JObj h) \<longrightarrow> json_ok (JObj c) \<longrightarrow>
        (\<exists>a b sg. split_on CHR ''.'' (jwt_encode L h c k) = [a, b, sg] \<and>
           debug_segment a = Some (JObj h) \<and> debug_segment b = Some (JObj c)))"

text \<open>Printed JSON is ASCII without control characters, so every decoder reads it alike.\<close>

definition printable :: "char \<Rightarrow> bool" where
  "printable c = (32 \<le> code c \<and> code c < 127)"

lemma printable_hex: "n < 16 \<Longrightarrow> printable (hex_digit n)"
  by (auto simp: printable_def hex_digit_def)

lemma printable_literals [simp]:
  "printable CHR ''0''" "printable CHR ''u''" "printable CHR ''n''" "printable CHR ''r''"
  "printable CHR ''t''" "printable CHR ''b''" "printable CHR ''f''" "printable (CHR 0x5C)"
  "printable (CHR 0x22)" "printable CHR '',''" "printable CHR '' ''" "printable CHR '':''"
  "printable CHR ''{''" "printable CHR ''}''" "printable CHR ''[''" "printable CHR '']''"
  "printable CHR ''-''" "printable CHR ''l''" "printable CHR ''e''" "printable CHR ''a''"
  "printable CHR ''s''"
  by (simp_all add: printable_def code_def)

lemma printable_esc: "list_all printable (esc_char c)"
proof -
  have "code c div 16 < 16" using code_lt_256 [of c] by (intro less_mult_imp_div_less) simp
  then show ?thesis
    by (simp add: esc_char_def Let_def printable_hex) (simp add: printable_def)
qed

lemma printable_str: "list_all printable (dumps_str s)"
proof -
  have "list_all printable (concat (map esc_char s))"
    by (induction s) (simp_all add: printable_esc)
  then show ?thesis by (simp add: dumps_str_def)
qed

lemma printable_nat: "list_all printable (nat_str n)"
proof -
  have "printable c" if "c \<in> set (nat_str n)" for c
    using nat_str_digits that digit_char_code by (fastforce simp: printable_def)
  then show ?thesis by (simp add: list_all_iff)
qed

lemma printable_int: "list_all printable (int_str i)"
  by (simp add: int_str_def printable_nat)

lemma printable_join:
  "list_all printable sep \<Longrightarrow> list_all (list_all printable) ws \<Longrightarrow> list_all printable (py_join sep ws)"
  by (induction sep ws rule: py_join.induct) simp_all

lemma printable_dumps: "list_all printable (dumps j)"
proof (induction j rule: dumps.induct)
  case (5 xs)
  then have "list_all (list_all printable) (map dumps xs)" by (simp add: list_all_iff)
  then show ?case by (simp add: printable_join)
next
  case (6 kvs)
  then have "list_all (list_all printable) (map (\<lambda>(k, v). dumps_str k @ '': '' @ dumps v) kvs)"
    using printable_str by (fastforce simp: list_all_iff)
  then show ?case by (simp add: printable_join)
qed (simp_all add: printable_int printable_str)

lemma utf8_printable: "list_all printable s \<Longrightarrow> utf8_decode s = Some s"
  by (induction s) (simp_all add: printable_def)

lemma json_bytes_printable:
  assumes "list_all printable s"
  shows "json_bytes s = Some s"
proof -
  have p: "\<forall>n \<in> set (map code s). 32 \<le> n \<and> n < 127" using assms by (auto simp: list_all_iff printable_def)
  have i: "map code s ! i \<noteq> 0" if "i < length s" for i
    using p that nth_mem [of i "map code s"] by fastforce
  have no: "\<not> prefix (a # r) (map code s)" if "a = 0 \<or> 127 \<le> a" for a r
    using p that by (cases "map code s") auto
  have at: "map code s ! 0 \<noteq> 0" "map code s ! 1 \<noteq> 0" if "2 \<le> length s"
    using i [OF less_le_trans, of 0 2] i [OF less_le_trans, of 1 2] that by simp_all
  have "\<not> (4 \<le> length (map code s) \<and> map code s ! 0 = 0)" "\<not> (4 \<le> length (map code s) \<and> map code s ! 1 = 0)"
    "\<not> (length (map code s) = 2 \<and> map code s ! 0 = 0)" "\<not> (length (map code s) = 2 \<and> map code s ! 1 = 0)"
    unfolding length_map using at by linarith+
  moreover have "\<not> prefix [0, 0, 254, 255] (map code s)" "\<not> prefix [255, 254, 0, 0] (map code s)"
    "\<not> prefix [254, 255] (map code s)" "\<not> prefix [255, 254] (map code s)"
    "\<not> prefix [239, 187, 191] (map code s)" by (rule no; simp)+
  ultimately show ?thesis
    unfolding json_bytes_def Let_def by (simp only: if_False utf8_printable [OF assms] simp_thms)
qed

lemma debug_json_segment: "json_ok v \<Longrightarrow> debug_segment (json_segment v) = Some v"
  by (simp add: debug_segment_def json_segment_def b64decode_b64url
      json_bytes_printable [OF printable_dumps] loads_dumps)

lemma reference_jwt_compact: "compact_tokens reference_jwt"
proof -
  have "split_on CHR ''.'' (ref_encode h c k) =
      [json_segment (JObj h), json_segment (JObj c), ref_signature k]" for h c k
    by (rule split_ref_encode)
  then show ?thesis
    unfolding compact_tokens_def reference_jwt_def by (auto simp: debug_json_segment)
qed

text \<open>What the decoder says of a token signed with any key at all.\<close>

lemma debug_decode_signed:
  assumes "compact_tokens L" and "claims_ok c"
  shows "debug_decode L failure ks (sign L c k) = Inr (JObj
    [(''header'', JObj (sign_header k)), (''payload'', JObj c),
     (''signature_validated_against_published_key'',
      JBool (verify_token L (sign L c k) (all_jwks_keys ks) \<noteq> None))])"
proof -
  have "json_ok (JObj (sign_header k))" using sign_header_ok [of k] by (simp add: header_for_def)
  with assms obtain a b sg where "split_on CHR ''.'' (sign L c k) = [a, b, sg]"
    "debug_segment a = Some (JObj (sign_header k))" "debug_segment b = Some (JObj c)"
    unfolding compact_tokens_def sign_def json_ok_JObj by blast
  then show ?thesis by (simp add: debug_decode_def)
qed

lemma all_jwks_keys_member:
  assumes "key_store_inv s"
  shows "k \<in> set (all_jwks_keys s) \<longleftrightarrow>
    (\<exists>i ik. dget (ks_stores s) i = Some ik \<and> k \<in> set (ik_jwks_keys ik))"
proof -
  have "(i, ik) \<in> set (ks_stores s) \<longleftrightarrow> dget (ks_stores s) i = Some ik" for i ik
    using assms unfolding key_store_inv_def by (intro map_of_eq_Some_iff [symmetric]) (simp add: dict_ok_def)
  then show ?thesis by (auto simp: all_jwks_keys_def)
qed

lemma verify_all_keys:
  assumes L: "jwt_lawful L" and inv: "key_store_inv s" and ok: "claims_ok c"
  shows "verify_token L (sign L c k) (all_jwks_keys s) \<noteq> None \<Longrightarrow>
      \<exists>i ik. dget (ks_stores s) i = Some ik \<and> jwk_material k \<in> jwk_material ` set (ik_jwks_keys ik)"
    and "dget (ks_stores s) i = Some ik \<Longrightarrow> k \<in> set (ik_jwks_keys ik) \<Longrightarrow>
      distinct (map jwk_kid (all_jwks_keys s)) \<Longrightarrow> verify_token L (sign L c k) (all_jwks_keys s) \<noteq> None"
proof -
  assume "verify_token L (sign L c k) (all_jwks_keys s) \<noteq> None"
  then have "jwk_material k \<in> jwk_material ` set (all_jwks_keys s)"
    using verify_foreign [OF L, of k "all_jwks_keys s" c] by argo
  then obtain l where "jwk_material k = jwk_material l" "l \<in> set (all_jwks_keys s)" by blast
  moreover from this(2) obtain i ik where "dget (ks_stores s) i = Some ik" "l \<in> set (ik_jwks_keys ik)"
    unfolding all_jwks_keys_member [OF inv] by blast
  ultimately show "\<exists>i ik. dget (ks_stores s) i = Some ik \<and> jwk_material k \<in> jwk_material ` set (ik_jwks_keys ik)"
    by auto
next
  assume "dget (ks_stores s) i = Some ik" "k \<in> set (ik_jwks_keys ik)"
    and d: "distinct (map jwk_kid (all_jwks_keys s))"
  then have "k \<in> set (all_jwks_keys s)" unfolding all_jwks_keys_member [OF inv] by blast
  from verify_signed [OF L ok this d] show "verify_token L (sign L c k) (all_jwks_keys s) \<noteq> None" by simp
qed

text \<open>The other keys of an issuer are published nowhere.\<close>

lemma alt_not_published:
  assumes inv: "key_store_inv s" and i: "dget (ks_stores s) i = Some ik"
    and j: "dget (ks_stores s) j = Some jk"
  shows "jwk_material (ik_alt_key_for_alg ik a) \<notin> jwk_material ` set (ik_jwks_keys jk)"
proof (cases "i = j")
  case True
  with i j have "jk = ik" by simp
  with alt_not_in_jwks [OF key_store_invD(1) [OF inv i], of a] show ?thesis by simp
next
  case False
  have "jwk_material (ik_alt_key_for_alg ik a) \<in> set (ik_materials ik)"
    by (simp add: ik_alt_key_for_alg_def ik_materials_def ik_keys_def)
  with key_store_inv_disjoint [OF inv False i j] jwks_materials [of jk] show ?thesis by blast
qed

text \<open>
  C36: What the decoder page says of a token the program signed with any key. It shows the header
  (algorithm, type, kid) and the claims exactly; it says the signature is validated only if the key
  is published by a known issuer, always if it is and the kids of all issuers differ, and never for
  the keys of the wrong-signature fixtures.
\<close>
theorem debug_decode_flag:
  assumes "jwt_lawful L" and "compact_tokens L" and "key_store_inv s" and "claims_ok c"
  shows "\<exists>flag. debug_decode L failure s (sign L c k) = Inr (JObj
        [(''header'', JObj (sign_header k)), (''payload'', JObj c),
         (''signature_validated_against_published_key'', JBool flag)]) \<and>
      (flag \<longrightarrow> (\<exists>i ik. dget (ks_stores s) i = Some ik \<and>
         jwk_material k \<in> jwk_material ` set (ik_jwks_keys ik))) \<and>
      (dget (ks_stores s) i = Some ik \<longrightarrow> k \<in> set (ik_jwks_keys ik) \<longrightarrow>
         distinct (map jwk_kid (all_jwks_keys s)) \<longrightarrow> flag) \<and>
      (dget (ks_stores s) i = Some ik \<longrightarrow> k = ik_alt_key_for_alg ik a \<longrightarrow> \<not> flag)"
proof (rule exI [of _ "verify_token L (sign L c k) (all_jwks_keys s) \<noteq> None"], intro conjI impI)
  show "debug_decode L failure s (sign L c k) = Inr (JObj
    [(''header'', JObj (sign_header k)), (''payload'', JObj c),
     (''signature_validated_against_published_key'',
      JBool (verify_token L (sign L c k) (all_jwks_keys s) \<noteq> None))])"
    by (rule debug_decode_signed [OF assms(2,4)])
  show "\<exists>i ik. dget (ks_stores s) i = Some ik \<and> jwk_material k \<in> jwk_material ` set (ik_jwks_keys ik)"
    if "verify_token L (sign L c k) (all_jwks_keys s) \<noteq> None"
    by (rule verify_all_keys(1) [OF assms(1,3,4) that])
  show "verify_token L (sign L c k) (all_jwks_keys s) \<noteq> None"
    if "dget (ks_stores s) i = Some ik" "k \<in> set (ik_jwks_keys ik)"
      "distinct (map jwk_kid (all_jwks_keys s))"
    by (rule verify_all_keys(2) [OF assms(1,3,4) that])
  show "\<not> verify_token L (sign L c k) (all_jwks_keys s) \<noteq> None"
    if "dget (ks_stores s) i = Some ik" "k = ik_alt_key_for_alg ik a"
    using verify_all_keys(1) [OF assms(1,3,4)] alt_not_published [OF assms(3) that(1)] that(2) by blast
qed

text \<open>
  Kids do not identify keys across issuers: as long as the issuer \<open>x-ec\<close> has not been rotated,
  its RS256 signing key has the kid of the ES256 key of the issuer \<open>x\<close>, and the decoder page looks
  both up in one key set.
\<close>
lemma kids_collide_across_issuers:
  assumes inv: "key_store_inv s" and x: "key_get x s = (ik, s1)"
    and y: "key_get (x @ ''-ec'') s1 = (jk, s2)" and seq: "ik_seq jk = 1"
  shows "ik_ec_signing ik \<in> set (all_jwks_keys s2) \<and> ik_signing jk \<in> set (all_jwks_keys s2) \<and>
    jwk_kid (ik_ec_signing ik) = jwk_kid (ik_signing jk) \<and> ik_ec_signing ik \<noteq> ik_signing jk"
proof -
  have inv1: "key_store_inv s1" by (rule key_get_inv [OF inv x])
  have inv2: "key_store_inv s2" by (rule key_get_inv [OF inv1 y])
  have st: "dget (ks_stores s2) x = Some ik" "dget (ks_stores s2) (x @ ''-ec'') = Some jk"
    using key_get_preserves [OF y key_get_stored [OF x]] key_get_stored [OF y] by simp_all
  have "ik_ec_signing ik \<in> set (ik_jwks_keys ik)" "ik_signing jk \<in> set (ik_jwks_keys jk)"
    by (simp_all add: ik_jwks_keys_def)
  with st have "ik_ec_signing ik \<in> set (all_jwks_keys s2)" "ik_signing jk \<in> set (all_jwks_keys s2)"
    using all_jwks_keys_member [OF inv2] by blast+
  moreover have "issuer_keys_ok x ik" "issuer_keys_ok (x @ ''-ec'') jk"
    using key_store_invD(1) [OF inv2] st by simp_all
  ultimately show ?thesis
    by (auto simp: issuer_keys_ok_def has_key_def seq kid_prefix_def int_str_1)
qed

section \<open>On a concrete process\<close>

lemma debug_decode_flag_witness:
  "let k = ik_alt (bundle_at ''acme'' (\<lambda>n. n) 0); c = [(''sub'', JStr ''alice'')];
       s = snd (key_get ''acme'' demo_keys)
   in debug_decode reference_jwt (\<lambda>_. []) s (sign reference_jwt c k) = Inr (JObj
        [(''header'', JObj (sign_header k)), (''payload'', JObj c),
         (''signature_validated_against_published_key'', JBool False)])"
proof -
  let ?ik = "bundle_at ''acme'' (\<lambda>n. n) 0"
  obtain ik s where g: "key_get ''acme'' demo_keys = (ik, s)" by (cases "key_get ''acme'' demo_keys")
  have "dget (ks_stores demo_keys) ''acme'' = None" by (simp add: demo_keys_def)
  with g have ik: "ik = ?ik" by (simp add: key_get_miss demo_keys_def)
  have inv: "key_store_inv s" by (rule key_get_inv [OF demo_keys_inv g])
  have st: "dget (ks_stores s) ''acme'' = Some ?ik" using key_get_stored [OF g] ik by simp
  have alt: "ik_alt ?ik = ik_alt_key_for_alg ?ik ''RS256''" by (simp add: ik_alt_key_for_alg_def)
  have "claims_ok [(''sub'', JStr ''alice'')]" by (simp add: claims_ok_def dict_ok_def)
  from debug_decode_flag [OF reference_jwt_lawful reference_jwt_compact inv this,
      of "\<lambda>_. []" "ik_alt ?ik" "''acme''" ?ik "''RS256''"] st alt
  show ?thesis unfolding Let_def g snd_conv by auto
qed

lemma kids_collide_across_issuers_witness:
  "let (ik, s1) = key_get ''acme'' (empty_key_store id); (jk, s2) = key_get (''acme'' @ ''-ec'') s1 in
    ik_ec_signing ik \<in> set (all_jwks_keys s2) \<and> ik_signing jk \<in> set (all_jwks_keys s2) \<and>
    jwk_kid (ik_ec_signing ik) = jwk_kid (ik_signing jk) \<and> ik_ec_signing ik \<noteq> ik_signing jk"
proof -
  let ?s = "empty_key_store id"
  obtain ik s1 where x: "key_get ''acme'' ?s = (ik, s1)" by (cases "key_get ''acme'' ?s")
  obtain jk s2 where y: "key_get (''acme'' @ ''-ec'') s1 = (jk, s2)"
    by (cases "key_get (''acme'' @ ''-ec'') s1")
  have "dget (ks_stores s1) (''acme'' @ ''-ec'') = None"
    using key_get_other [OF x, of "''acme'' @ ''-ec''"] by (simp add: empty_key_store_def)
  with y have "ik_seq jk = 1" by (auto simp: key_get_miss bundle_at_def)
  from kids_collide_across_issuers [OF key_store_inv_empty [OF inj_on_id] x y this] show ?thesis
    unfolding Let_def x y prod.case .
qed

end
