(* ===== verification/Routes.thy ===== *)
theory Routes
  imports Debug
begin

text \<open>
  How \<open>main.py\<close> puts the application together: the routes of the routers in the order they are
  included, the rate limit \<open>ratelimit.py\<close> selects, and the page of \<open>routers/playground.py\<close>. Which
  route serves a request is decided by Starlette, a parameter whose documented behaviour is
  \<open>router_lawful\<close>: the routes are tried in order, and the first one whose method and path fit wins.
\<close>

section \<open>Rate limiting and the playground\<close>

definition rate_limit_setting :: "os_env \<Rightarrow> string" where
  "rate_limit_setting os = py_strip (getenv os ''MOCK_IDP_RATE_LIMIT'' [])"

text \<open>\<open>ENABLED\<close>: a limit is set and slowapi can be imported.\<close>

definition rate_limit_enabled :: "bool \<Rightarrow> os_env \<Rightarrow> bool" where
  "rate_limit_enabled slowapi_installed os = (rate_limit_setting os \<noteq> [] \<and> slowapi_installed)"

text \<open>
  \<open>_rate_limit_handler\<close>: the answer to a request slowapi refused, of the text of the exception and,
  when it has one, its \<open>retry_after\<close>: status, content and headers.
\<close>

definition rate_limit_handler :: "string \<Rightarrow> string option \<Rightarrow> int \<times> json \<times> (string \<times> string) list" where
  "rate_limit_handler detail retry_after =
     (429, JObj [(''error'', JStr ''rate_limit_exceeded''), (''detail'', JStr detail)],
      [(''Retry-After'', case retry_after of None \<Rightarrow> ''60'' | Some v \<Rightarrow> v)])"

definition playground :: "os_env \<Rightarrow> string \<Rightarrow> py_exn + string" where
  "playground os path =
     (case os_read os path of
        FileMissing \<Rightarrow> Inr (''<h1>Mock IDP</h1>'' @
          ''<p>Playground HTML not bundled. '' @
          ''See /docs for the API, /debug/identities for the loaded store.</p>'')
      | FileText s \<Rightarrow> Inr s
      | FileOSError m \<Rightarrow> Inl (LibraryError m)
      | FileValueError m \<Rightarrow> Inl (ValueError m))"

section \<open>Routes\<close>

text \<open>The handlers by the names they have in their routers.\<close>

datatype endpoint = Oidc string | Hosted string | Debug string | Admin string | Playground string

record route =
  rt_method :: string
  rt_path :: string
  rt_endpoint :: endpoint

definition route :: "string \<Rightarrow> string \<Rightarrow> endpoint \<Rightarrow> route" where
  "route m p e = \<lparr>rt_method = m, rt_path = p, rt_endpoint = e\<rparr>"

definition oidc_routes :: "route list" where
  "oidc_routes =
     [route ''GET'' ''/healthz'' (Oidc ''healthz''),
      route ''GET'' ''/{issuer}/.well-known/openid-configuration'' (Oidc ''discovery''),
      route ''GET'' ''/{issuer}/jwks'' (Oidc ''jwks''),
      route ''POST'' ''/{issuer}/token'' (Oidc ''token''),
      route ''POST'' ''/{issuer}/token/wrong-sig'' (Oidc ''token_wrong_sig''),
      route ''POST'' ''/{issuer}/token/unsigned'' (Oidc ''token_unsigned''),
      route ''POST'' ''/{issuer}/token/wrong-alg'' (Oidc ''token_wrong_alg''),
      route ''GET'' ''/{issuer}/token/malformed'' (Oidc ''token_malformed''),
      route ''POST'' ''/{issuer}/introspect'' (Oidc ''introspect''),
      route ''GET'' ''/{issuer}/userinfo'' (Oidc ''userinfo'')]"

definition hosted_routes :: "route list" where
  "hosted_routes =
     [route ''GET'' ''/{org}/{issuer}/.well-known/openid-configuration'' (Hosted ''hosted_discovery''),
      route ''GET'' ''/{org}/{issuer}/jwks'' (Hosted ''hosted_jwks''),
      route ''POST'' ''/{org}/{issuer}/token'' (Hosted ''hosted_token''),
      route ''POST'' ''/{org}/{issuer}/introspect'' (Hosted ''hosted_introspect''),
      route ''GET'' ''/{org}/{issuer}/userinfo'' (Hosted ''hosted_userinfo''),
      route ''POST'' ''/{org}/{issuer}/token/wrong-sig'' (Hosted ''hosted_token_wrong_sig''),
      route ''GET'' ''/{org}/{issuer}/token/malformed'' (Hosted ''hosted_token_malformed'')]"

definition with_prefix :: "string \<Rightarrow> route list \<Rightarrow> route list" where
  "with_prefix p = map (\<lambda>r. r\<lparr>rt_path := p @ rt_path r\<rparr>)"

definition debug_routes :: "route list" where
  "debug_routes = with_prefix ''/debug''
     [route ''POST'' ''/decode'' (Debug ''debug_decode''),
      route ''GET'' ''/identities'' (Debug ''debug_identities''),
      route ''GET'' ''/config'' (Debug ''debug_config'')]"

definition admin_routes :: "route list" where
  "admin_routes = with_prefix ''/admin''
     [route ''POST'' ''/rotate-jwks'' (Admin ''admin_rotate''),
      route ''POST'' ''/reload-config'' (Admin ''admin_reload''),
      route ''GET'' ''/audit'' (Admin ''admin_audit''),
      route ''GET'' ''/chaos'' (Admin ''admin_list_chaos''),
      route ''POST'' ''/chaos/{issuer}'' (Admin ''admin_set_chaos''),
      route ''DELETE'' ''/chaos/{issuer}'' (Admin ''admin_clear_chaos''),
      route ''POST'' ''/orgs'' (Admin ''admin_create_org''),
      route ''GET'' ''/orgs'' (Admin ''admin_list_orgs''),
      route ''DELETE'' ''/orgs/{slug}'' (Admin ''admin_delete_org''),
      route ''PUT'' ''/orgs/{slug}/config'' (Admin ''admin_push_config'')]"

definition playground_routes :: "route list" where
  "playground_routes = [route ''GET'' ''/'' (Playground ''playground'')]"

definition app_routes :: "bool \<Rightarrow> route list" where
  "app_routes hosted =
     (if hosted then hosted_routes else []) @
     oidc_routes @ debug_routes @ admin_routes @ playground_routes"

text \<open>
  A path fits a template when they have as many segments, a parameter standing for any segment that
  is not empty.
\<close>

definition is_parameter :: "string \<Rightarrow> bool" where
  "is_parameter seg = (prefix ''{'' seg \<and> suffix ''}'' seg)"

definition segment_fits :: "string \<Rightarrow> string \<Rightarrow> bool" where
  "segment_fits t seg = (if is_parameter t then seg \<noteq> [] else seg = t)"

definition path_fits :: "string \<Rightarrow> string \<Rightarrow> bool" where
  "path_fits template path = list_all2 segment_fits (split_on CHR ''/'' template) (split_on CHR ''/'' path)"

definition fits :: "string \<Rightarrow> string \<Rightarrow> route \<Rightarrow> bool" where
  "fits m path r = (rt_method r = m \<and> path_fits (rt_path r) path)"

definition router_lawful :: "(route list \<Rightarrow> string \<Rightarrow> string \<Rightarrow> endpoint option) \<Rightarrow> bool" where
  "router_lawful serve =
     (\<forall>rs m path. serve rs m path = map_option rt_endpoint (find (fits m path) rs))"

section \<open>Which routes can fit one request\<close>

definition segments_meet :: "string \<Rightarrow> string \<Rightarrow> bool" where
  "segments_meet t u = (is_parameter t \<or> is_parameter u \<or> t = u)"

definition routes_meet :: "route \<Rightarrow> route \<Rightarrow> bool" where
  "routes_meet r r' =
     (rt_method r = rt_method r' \<and>
      list_all2 segments_meet (split_on CHR ''/'' (rt_path r)) (split_on CHR ''/'' (rt_path r')))"

lemma fits_meet:
  assumes "fits m path r" and "fits m path r'"
  shows "routes_meet r r'"
proof -
  have "list_all2 segments_meet ts us" if "list_all2 segment_fits ts ws" "list_all2 segment_fits us ws" for ts us ws
    using that
  proof (induction ts ws arbitrary: us rule: list_all2_induct)
    case (Cons t ts w ws)
    then obtain u us' where "us = u # us'" "segment_fits u w" "list_all2 segment_fits us' ws"
      by (auto simp: list_all2_Cons2)
    with Cons show ?case by (auto simp: segment_fits_def segments_meet_def split: if_splits)
  qed simp
  with assms show ?thesis by (auto simp: fits_def path_fits_def routes_meet_def)
qed

lemma find_fits:
  assumes "r \<in> set rs" and "fits m path r"
  obtains r' where "r' \<in> set rs" "find (fits m path) rs = Some r'" "fits m path r'"
proof (cases "find (fits m path) rs")
  case None
  with assms show ?thesis by (auto simp: find_None_iff)
next
  case (Some r')
  then show ?thesis using that [of r'] by (auto simp: find_Some_iff)
qed

text \<open>The pairs of routes of different endpoints that some request may fit.\<close>

definition clashes_of :: "route list \<Rightarrow> (endpoint \<times> endpoint) list" where
  "clashes_of rs =
     [(rt_endpoint r, rt_endpoint r'). r \<leftarrow> rs, r' \<leftarrow> rs,
        rt_endpoint r \<noteq> rt_endpoint r' \<and> routes_meet r r']"

lemma clashes_ofI:
  "r \<in> set rs \<Longrightarrow> r' \<in> set rs \<Longrightarrow> rt_endpoint r \<noteq> rt_endpoint r' \<Longrightarrow> routes_meet r r' \<Longrightarrow>
   (rt_endpoint r, rt_endpoint r') \<in> set (clashes_of rs)"
  by (auto simp: clashes_of_def)

lemma app_clashes:
  "clashes_of (app_routes False) = []"
  "clashes_of (app_routes True) =
     [(Hosted ''hosted_token'', Admin ''admin_set_chaos''),
      (Hosted ''hosted_introspect'', Admin ''admin_set_chaos''),
      (Admin ''admin_set_chaos'', Hosted ''hosted_token''),
      (Admin ''admin_set_chaos'', Hosted ''hosted_introspect'')]"
  by code_simp+

section \<open>Routing\<close>

lemma chaos_served:
  "map_option rt_endpoint (find (fits ''POST'' ''/admin/chaos/token'') (app_routes False)) =
     Some (Admin ''admin_set_chaos'')"
  "map_option rt_endpoint (find (fits ''POST'' ''/admin/chaos/introspect'') (app_routes False)) =
     Some (Admin ''admin_set_chaos'')"
  "map_option rt_endpoint (find (fits ''POST'' ''/admin/chaos/token'') (app_routes True)) =
     Some (Hosted ''hosted_token'')"
  "map_option rt_endpoint (find (fits ''POST'' ''/admin/chaos/introspect'') (app_routes True)) =
     Some (Hosted ''hosted_introspect'')"
  by code_simp+

lemma clashing_paths:
  "list_all (\<lambda>r. rt_endpoint r = Admin ''admin_set_chaos'' \<longrightarrow> rt_path r = ''/admin/chaos/{issuer}'')
     (app_routes True)"
  "list_all (\<lambda>r. rt_endpoint r = Hosted ''hosted_token'' \<longrightarrow> rt_path r = ''/{org}/{issuer}/token'')
     (app_routes True)"
  "list_all (\<lambda>r. rt_endpoint r = Hosted ''hosted_introspect'' \<longrightarrow> rt_path r = ''/{org}/{issuer}/introspect'')
     (app_routes True)"
  "list_all (\<lambda>r. rt_endpoint r = Admin ''admin_set_chaos'' \<longrightarrow> rt_method r = ''POST'') (app_routes True)"
  by code_simp+

lemma chaos_path:
  assumes "path_fits ''/admin/chaos/{issuer}'' path" and "path_fits (''/{org}/{issuer}/'' @ x) path"
    and "x \<in> {''token'', ''introspect''}"
  shows "path = ''/admin/chaos/'' @ x"
proof -
  have "split_on CHR ''/'' path = [[], ''admin'', ''chaos'', x]"
    using assms by (auto simp: path_fits_def list_all2_Cons1 segment_fits_def is_parameter_def suffix_def)
  then have "path = py_join ''/'' [[], ''admin'', ''chaos'', x]" by (metis join_split_on)
  then show ?thesis by simp
qed

lemma chaos_clash:
  assumes r: "r \<in> set (app_routes True)" "fits m path r" and r': "r' \<in> set (app_routes True)" "fits m path r'"
    and "rt_endpoint r = Admin ''admin_set_chaos''" and "rt_endpoint r' = Hosted (''hosted_'' @ x)"
    and x: "x \<in> {''token'', ''introspect''}"
  shows "m = ''POST'' \<and> path = ''/admin/chaos/'' @ x"
proof -
  have "rt_path r = ''/admin/chaos/{issuer}''" "rt_method r = ''POST''" "rt_path r' = ''/{org}/{issuer}/'' @ x"
    using clashing_paths assms unfolding list_all_iff by auto
  with r(2) r'(2) show ?thesis using chaos_path [OF _ _ x] by (simp add: fits_def)
qed

lemma served_route:
  assumes serve: "router_lawful serve" and r: "r \<in> set (app_routes hosted)" "fits m path r"
    and other: "\<not> (hosted \<and> m = ''POST'' \<and> path \<in> {''/admin/chaos/token'', ''/admin/chaos/introspect''})"
  shows "serve (app_routes hosted) m path = Some (rt_endpoint r)"
proof -
  obtain r' where r': "r' \<in> set (app_routes hosted)" "find (fits m path) (app_routes hosted) = Some r'" "fits m path r'"
    using find_fits [OF r] .
  have "rt_endpoint r' = rt_endpoint r"
  proof (rule ccontr)
    assume "rt_endpoint r' \<noteq> rt_endpoint r"
    then have c: "(rt_endpoint r, rt_endpoint r') \<in> set (clashes_of (app_routes hosted))"
      using clashes_ofI [OF r(1) r'(1)] fits_meet [OF r(2) r'(3)] by metis
    then have hosted: "hosted" by (cases hosted) (simp_all add: app_clashes)
    with c obtain x where x: "x \<in> {''token'', ''introspect''}"
      and "rt_endpoint r = Admin ''admin_set_chaos'' \<and> rt_endpoint r' = Hosted (''hosted_'' @ x) \<or>
        rt_endpoint r' = Admin ''admin_set_chaos'' \<and> rt_endpoint r = Hosted (''hosted_'' @ x)"
      by (auto simp: app_clashes)
    then have "m = ''POST'' \<and> path = ''/admin/chaos/'' @ x"
      using chaos_clash [OF _ r(2) _ r'(3) _ _ x] chaos_clash [OF _ r'(3) _ r(2) _ _ x] r(1) r'(1) hosted
      by auto
    with other hosted x show False by auto
  qed
  with serve r'(2) show ?thesis by (simp add: router_lawful_def)
qed

text \<open>
  C38: what \<open>main.py\<close> mounts does not get into each other's way, but for one route. A request that
  fits a route of some router is served by that route whatever the order of inclusion, except that
  in the hosted mode a fault for an issuer named \<open>token\<close> or \<open>introspect\<close> cannot be set: the hosted
  router, which comes first, takes \<open>admin\<close> for an organisation and \<open>chaos\<close> for its issuer.
\<close>
theorem routing:
  assumes "router_lawful serve"
  shows "(\<forall>hosted. \<forall>r \<in> set (app_routes hosted). \<forall>m path. fits m path r \<longrightarrow>
      \<not> (hosted \<and> m = ''POST'' \<and> path \<in> {''/admin/chaos/token'', ''/admin/chaos/introspect''}) \<longrightarrow>
      serve (app_routes hosted) m path = Some (rt_endpoint r)) \<and>
    (\<forall>x \<in> {''token'', ''introspect''}.
      serve (app_routes False) ''POST'' (''/admin/chaos/'' @ x) = Some (Admin ''admin_set_chaos'') \<and>
      serve (app_routes True) ''POST'' (''/admin/chaos/'' @ x) = Some (Hosted (''hosted_'' @ x)))"
proof (intro conjI ballI allI impI)
  show "serve (app_routes hosted) m path = Some (rt_endpoint r)"
    if "r \<in> set (app_routes hosted)" "fits m path r"
      "\<not> (hosted \<and> m = ''POST'' \<and> path \<in> {''/admin/chaos/token'', ''/admin/chaos/introspect''})"
    for hosted r m path
    using served_route [OF assms that] .
  fix x assume x: "x \<in> {''token'', ''introspect''}"
  show "serve (app_routes False) ''POST'' (''/admin/chaos/'' @ x) = Some (Admin ''admin_set_chaos'')"
    "serve (app_routes True) ''POST'' (''/admin/chaos/'' @ x) = Some (Hosted (''hosted_'' @ x))"
    using x assms chaos_served by (auto simp: router_lawful_def)
qed

lemma routing_witness:
  "(\<lambda>rs m path. map_option rt_endpoint (find (fits m path) rs)) (app_routes True) ''POST'' ''/acme/main/token'' =
     Some (Hosted ''hosted_token'')"
proof -
  have "router_lawful (\<lambda>rs m path. map_option rt_endpoint (find (fits m path) rs))" by (simp add: router_lawful_def)
  from routing [OF this, THEN conjunct1]
  have served: "\<And>r. r \<in> set (app_routes True) \<Longrightarrow> fits ''POST'' ''/acme/main/token'' r \<Longrightarrow>
      map_option rt_endpoint (find (fits ''POST'' ''/acme/main/token'') (app_routes True)) = Some (rt_endpoint r)"
    by simp
  let ?r = "route ''POST'' ''/{org}/{issuer}/token'' (Hosted ''hosted_token'')"
  have "?r \<in> set (app_routes True)" "fits ''POST'' ''/acme/main/token'' ?r" by code_simp+
  from served [OF this] show ?thesis by (simp add: route_def)
qed

end
