(* ===== verification/OrgRace.thy ===== *)
theory OrgRace
  imports OrgResolver
begin

text \<open>
  \<open>_load_or_create\<close> as the event loop runs it: a task gives up control at every \<open>await\<close>, so the
  tasks of one process interleave between the cache check, the query, the creation of a bundle, its
  upsert and the caching. A slice is the work of one task up to its next \<open>await\<close>, or one statement
  of the database on its behalf; a schedule says whose slice is next. Run alone, a task computes
  what \<open>load_or_create\<close> says; two first requests for one issuer lose each other's keys.
\<close>

section \<open>Slices\<close>

datatype load_pc =
    CheckCache
  | Selecting
  | Fetched "string option"
  | Upserting issuer_keys
  | Persisted issuer_keys
  | Loaded issuer_keys
  | Failed py_exn

definition cached :: "string \<Rightarrow> issuer_keys \<Rightarrow> org_keys \<Rightarrow> load_pc \<times> org_keys" where
  "cached issuer ik s = (Loaded ik, s\<lparr>ok_cache := dset (ok_cache s) issuer ik\<rparr>)"

fun load_slice :: "key_codec \<Rightarrow> string \<Rightarrow> string \<Rightarrow> load_pc \<times> org_keys \<Rightarrow> load_pc \<times> org_keys" where
  "load_slice C org issuer (CheckCache, s) =
     (case dget (ok_cache s) issuer of Some ik \<Rightarrow> (Loaded ik, s) | None \<Rightarrow> (Selecting, s))"
| "load_slice C org issuer (Selecting, s) =
     (case dbP (select_key_data org issuer) s of
        (Inl e, s') \<Rightarrow> (Failed e, s') | (Inr row, s') \<Rightarrow> (Fetched row, s'))"
| "load_slice C org issuer (Fetched (Some text), s) =
     (case deserialize_issuer_keys C issuer (JsonbText text) of
        Inl e \<Rightarrow> (Failed e, s) | Inr ik \<Rightarrow> cached issuer ik s)"
| "load_slice C org issuer (Fetched None, s) =
     (case new_issuer_keys (org @ ''/'' @ issuer) s of (ik, s') \<Rightarrow> (Upserting ik, s'))"
| "load_slice C org issuer (Upserting ik, s) =
     (case persist C org issuer ik s of
        (Inl e, s') \<Rightarrow> (Failed e, s') | (Inr _, s') \<Rightarrow> (Persisted ik, s'))"
| "load_slice C org issuer (Persisted ik, s) = cached issuer ik s"
| "load_slice C org issuer (Loaded ik, s) = (Loaded ik, s)"
| "load_slice C org issuer (Failed e, s) = (Failed e, s)"

text \<open>The tasks all load the same issuer.\<close>

fun run_tasks ::
  "key_codec \<Rightarrow> string \<Rightarrow> string \<Rightarrow> nat list \<Rightarrow> (nat \<Rightarrow> load_pc) \<times> org_keys \<Rightarrow> (nat \<Rightarrow> load_pc) \<times> org_keys" where
  "run_tasks C org issuer [] st = st"
| "run_tasks C org issuer (t # ts) (pcs, s) =
     (case load_slice C org issuer (pcs t, s) of (pc, s') \<Rightarrow> run_tasks C org issuer ts (pcs(t := pc), s'))"

section \<open>One task alone\<close>

definition task_result :: "(py_exn + issuer_keys) \<times> org_keys \<Rightarrow> load_pc \<times> org_keys" where
  "task_result rs = (case rs of (Inl e, s) \<Rightarrow> (Failed e, s) | (Inr ik, s) \<Rightarrow> (Loaded ik, s))"

text \<open>
  A task that is not interrupted computes \<open>_load_or_create\<close>: after at most five slices it has
  returned, or failed with, exactly what the sequential model says, in the same state. On a working
  database it does not fail.
\<close>
lemma uninterrupted_load:
  "(load_slice C org issuer ^^ 5) (CheckCache, s) = task_result (load_or_create C org issuer s)"
proof (cases "dget (ok_cache s) issuer")
  case (Some ik)
  then show ?thesis by (simp add: load_or_create_def bindP_apply task_result_def numeral_nat)
next
  case None
  obtain r s1 where sel: "dbP (select_key_data org issuer) s = (r, s1)"
    by (cases "dbP (select_key_data org issuer) s")
  show ?thesis
  proof (cases r)
    case (Inl e)
    with None sel show ?thesis by (simp add: load_or_create_def bindP_apply task_result_def numeral_nat)
  next
    case row: (Inr row)
    show ?thesis
    proof (cases row)
      case (Some cell)
      then show ?thesis using None sel row
        by (cases "deserialize_issuer_keys C issuer (JsonbText cell)")
          (simp_all add: load_or_create_def bindP_apply task_result_def numeral_nat cached_def cacheP_def)
    next
      case new: None
      obtain ik s2 where ik: "new_issuer_keys (org @ ''/'' @ issuer) s1 = (ik, s2)"
        by (cases "new_issuer_keys (org @ ''/'' @ issuer) s1")
      obtain q s3 where "persist C org issuer ik s2 = (q, s3)" by (cases "persist C org issuer ik s2")
      then show ?thesis using None sel row new ik
        by (cases q) (simp_all add: load_or_create_def bindP_apply task_result_def numeral_nat cached_def
          cacheP_def callP_apply)
    qed
  qed
qed

section \<open>Two tasks\<close>

text \<open>Both check, query and create before either has stored; the first to store is the last to cache.\<close>

definition losing_schedule :: "nat list" where
  "losing_schedule = [0, 1, 0, 1, 0, 1, 0, 1, 1, 0]"

lemma bundle_materials_disjoint:
  assumes "inj g"
  shows "set (ik_materials (bundle_at l g n)) \<inter> set (ik_materials (bundle_at l g (n + 6))) = {}"
  using assms by (auto simp: bundle_at_materials inj_eq)

lemma signed_elsewhere:
  assumes "jwt_lawful L" and "set (ik_materials ik) \<inter> set (ik_materials jk) = {}"
  shows "verify_token L (sign L c (ik_signing_key_for_alg ik a)) (ik_jwks_keys jk) = None"
  using assms signing_key_material [of ik a] jwks_materials [of jk] by (intro verify_foreign) auto

lemma losing_run:
  assumes inv: "org_keys_inv C org B s"
    and new: "dget (ok_cache s) i = None" "dget (db_org_jwks (ok_db s)) (org, i) = None"
  defines "A \<equiv> bundle_at (org @ ''/'' @ i) (ks_gen s) (ks_drawn s)"
    and "A' \<equiv> bundle_at (org @ ''/'' @ i) (ks_gen s) (ks_drawn s + 6)"
  obtains pcs s' where "run_tasks C org i losing_schedule (\<lambda>_. CheckCache, s) = (pcs, s')"
    and "pcs 0 = Loaded A" and "pcs 1 = Loaded A'" and "dget (ok_cache s') i = Some A"
    and "stored_bundle C (ok_db s') org i (A'\<lparr>ik_issuer := i\<rparr>)" and "db_healthy (ok_db s')"
proof -
  have C: "codec_lawful C" and db: "keys_db_ok C org (ok_db s)" and inj: "inj (ks_gen s)"
    using inv by (simp_all add: org_keys_inv_def)
  have types: "bundle_types_ok A" "bundle_types_ok A'"
    unfolding A_def A'_def by (rule org_bundle_types [OF org_bundle_new [OF inj]])+
  let ?n = "db_statements (ok_db s)"
  let ?s2 = "s\<lparr>ks_drawn := ks_drawn s + 6 + 6, ok_db := (ok_db s)\<lparr>db_statements := Suc (Suc ?n)\<rparr>\<rparr>"
  have db2: "keys_db_ok C org (ok_db ?s2)" using keys_db_ok_counter [OF db] by simp
  from persist_ok [OF C db2 types(1)] obtain t where t:
    "persist C org i A ?s2 = (Inr (), ?s2\<lparr>ok_db := (ok_db ?s2)\<lparr>db_statements := Suc (db_statements (ok_db ?s2)),
       db_org_jwks := dset (db_org_jwks (ok_db ?s2)) (org, i) t\<rparr>\<rparr>)"
    "deserialize_issuer_keys C i (JsonbText t) = Inr (A\<lparr>ik_issuer := i\<rparr>)" .
  let ?s3 = "?s2\<lparr>ok_db := (ok_db ?s2)\<lparr>db_statements := Suc (db_statements (ok_db ?s2)),
       db_org_jwks := dset (db_org_jwks (ok_db ?s2)) (org, i) t\<rparr>\<rparr>"
  have db3: "keys_db_ok C org (ok_db ?s3)" using keys_db_ok_store [OF db2 t(2)] by simp
  from persist_ok [OF C db3 types(2)] obtain u where u:
    "persist C org i A' ?s3 = (Inr (), ?s3\<lparr>ok_db := (ok_db ?s3)\<lparr>db_statements := Suc (db_statements (ok_db ?s3)),
       db_org_jwks := dset (db_org_jwks (ok_db ?s3)) (org, i) u\<rparr>\<rparr>)"
    "deserialize_issuer_keys C i (JsonbText u) = Inr (A'\<lparr>ik_issuer := i\<rparr>)" .
  let ?s4 = "?s3\<lparr>ok_db := (ok_db ?s3)\<lparr>db_statements := Suc (db_statements (ok_db ?s3)),
       db_org_jwks := dset (db_org_jwks (ok_db ?s3)) (org, i) u\<rparr>\<rparr>"
  let ?s' = "?s4\<lparr>ok_cache := dset (dset (ok_cache s) i A') i A\<rparr>"
  have sel: "dbP (select_key_data org i) (s\<lparr>ok_db := (ok_db s)\<lparr>db_statements := m\<rparr>\<rparr>) =
      (Inr None, s\<lparr>ok_db := (ok_db s)\<lparr>db_statements := Suc m\<rparr>\<rparr>)" for m
    using keys_db_okD(1) [OF keys_db_ok_counter [OF db], of m] new(2)
    by (simp add: dbP_def select_key_data_def statement_healthy)
  have run: "run_tasks C org i losing_schedule (\<lambda>_. CheckCache, s) =
      ((\<lambda>_. CheckCache)(0 := Loaded A, 1 := Loaded A'), ?s')"
    using sel [of ?n] sel [of "Suc ?n"] t(1) u(1)
    by (simp add: losing_schedule_def new(1) new_issuer_keys_eq cached_def A_def A'_def org_keys_updates fun_upd_twist)
  show thesis
  proof (rule that [OF run])
    show "stored_bundle C (ok_db ?s') org i (A'\<lparr>ik_issuer := i\<rparr>)"
      using u(2) by (simp add: stored_bundle_def)
    show "db_healthy (ok_db ?s')"
      using keys_db_okD(1) [OF keys_db_ok_store [OF db3 u(2)]] by (simp add: db_healthy_def)
  qed simp_all
qed

text \<open>
  C37: Two first requests for one issuer of an organisation can lose keys. On a working database, with
  nothing cached or stored for the issuer, there is an interleaving of two loads after which both
  have returned, the process publishes the first one's keys and the database holds the second one's:
  no token of the second task verifies against the published keys, and after a restart no token of
  the first does.
\<close>
theorem concurrent_loads_lose_keys:
  assumes "jwt_lawful L" and "org_keys_inv C org B s"
    and "dget (ok_cache s) i = None" and "dget (db_org_jwks (ok_db s)) (org, i) = None"
  shows "\<exists>schedule pcs s' A A'. run_tasks C org i schedule (\<lambda>_. CheckCache, s) = (pcs, s') \<and>
    pcs 0 = Loaded A \<and> pcs 1 = Loaded A' \<and>
    verify_token L (sign L c (ik_signing_key_for_alg A' a)) (fst (org_jwks C org i s')) = None \<and>
    verify_token L (sign L c (ik_signing_key_for_alg A a)) (fst (org_jwks C org i (restarted s'))) = None"
proof -
  let ?A = "bundle_at (org @ ''/'' @ i) (ks_gen s) (ks_drawn s)"
  let ?A' = "bundle_at (org @ ''/'' @ i) (ks_gen s) (ks_drawn s + 6)"
  obtain pcs s' where run: "run_tasks C org i losing_schedule (\<lambda>_. CheckCache, s) = (pcs, s')"
    "pcs 0 = Loaded ?A" "pcs 1 = Loaded ?A'" and c: "dget (ok_cache s') i = Some ?A"
    and st: "stored_bundle C (ok_db s') org i (?A'\<lparr>ik_issuer := i\<rparr>)" and h: "db_healthy (ok_db s')"
    by (rule losing_run [OF assms(2-4)])
  have dis: "set (ik_materials ?A) \<inter> set (ik_materials ?A') = {}"
    using assms(2) by (intro bundle_materials_disjoint) (simp add: org_keys_inv_def)
  have "fst (org_jwks C org i s') = ik_jwks_keys ?A"
    by (simp add: org_jwks_def org_bundle_def load_or_create_def bindP_apply c)
  moreover have "fst (org_jwks C org i (restarted s')) = ik_jwks_keys (?A'\<lparr>ik_issuer := i\<rparr>)"
    using st h by (auto simp: org_jwks_def org_bundle_def load_or_create_def bindP_apply restarted_def
      dbP_def select_key_data_def statement_healthy stored_bundle_def cacheP_def)
  ultimately have "verify_token L (sign L c (ik_signing_key_for_alg ?A' a)) (fst (org_jwks C org i s')) = None"
    "verify_token L (sign L c (ik_signing_key_for_alg ?A a)) (fst (org_jwks C org i (restarted s'))) = None"
    using signed_elsewhere [OF assms(1), of ?A' ?A] signed_elsewhere [OF assms(1), of ?A "?A'\<lparr>ik_issuer := i\<rparr>"] dis
    by (simp_all add: Int_commute)
  with run show ?thesis by blast
qed

lemma concurrent_loads_lose_keys_witness:
  "\<exists>schedule pcs s' A A'. run_tasks demo_codec ''one'' ''web'' schedule (\<lambda>_. CheckCache, demo_resolver) = (pcs, s') \<and>
    pcs 0 = Loaded A \<and> pcs 1 = Loaded A' \<and>
    verify_token reference_jwt (sign reference_jwt [] (ik_signing_key_for_alg A' ''RS256''))
      (fst (org_jwks demo_codec ''one'' ''web'' s')) = None \<and>
    verify_token reference_jwt (sign reference_jwt [] (ik_signing_key_for_alg A ''RS256''))
      (fst (org_jwks demo_codec ''one'' ''web'' (restarted s'))) = None"
proof -
  have inv: "org_keys_inv demo_codec ''one'' no_bundles demo_resolver" by (rule demo_resolver_inv) simp
  show ?thesis
    by (rule concurrent_loads_lose_keys [OF reference_jwt_lawful inv])
      (simp_all add: demo_resolver_def orgs_db_def)
qed

end
