(* ===== verification/Schema.thy ===== *)
theory Schema
  imports Prelude
begin

text \<open>
  What the migrations under \<open>alembic/versions/\<close> do to a Postgres schema: tables with their columns,
  named constraints and rows, and the DDL statements the migrations execute, each with the errors
  the server documents for it. Constraint names are the server's defaults where a statement gives
  none. Cascades act on row deletion only and play no part here.
\<close>

section \<open>Schemas\<close>

datatype sql_val = VNull | VText string | VInt int | VBool bool | VTexts "string list" | VJson string | VNow

datatype sql_type = TEXT | TEXTS | INT4 | INT8 | BIGSERIAL | BOOLEAN | JSONB | TIMESTAMPTZ

record column =
  co_name :: string
  co_type :: sql_type
  co_not_null :: bool
  co_default :: "sql_val option"

datatype constr =
    PrimaryKey "string list"
  | Unique "string list"
  | ForeignKey "string list" string "string list"
  | Check string

type_synonym row = "(string, sql_val) dict"

record table =
  tb_columns :: "column list"
  tb_constraints :: "(string, constr) dict"
  tb_rows :: "row list"

record schema =
  sc_tables :: "(string, table) dict"
  sc_indexes :: "(string, string \<times> string list) dict"

datatype ddl_error =
    NoTable string | TableExists string | NoColumn string | ColumnExists string
  | NoConstraint string | ConstraintExists string | NoUniqueMatch string | RowsViolate string
  | InUse string

type_synonym step = "schema \<Rightarrow> ddl_error + schema"

fun run_steps :: "step list \<Rightarrow> step" where
  "run_steps [] sc = Inr sc"
| "run_steps (s # ss) sc = bindE (s sc) (run_steps ss)"

section \<open>Constraints\<close>

definition project :: "string list \<Rightarrow> row \<Rightarrow> sql_val list" where
  "project cols r = map (\<lambda>c. case dget r c of None \<Rightarrow> VNull | Some v \<Rightarrow> v) cols"

definition keyed :: "string list \<Rightarrow> row \<Rightarrow> bool" where
  "keyed cols r = (VNull \<notin> set (project cols r))"

definition rows_of :: "schema \<Rightarrow> string \<Rightarrow> row list" where
  "rows_of sc t = (case dget (sc_tables sc) t of None \<Rightarrow> [] | Some tb \<Rightarrow> tb_rows tb)"

fun satisfied :: "schema \<Rightarrow> row list \<Rightarrow> constr \<Rightarrow> bool" where
  "satisfied sc rows (PrimaryKey cols) = (list_all (keyed cols) rows \<and> distinct (map (project cols) rows))"
| "satisfied sc rows (Unique cols) = distinct (map (project cols) (filter (keyed cols) rows))"
| "satisfied sc rows (ForeignKey cols t refs) =
     list_all (\<lambda>r. keyed cols r \<longrightarrow> project cols r \<in> set (map (project refs) (rows_of sc t))) rows"
| "satisfied sc rows (Check col) = list_all (\<lambda>r. dget r col \<noteq> Some (VBool False)) rows"

fun key_columns :: "constr \<Rightarrow> string list option" where
  "key_columns (PrimaryKey cols) = Some cols"
| "key_columns (Unique cols) = Some cols"
| "key_columns _ = None"

fun constr_columns :: "constr \<Rightarrow> string list" where
  "constr_columns (PrimaryKey cols) = cols"
| "constr_columns (Unique cols) = cols"
| "constr_columns (ForeignKey cols t refs) = cols"
| "constr_columns (Check col) = [col]"

definition is_key_on :: "string list \<Rightarrow> constr \<Rightarrow> bool" where
  "is_key_on cols k = (case key_columns k of None \<Rightarrow> False | Some cs \<Rightarrow> set cs = set cols)"

text \<open>A foreign key needs a unique or primary key on exactly the columns it references.\<close>

fun referable :: "schema \<Rightarrow> constr \<Rightarrow> bool" where
  "referable sc (ForeignKey cols t refs) =
     (case dget (sc_tables sc) t of
        None \<Rightarrow> False | Some tb \<Rightarrow> list_ex (\<lambda>(n, k). is_key_on refs k) (tb_constraints tb))"
| "referable sc _ = True"

fun refers_to :: "string \<Rightarrow> constr \<Rightarrow> bool" where
  "refers_to t (ForeignKey cols t' refs) = (t' = t)"
| "refers_to t _ = False"

text \<open>Does a foreign key of any table rest on the key \<open>k\<close> of the table \<open>t\<close>?\<close>

fun rests_on :: "string \<Rightarrow> constr \<Rightarrow> constr \<Rightarrow> bool" where
  "rests_on t k (ForeignKey cols t' refs) = (t' = t \<and> is_key_on refs k)"
| "rests_on t k _ = False"

definition key_in_use :: "schema \<Rightarrow> string \<Rightarrow> constr \<Rightarrow> bool" where
  "key_in_use sc t k =
     list_ex (\<lambda>(t', tb). list_ex (\<lambda>(n, c). rests_on t k c) (tb_constraints tb)) (sc_tables sc)"

section \<open>Statements\<close>

definition create_table :: "bool \<Rightarrow> string \<Rightarrow> column list \<Rightarrow> (string, constr) dict \<Rightarrow> step" where
  "create_table if_not_exists t cols cs sc =
     (if dhas (sc_tables sc) t then (if if_not_exists then Inr sc else Inl (TableExists t))
      else case find (\<lambda>(n, k). \<not> referable sc k) cs of
             Some (n, k) \<Rightarrow> Inl (NoUniqueMatch n)
           | None \<Rightarrow> Inr (sc\<lparr>sc_tables := dset (sc_tables sc) t
                             \<lparr>tb_columns = cols, tb_constraints = cs, tb_rows = []\<rparr>\<rparr>))"

definition drop_table_if_exists :: "string \<Rightarrow> step" where
  "drop_table_if_exists t sc =
     (if \<not> dhas (sc_tables sc) t then Inr sc
      else if list_ex (\<lambda>(t', tb). t' \<noteq> t \<and> list_ex (\<lambda>(n, c). refers_to t c) (tb_constraints tb)) (sc_tables sc)
      then Inl (InUse t)
      else Inr (sc\<lparr>sc_tables := dpop (sc_tables sc) t,
                   sc_indexes := filter (\<lambda>(i, t', cols). t' \<noteq> t) (sc_indexes sc)\<rparr>))"

definition alter :: "string \<Rightarrow> (table \<Rightarrow> ddl_error + table) \<Rightarrow> step" where
  "alter t f sc =
     (case dget (sc_tables sc) t of
        None \<Rightarrow> Inl (NoTable t)
      | Some tb \<Rightarrow> bindE (f tb) (\<lambda>tb'. Inr (sc\<lparr>sc_tables := dset (sc_tables sc) t tb'\<rparr>)))"

definition has_column :: "table \<Rightarrow> string \<Rightarrow> bool" where
  "has_column tb c = list_ex (\<lambda>co. co_name co = c) (tb_columns tb)"

definition default_value :: "column \<Rightarrow> sql_val" where
  "default_value co = (case co_default co of None \<Rightarrow> VNull | Some v \<Rightarrow> v)"

definition add_column :: "string \<Rightarrow> column \<Rightarrow> step" where
  "add_column t co = alter t (\<lambda>tb.
     if has_column tb (co_name co) then Inl (ColumnExists (co_name co))
     else if co_not_null co \<and> default_value co = VNull \<and> tb_rows tb \<noteq> [] then Inl (RowsViolate t)
     else Inr (tb\<lparr>tb_columns := tb_columns tb @ [co],
                  tb_rows := map (\<lambda>r. r @ [(co_name co, default_value co)]) (tb_rows tb)\<rparr>))"

text \<open>Constraints of the table that mention the column go with it.\<close>

definition drop_column :: "string \<Rightarrow> string \<Rightarrow> step" where
  "drop_column t c sc = alter t (\<lambda>tb.
     if \<not> has_column tb c then Inl (NoColumn c)
     else let gone = filter (\<lambda>(n, k). c \<in> set (constr_columns k)) (tb_constraints tb)
          in if list_ex (\<lambda>(n, k). key_in_use sc t k) gone then Inl (InUse c)
             else Inr (tb\<lparr>tb_columns := filter (\<lambda>co. co_name co \<noteq> c) (tb_columns tb),
                          tb_constraints := filter (\<lambda>(n, k). c \<notin> set (constr_columns k)) (tb_constraints tb),
                          tb_rows := map (\<lambda>r. dpop r c) (tb_rows tb)\<rparr>)) sc"

definition drop_constraint :: "bool \<Rightarrow> string \<Rightarrow> string \<Rightarrow> step" where
  "drop_constraint if_exists t n sc = alter t (\<lambda>tb.
     case dget (tb_constraints tb) n of
       None \<Rightarrow> if if_exists then Inr tb else Inl (NoConstraint n)
     | Some k \<Rightarrow>
         if key_in_use sc t k then Inl (InUse n)
         else Inr (tb\<lparr>tb_constraints := dpop (tb_constraints tb) n\<rparr>)) sc"

definition is_primary :: "constr \<Rightarrow> bool" where
  "is_primary k = (case k of PrimaryKey cols \<Rightarrow> True | _ \<Rightarrow> False)"

text \<open>The columns of a primary key become \<open>NOT NULL\<close>, and stay so when the key is dropped.\<close>

definition with_not_null :: "constr \<Rightarrow> column list \<Rightarrow> column list" where
  "with_not_null k cols =
     (if is_primary k
      then map (\<lambda>co. if co_name co \<in> set (constr_columns k) then co\<lparr>co_not_null := True\<rparr> else co) cols
      else cols)"

definition add_constraint :: "string \<Rightarrow> string \<Rightarrow> constr \<Rightarrow> step" where
  "add_constraint t n k sc = alter t (\<lambda>tb.
     if dhas (tb_constraints tb) n then Inl (ConstraintExists n)
     else if is_primary k \<and> list_ex (\<lambda>(m, c). is_primary c) (tb_constraints tb) then Inl (ConstraintExists n)
     else if \<not> list_all (has_column tb) (constr_columns k) then Inl (NoColumn n)
     else if \<not> referable sc k then Inl (NoUniqueMatch n)
     else if \<not> satisfied sc (tb_rows tb) k then Inl (RowsViolate n)
     else Inr (tb\<lparr>tb_columns := with_not_null k (tb_columns tb),
                  tb_constraints := tb_constraints tb @ [(n, k)]\<rparr>)) sc"

definition create_index :: "string \<Rightarrow> string \<Rightarrow> string list \<Rightarrow> step" where
  "create_index i t cols sc =
     (if \<not> dhas (sc_tables sc) t then Inl (NoTable t)
      else if dhas (sc_indexes sc) i then Inl (TableExists i)
      else Inr (sc\<lparr>sc_indexes := dset (sc_indexes sc) i (t, cols)\<rparr>))"

definition drop_index_if_exists :: "string \<Rightarrow> step" where
  "drop_index_if_exists i sc = Inr (sc\<lparr>sc_indexes := dpop (sc_indexes sc) i\<rparr>)"

text \<open>
  \<open>INSERT ... ON CONFLICT DO NOTHING\<close>: a row that clashes on a key (on the target's columns, when
  the statement names them) is skipped, one that breaks another constraint is an error.
\<close>

definition full_row :: "column list \<Rightarrow> row \<Rightarrow> row" where
  "full_row cols given =
     map (\<lambda>co. (co_name co, case dget given (co_name co) of Some v \<Rightarrow> v | None \<Rightarrow> default_value co)) cols"

definition clashes :: "row list \<Rightarrow> row \<Rightarrow> string list \<Rightarrow> bool" where
  "clashes rows r cols = (keyed cols r \<and> project cols r \<in> set (map (project cols) rows))"

definition conflict_keys :: "string list option \<Rightarrow> (string, constr) dict \<Rightarrow> string list list" where
  "conflict_keys target cs =
     (case target of
        Some cols \<Rightarrow> [cols]
      | None \<Rightarrow> List.map_filter (\<lambda>(n, k). key_columns k) cs)"

definition insert_or_skip :: "string \<Rightarrow> string list option \<Rightarrow> row \<Rightarrow> step" where
  "insert_or_skip t target given sc = alter t (\<lambda>tb.
     let r = full_row (tb_columns tb) given; rows = tb_rows tb @ [r] in
     if \<not> list_all (has_column tb) (dkeys given) then Inl (NoColumn t)
     else if list_ex (\<lambda>co. co_not_null co \<and> dget r (co_name co) = Some VNull) (tb_columns tb)
     then Inl (RowsViolate t)
     else if list_ex (clashes (tb_rows tb) r) (conflict_keys target (tb_constraints tb)) then Inr tb
     else if \<not> list_all (\<lambda>(n, k). satisfied sc rows k) (tb_constraints tb) then Inl (RowsViolate t)
     else Inr (tb\<lparr>tb_rows := rows\<rparr>)) sc"

definition delete_where :: "string \<Rightarrow> string \<Rightarrow> sql_val \<Rightarrow> step" where
  "delete_where t c v = alter t (\<lambda>tb.
     if \<not> has_column tb c then Inl (NoColumn c)
     else Inr (tb\<lparr>tb_rows := filter (\<lambda>r. dget r c \<noteq> Some v) (tb_rows tb)\<rparr>))"

section \<open>Writing migrations\<close>

definition required :: "string \<Rightarrow> sql_type \<Rightarrow> column" where
  "required n ty = \<lparr>co_name = n, co_type = ty, co_not_null = True, co_default = None\<rparr>"

definition nullable :: "string \<Rightarrow> sql_type \<Rightarrow> column" where
  "nullable n ty = \<lparr>co_name = n, co_type = ty, co_not_null = False, co_default = None\<rparr>"

definition defaulted :: "string \<Rightarrow> sql_type \<Rightarrow> sql_val \<Rightarrow> column" where
  "defaulted n ty v = \<lparr>co_name = n, co_type = ty, co_not_null = True, co_default = Some v\<rparr>"

lemmas column_defs = required_def nullable_def defaulted_def default_value_def

definition empty_schema :: schema where
  "empty_schema = \<lparr>sc_tables = [], sc_indexes = []\<rparr>"

text \<open>The whole run is one transaction: an error leaves the database as it was.\<close>

definition run_migrations :: "step list \<Rightarrow> schema \<Rightarrow> (ddl_error + unit) \<times> schema" where
  "run_migrations steps sc =
     (case run_steps steps sc of Inl e \<Rightarrow> (Inl e, sc) | Inr sc' \<Rightarrow> (Inr (), sc'))"

lemma run_steps_append: "run_steps (ss @ ts) sc = bindE (run_steps ss sc) (run_steps ts)"
proof (induction ss arbitrary: sc)
  case (Cons s ss)
  then show ?case by (cases "s sc") simp_all
qed simp

end
