(* ===== verification/MigrationProperties.thy ===== *)
theory MigrationProperties
  imports Migrations
begin

text \<open>
  What the migrations give: the head schema has what the store's statements need, upgrading a
  populated database keeps its rows and its constraints, and the second migration cannot be undone.
\<close>

section \<open>The schemas the migrations make\<close>

definition made_by :: "step list \<Rightarrow> schema" where
  "made_by steps = (case run_steps steps empty_schema of Inl e \<Rightarrow> empty_schema | Inr sc \<Rightarrow> sc)"

definition schema_0001 :: schema where
  "schema_0001 = made_by upgrade_0001"

definition schema_0002 :: schema where
  "schema_0002 = made_by (upgrade_0001 @ upgrade_0002)"

definition schema_head :: schema where
  "schema_head = made_by (upgrade_0001 @ upgrade_0002 @ upgrade_0003)"

text \<open>The same tables with other rows.\<close>

definition with_rows :: "(string \<Rightarrow> row list) \<Rightarrow> schema \<Rightarrow> schema" where
  "with_rows f sc = sc\<lparr>sc_tables := map (\<lambda>(t, tb). (t, tb\<lparr>tb_rows := f t\<rparr>)) (sc_tables sc)\<rparr>"

text \<open>
  A well-formed state: every row has exactly the columns of its table, each value of its column's
  type and no required one null, and every constraint holds.
\<close>

fun has_type :: "sql_val \<Rightarrow> sql_type \<Rightarrow> bool" where
  "has_type VNull ty = True"
| "has_type (VText s) ty = (ty = TEXT)"
| "has_type (VTexts ws) ty = (ty = TEXTS)"
| "has_type (VInt i) ty = (ty \<in> {INT4, INT8, BIGSERIAL})"
| "has_type (VBool b) ty = (ty = BOOLEAN)"
| "has_type (VJson j) ty = (ty = JSONB)"
| "has_type VNow ty = (ty = TIMESTAMPTZ)"

definition value_fits :: "row \<Rightarrow> column \<Rightarrow> bool" where
  "value_fits r co =
     (case dget r (co_name co) of
        None \<Rightarrow> False | Some v \<Rightarrow> has_type v (co_type co) \<and> (co_not_null co \<longrightarrow> v \<noteq> VNull))"

definition row_fits :: "column list \<Rightarrow> row \<Rightarrow> bool" where
  "row_fits cols r =
     (dkeys r = map co_name cols \<and>
      list_all (value_fits r) cols)"

definition table_ok :: "schema \<Rightarrow> table \<Rightarrow> bool" where
  "table_ok sc tb =
     (list_all (row_fits (tb_columns tb)) (tb_rows tb) \<and>
      list_all (\<lambda>(n, k). satisfied sc (tb_rows tb) k) (tb_constraints tb))"

definition schema_ok :: "schema \<Rightarrow> bool" where
  "schema_ok sc = list_all (\<lambda>(t, tb). table_ok sc tb) (sc_tables sc)"

text \<open>The columns the statements of the store and the registry name, and whether they may be null.\<close>

definition queried_columns :: "(string \<times> (string \<times> bool) list) list" where
  "queried_columns =
     [(''app_config'', [(''org_id'', False), (''auth_mode'', False), (''admin_token'', False),
        (''cors_allow_origins'', True), (''issuer_modes'', True)]),
      (''tenants'', [(''org_id'', False), (''tid'', False), (''provider'', False)]),
      (''users'', [(''org_id'', False), (''username'', False), (''tid'', False), (''password'', False),
        (''upn'', True), (''preferred_username'', True), (''oid'', False), (''token_version'', False),
        (''token_lifetime_seconds'', False), (''roles'', True), (''groups'', True),
        (''allowed_audiences'', True), (''extra_claims'', True)]),
      (''service_principals'', [(''org_id'', False), (''name'', False), (''tid'', False), (''client_id'', True),
        (''secret'', False), (''label'', True), (''token_version'', False), (''token_lifetime_seconds'', False),
        (''roles'', True), (''groups'', True), (''allowed_audiences'', True), (''extra_claims'', True),
        (''override_any_claim'', False), (''override_iss_too'', False)]),
      (''client_apps'', [(''org_id'', False), (''audience'', False), (''app_id'', True), (''label'', True),
        (''roles'', True), (''grants'', True)]),
      (''token_events'', [(''id'', False), (''org_id'', False), (''issuer'', False), (''grant_type'', False),
        (''sub'', False), (''aud'', True), (''iat'', False), (''exp'', False), (''jti'', True),
        (''raw_claims'', True), (''created_at'', False)]),
      (''orgs'', [(''org_id'', False), (''slug'', False), (''tier'', False), (''api_key_hash'', True)]),
      (''org_jwks'', [(''org_id'', False), (''issuer_slug'', False), (''key_data'', False)])]"

definition has_queried :: "schema \<Rightarrow> bool" where
  "has_queried sc =
     list_all (\<lambda>(t, cols). case dget (sc_tables sc) t of
         None \<Rightarrow> False
       | Some tb \<Rightarrow> list_all (\<lambda>(c, may_be_null).
           list_ex (\<lambda>co. co_name co = c \<and> (may_be_null \<or> co_not_null co)) (tb_columns tb)) cols)
       queried_columns"

text \<open>The conflict targets the upserts name are keys.\<close>

definition upsert_targets :: "(string \<times> string list) list" where
  "upsert_targets = [(''app_config'', [''org_id'']), (''org_jwks'', [''org_id'', ''issuer_slug''])]"

definition has_targets :: "schema \<Rightarrow> bool" where
  "has_targets sc =
     list_all (\<lambda>(t, cols). case dget (sc_tables sc) t of
         None \<Rightarrow> False | Some tb \<Rightarrow> list_ex (\<lambda>(n, k). is_key_on cols k) (tb_constraints tb)) upsert_targets"

lemma schema_0001_eq: "run_steps upgrade_0001 empty_schema = Inr schema_0001"
  by code_simp

lemma schema_head_eq: "run_steps (upgrade_0001 @ upgrade_0002 @ upgrade_0003) empty_schema = Inr schema_head"
  by code_simp

text \<open>
  Migrating an empty database to head succeeds and gives a well-formed schema with every column
  the store's and the registry's statements name (required wherever the code does not expect a
  null) and a key for every conflict target, with the default and the sandbox configuration rows
  and the sandbox organisation seeded; undoing the third migration gives the state after the second.
\<close>
lemma migrations_reach_head:
  "run_steps (upgrade_0001 @ upgrade_0002 @ upgrade_0003) empty_schema = Inr schema_head \<and>
   schema_ok schema_head \<and> has_queried schema_head \<and> has_targets schema_head \<and>
   map (\<lambda>r. dget r ''org_id'') (rows_of schema_head ''app_config'') =
     [Some (VText ''default''), Some (VText ''sandbox'')] \<and>
   map (\<lambda>r. dget r ''slug'') (rows_of schema_head ''orgs'') = [Some (VText ''sandbox'')] \<and>
   run_steps downgrade_0003 schema_head = Inr schema_0002"
proof (intro conjI)
  show "run_steps (upgrade_0001 @ upgrade_0002 @ upgrade_0003) empty_schema = Inr schema_head"
    by (rule schema_head_eq)
  show "schema_ok schema_head" by code_simp
  show "has_queried schema_head" by code_simp
  show "has_targets schema_head" by code_simp
  show "map (\<lambda>r. dget r ''org_id'') (rows_of schema_head ''app_config'') =
     [Some (VText ''default''), Some (VText ''sandbox'')]" by code_simp
  show "map (\<lambda>r. dget r ''slug'') (rows_of schema_head ''orgs'') = [Some (VText ''sandbox'')]" by code_simp
  show "run_steps downgrade_0003 schema_head = Inr schema_0002" by code_simp
qed

section \<open>Upgrading a populated database\<close>

definition in_org :: "row \<Rightarrow> row" where
  "in_org r = r @ [(''org_id'', VText ''default'')]"

text \<open>What becomes of the rows: all of them belong to the organisation \<open>default\<close>.\<close>

definition carried :: "(string \<Rightarrow> row list) \<Rightarrow> string \<Rightarrow> row list" where
  "carried f t =
     (if t = ''app_config'' then map (\<lambda>r. dpop (in_org r) ''id'') (f t)
      else if t \<in> {''tenants'', ''users'', ''service_principals'', ''client_apps''} then map in_org (f t)
      else [])"

lemma add_column_org:
  "add_column t org_column = alter t (\<lambda>tb.
     if has_column tb ''org_id'' then Inl (ColumnExists ''org_id'')
     else Inr (tb\<lparr>tb_columns := tb_columns tb @ [org_column], tb_rows := map in_org (tb_rows tb)\<rparr>))"
  by (simp add: add_column_def org_column_def column_defs in_org_def [abs_def] cong: if_cong)

definition orgless :: "row list \<Rightarrow> bool" where
  "orgless rows = (\<forall>r \<in> set rows. dget r ''org_id'' = None)"

lemma project_in_org:
  "''org_id'' \<notin> set cs \<Longrightarrow> project cs (in_org r) = project cs r"
  "dget r ''org_id'' = None \<Longrightarrow> ''org_id'' \<notin> set cs \<Longrightarrow>
   project (''org_id'' # cs) (in_org r) = VText ''default'' # project cs r"
  by (auto simp: project_def in_org_def map_add_def split: option.split)

lemma project_map_in_org:
  "orgless rows \<Longrightarrow> ''org_id'' \<notin> set cs \<Longrightarrow>
   map (project (''org_id'' # cs)) (map in_org rows) = map ((#) (VText ''default'')) (map (project cs) rows)"
  by (simp add: orgless_def project_in_org)

lemma keyed_in_org:
  "dget r ''org_id'' = None \<Longrightarrow> ''org_id'' \<notin> set cs \<Longrightarrow> keyed (''org_id'' # cs) (in_org r) = keyed cs r"
  by (simp add: keyed_def project_in_org)

lemma primary_key_in_org:
  assumes "orgless rows" and "''org_id'' \<notin> set cs" and "satisfied sc rows (PrimaryKey cs)"
  shows "satisfied sc' (map in_org rows) (PrimaryKey (''org_id'' # cs))"
proof -
  have "distinct (map ((#) (VText ''default'')) (map (project cs) rows))"
    using assms(3) by (subst distinct_map) (simp add: inj_on_def)
  then have "distinct (map (project (''org_id'' # cs)) (map in_org rows))"
    unfolding project_map_in_org [OF assms(1,2)] .
  moreover have "list_all (keyed (''org_id'' # cs)) (map in_org rows)"
    using assms by (auto simp: list_all_iff orgless_def keyed_in_org)
  ultimately show ?thesis by simp
qed

lemma foreign_key_in_org:
  assumes "orgless rows" and "orgless (rows_of sc t)" and "''org_id'' \<notin> set cs" "''org_id'' \<notin> set refs"
    and "satisfied sc rows (ForeignKey cs t refs)" and "rows_of sc' t = map in_org (rows_of sc t)"
  shows "satisfied sc' (map in_org rows) (ForeignKey (''org_id'' # cs) t (''org_id'' # refs))"
proof -
  have "project (''org_id'' # cs) (in_org r) \<in> set (map (project (''org_id'' # refs)) (rows_of sc' t))"
    if "r \<in> set rows" "keyed (''org_id'' # cs) (in_org r)" for r
  proof -
    have r: "dget r ''org_id'' = None" using assms(1) that(1) by (simp add: orgless_def)
    then have "project cs r \<in> set (map (project refs) (rows_of sc t))"
      using assms(5) that keyed_in_org [OF r assms(3)] by (auto simp: list_all_iff)
    then show ?thesis
      unfolding assms(6) project_map_in_org [OF assms(2,4)] project_in_org(2) [OF r assms(3)] by auto
  qed
  then show ?thesis by (auto simp: list_all_iff)
qed

section \<open>Steps under other rows\<close>

text \<open>
  A step that succeeds on a schema succeeds on the same schema holding the rows \<open>f\<close>, and leaves the
  rows \<open>g\<close>. What a migration does to the shape of the tables can so be evaluated once, and what it
  does to arbitrary rows is composed from its steps.
\<close>

definition carries :: "(string \<Rightarrow> row list) \<Rightarrow> step \<Rightarrow> (string \<Rightarrow> row list) \<Rightarrow> bool" where
  "carries f s g =
     (\<forall>sc sc'. dict_ok (sc_tables sc) \<longrightarrow> s sc = Inr sc' \<longrightarrow>
        dict_ok (sc_tables sc') \<and> s (with_rows f sc) = Inr (with_rows g sc'))"

lemma carriesI:
  "(\<And>sc sc'. dict_ok (sc_tables sc) \<Longrightarrow> s sc = Inr sc' \<Longrightarrow>
     dict_ok (sc_tables sc') \<and> s (with_rows f sc) = Inr (with_rows g sc')) \<Longrightarrow> carries f s g"
  by (simp add: carries_def)

lemma carriesD:
  "carries f s g \<Longrightarrow> dict_ok (sc_tables sc) \<Longrightarrow> s sc = Inr sc' \<Longrightarrow> s (with_rows f sc) = Inr (with_rows g sc')"
  by (simp add: carries_def)

lemma carries_Nil: "carries f (run_steps []) f"
  by (simp add: carries_def)

lemma carries_Cons:
  assumes "carries f s g" and "carries g (run_steps ss) h"
  shows "carries f (run_steps (s # ss)) h"
proof (rule carriesI)
  fix sc sc' assume ok: "dict_ok (sc_tables sc)" and run: "run_steps (s # ss) sc = Inr sc'"
  from run obtain sc1 where first: "s sc = Inr sc1" and rest: "run_steps ss sc1 = Inr sc'"
    by (auto simp: bindE_eq_Inr)
  have "dict_ok (sc_tables sc1)" "s (with_rows f sc) = Inr (with_rows g sc1)"
    using assms(1) ok first by (simp_all add: carries_def)
  with assms(2) rest show "dict_ok (sc_tables sc') \<and> run_steps (s # ss) (with_rows f sc) = Inr (with_rows h sc')"
    by (simp add: carries_def)
qed

lemma with_rows_get:
  "dget (sc_tables (with_rows f sc)) t = map_option (\<lambda>tb. tb\<lparr>tb_rows := f t\<rparr>) (dget (sc_tables sc) t)"
proof -
  have "dget (map (\<lambda>(t, tb). (t, tb\<lparr>tb_rows := f t\<rparr>)) d) t = map_option (\<lambda>tb. tb\<lparr>tb_rows := f t\<rparr>) (dget d t)" for d
    by (induction d) auto
  then show ?thesis by (simp add: with_rows_def)
qed

lemma with_rows_dset:
  "with_rows (f(t := rows)) (sc\<lparr>sc_tables := dset (sc_tables sc) t tb\<rparr>) =
   (with_rows f sc)\<lparr>sc_tables := dset (sc_tables (with_rows f sc)) t (tb\<lparr>tb_rows := rows\<rparr>)\<rparr>"
  if "dict_ok (sc_tables sc)"
proof -
  have "map (\<lambda>(u, tb). (u, tb\<lparr>tb_rows := (f(t := rows)) u\<rparr>)) (dset d t tb) =
      dset (map (\<lambda>(u, tb). (u, tb\<lparr>tb_rows := f u\<rparr>)) d) t (tb\<lparr>tb_rows := rows\<rparr>)" if "dict_ok d" for d
    using that
  proof (induction d)
    case (Cons e d)
    have "map (\<lambda>(u, tb). (u, tb\<lparr>tb_rows := (f(t := rows)) u\<rparr>)) d = map (\<lambda>(u, tb). (u, tb\<lparr>tb_rows := f u\<rparr>)) d"
      if "t \<notin> fst ` set d" using that by (force simp: image_iff)
    with Cons show ?case by (cases e) (auto simp: dict_ok_def, force)
  qed simp
  with that show ?thesis by (simp add: with_rows_def)
qed

lemma carries_alter:
  assumes "\<And>sc tb tb'. dget (sc_tables sc) t = Some tb \<Longrightarrow> F sc tb = Inr tb' \<Longrightarrow>
      F (with_rows f sc) (tb\<lparr>tb_rows := f t\<rparr>) = Inr (tb'\<lparr>tb_rows := rows\<rparr>)"
  shows "carries f (\<lambda>sc. alter t (F sc) sc) (f(t := rows))"
proof (rule carriesI)
  fix sc sc' assume ok: "dict_ok (sc_tables sc)" and run: "alter t (F sc) sc = Inr sc'"
  from run obtain tb tb' where t: "dget (sc_tables sc) t = Some tb" and F: "F sc tb = Inr tb'"
    and sc': "sc' = sc\<lparr>sc_tables := dset (sc_tables sc) t tb'\<rparr>"
    by (auto simp: alter_def bindE_eq_Inr split: option.splits)
  from assms [OF t F] show "dict_ok (sc_tables sc') \<and>
      alter t (F (with_rows f sc)) (with_rows f sc) = Inr (with_rows (f(t := rows)) sc')"
    by (simp add: alter_def with_rows_get t sc' with_rows_dset [OF ok] ok)
qed

lemma carries_same: "carries f s (f(t := f t)) \<Longrightarrow> carries f s f"
  by simp

lemma with_rows_shape [simp]:
  "key_in_use (with_rows f sc) t k = key_in_use sc t k"
  "referable (with_rows f sc) k = referable sc k"
  "dhas (sc_tables (with_rows f sc)) t = dhas (sc_tables sc) t"
  "sc_indexes (with_rows f sc) = sc_indexes sc"
  "has_column (tb\<lparr>tb_rows := rows\<rparr>) = has_column tb"
proof -
  have "list_ex (\<lambda>(t', tb). P (tb_constraints tb)) (map (\<lambda>(t, tb). (t, tb\<lparr>tb_rows := f t\<rparr>)) d) =
      list_ex (\<lambda>(t', tb). P (tb_constraints tb)) d" for P and d :: "(string, table) dict"
    by (induction d) auto
  then show "key_in_use (with_rows f sc) t k = key_in_use sc t k"
    by (simp add: key_in_use_def with_rows_def)
  show "referable (with_rows f sc) k = referable sc k"
    by (cases k) (simp_all add: with_rows_get split: option.split)
  show "dhas (sc_tables (with_rows f sc)) t = dhas (sc_tables sc) t"
    by (simp add: dhas_iff with_rows_get)
qed (simp_all add: with_rows_def has_column_def fun_eq_iff)

lemma rows_of_with_rows: "dhas (sc_tables sc) t \<Longrightarrow> rows_of (with_rows f sc) t = f t"
  by (auto simp: rows_of_def with_rows_get dhas_iff)

lemma carries_add_org:
  "carries f (add_column t org_column) (f(t := map in_org (f t)))"
  unfolding add_column_org by (rule carries_alter) (auto split: if_splits)

lemma carries_drop_constraint: "carries f (drop_constraint ie t n) f"
  unfolding drop_constraint_def [abs_def]
  by (rule carries_same, rule carries_alter) (auto split: if_splits option.splits)

lemma carries_drop_column: "carries f (drop_column t c) (f(t := map (\<lambda>r. dpop r c) (f t)))"
  unfolding drop_column_def [abs_def]
  by (rule carries_alter) (auto simp: Let_def case_prod_unfold split: if_splits)

lemma carries_add_key:
  assumes "\<And>sc. satisfied sc (f t) (PrimaryKey cols)"
  shows "carries f (add_constraint t n (PrimaryKey cols)) f"
  unfolding add_constraint_def [abs_def]
  by (rule carries_same, rule carries_alter) (auto simp: assms simp del: satisfied.simps split: if_splits)

lemma carries_add_reference:
  assumes "\<And>sc. rows_of sc u = f u \<Longrightarrow> satisfied sc (f t) (ForeignKey cols u refs)"
  shows "carries f (add_constraint t n (ForeignKey cols u refs)) f"
  unfolding add_constraint_def [abs_def]
proof (rule carries_same, rule carries_alter)
  fix sc tb tb'
  let ?k = "ForeignKey cols u refs"
  let ?F = "\<lambda>sc tb. if dhas (tb_constraints tb) n then Inl (ConstraintExists n)
     else if is_primary ?k \<and> list_ex (\<lambda>(m, c). is_primary c) (tb_constraints tb) then Inl (ConstraintExists n)
     else if \<not> list_all (has_column tb) (constr_columns ?k) then Inl (NoColumn n)
     else if \<not> referable sc ?k then Inl (NoUniqueMatch n)
     else if \<not> satisfied sc (tb_rows tb) ?k then Inl (RowsViolate n)
     else Inr (tb\<lparr>tb_columns := with_not_null ?k (tb_columns tb),
                  tb_constraints := tb_constraints tb @ [(n, ?k)]\<rparr>)"
  assume F: "?F sc tb = Inr tb'"
  then have "referable sc ?k" by (simp split: if_splits)
  then have "dhas (sc_tables sc) u" by (simp add: dhas_iff split: option.splits)
  then have "satisfied (with_rows f sc) (f t) ?k" by (intro assms rows_of_with_rows)
  with F show "?F (with_rows f sc) (tb\<lparr>tb_rows := f t\<rparr>) = Inr (tb'\<lparr>tb_rows := f t\<rparr>)"
    by (auto simp del: satisfied.simps referable.simps split: if_splits)
qed

lemma carries_create_table: "carries f (create_table False t cols cs) (f(t := []))"
proof (rule carriesI)
  fix sc sc' assume ok: "dict_ok (sc_tables sc)" and run: "create_table False t cols cs sc = Inr sc'"
  let ?tb = "\<lparr>tb_columns = cols, tb_constraints = cs, tb_rows = []\<rparr>"
  from run have new: "\<not> dhas (sc_tables sc) t" "find (\<lambda>(n, k). \<not> referable sc k) cs = None"
    and sc': "sc' = sc\<lparr>sc_tables := dset (sc_tables sc) t ?tb\<rparr>"
    by (auto simp: create_table_def split: if_splits option.splits)
  then show "dict_ok (sc_tables sc') \<and>
      create_table False t cols cs (with_rows f sc) = Inr (with_rows (f(t := [])) sc')"
    using with_rows_dset [OF ok, of f t "[]" ?tb] ok by (simp add: create_table_def)
qed

lemma carries_create_index: "carries f (create_index i t cols) f"
  by (rule carriesI) (auto simp: create_index_def with_rows_def image_image case_prod_unfold split: if_splits)

lemmas carries_steps =
  carries_add_org carries_drop_constraint carries_drop_column carries_create_index carries_create_table

section \<open>The second migration on any data\<close>

lemma with_rows_cong:
  "(\<And>t. t \<in> set (dkeys (sc_tables sc)) \<Longrightarrow> f t = g t) \<Longrightarrow> with_rows f sc = with_rows g sc"
proof -
  assume same: "\<And>t. t \<in> set (dkeys (sc_tables sc)) \<Longrightarrow> f t = g t"
  have "map (\<lambda>(t, tb). (t, tb\<lparr>tb_rows := f t\<rparr>)) (sc_tables sc) =
      map (\<lambda>(t, tb). (t, tb\<lparr>tb_rows := g t\<rparr>)) (sc_tables sc)"
    by (rule map_cong) (auto simp: same rev_image_eqI)
  then show ?thesis by (simp add: with_rows_def)
qed

lemma schema_0002_eq: "run_steps upgrade_0002 schema_0001 = Inr schema_0002"
  by code_simp

lemma schema_shapes:
  "dict_ok (sc_tables schema_0001)"
  "dkeys (sc_tables schema_0002) =
     [''app_config'', ''tenants'', ''users'', ''service_principals'', ''client_apps'', ''token_events'']"
  by code_simp+

lemma upgrade_0002_carries:
  assumes "\<And>sc. satisfied sc (map (\<lambda>r. dpop r ''id'') (map in_org (f ''app_config''))) (PrimaryKey [''org_id''])"
    and "\<And>sc. satisfied sc (map in_org (f ''tenants'')) (PrimaryKey [''org_id'', ''tid''])"
    and "\<And>sc. satisfied sc (map in_org (f ''users'')) (PrimaryKey [''org_id'', ''username'', ''tid''])"
    and "\<And>sc. satisfied sc (map in_org (f ''service_principals'')) (PrimaryKey [''org_id'', ''name'', ''tid''])"
    and "\<And>sc. satisfied sc (map in_org (f ''client_apps'')) (PrimaryKey [''org_id'', ''audience'', ''tid''])"
    and "\<And>sc t. t \<in> {''users'', ''service_principals'', ''client_apps''} \<Longrightarrow>
      rows_of sc ''tenants'' = map in_org (f ''tenants'') \<Longrightarrow>
      satisfied sc (map in_org (f t)) (ForeignKey [''org_id'', ''tid''] ''tenants'' [''org_id'', ''tid''])"
  shows "run_steps upgrade_0002 (with_rows f schema_0001) = Inr (with_rows (carried f) schema_0002)"
proof -
  let ?a = "f(''app_config'' := map in_org (f ''app_config''))"
  let ?b = "?a(''tenants'' := map in_org (?a ''tenants''))"
  let ?c = "?b(''users'' := map in_org (?b ''users''))"
  let ?d = "?c(''service_principals'' := map in_org (?c ''service_principals''))"
  let ?e = "?d(''client_apps'' := map in_org (?d ''client_apps''))"
  let ?h = "?e(''app_config'' := map (\<lambda>r. dpop r ''id'') (?e ''app_config''))"
  let ?i = "?h(''token_events'' := [])"
  have "carries f (run_steps upgrade_0002) ?i"
    unfolding upgrade_0002_def create_token_events_def list.map append.simps
    by ((rule carries_Cons, (rule carries_steps | (rule carries_add_key, simp add: assms del: map_map satisfied.simps)
          | (rule carries_add_reference, simp add: assms del: map_map satisfied.simps)))+, rule carries_Nil)
  then have "run_steps upgrade_0002 (with_rows f schema_0001) = Inr (with_rows ?i schema_0002)"
    using schema_shapes(1) schema_0002_eq by (rule carriesD)
  also have "with_rows ?i schema_0002 = with_rows (carried f) schema_0002"
    by (rule with_rows_cong) (auto simp: schema_shapes(2) carried_def)
  finally show ?thesis .
qed

text \<open>The shapes, table by table.\<close>

definition identity_tables :: "string list" where
  "identity_tables = [''tenants'', ''users'', ''service_principals'', ''client_apps'']"

definition constraints_at :: "schema \<Rightarrow> string \<Rightarrow> constr list" where
  "constraints_at sc t = (case dget (sc_tables sc) t of None \<Rightarrow> [] | Some tb \<Rightarrow> map snd (tb_constraints tb))"

definition columns_at :: "schema \<Rightarrow> string \<Rightarrow> column list" where
  "columns_at sc t = (case dget (sc_tables sc) t of None \<Rightarrow> [] | Some tb \<Rightarrow> tb_columns tb)"

lemma schema_ok_with_rows:
  "dict_ok (sc_tables sc) \<Longrightarrow>
   schema_ok (with_rows f sc) \<longleftrightarrow>
     (\<forall>t \<in> set (dkeys (sc_tables sc)).
        list_all (row_fits (columns_at sc t)) (f t) \<and>
        list_all (satisfied (with_rows f sc) (f t)) (constraints_at sc t))"
proof -
  assume ok: "dict_ok (sc_tables sc)"
  have get: "dget (sc_tables sc) t = Some tb" if "(t, tb) \<in> set (sc_tables sc)" for t tb
    using that ok by (simp add: dict_ok_def)
  have "table_ok (with_rows f sc) (tb\<lparr>tb_rows := f t\<rparr>) \<longleftrightarrow>
      list_all (row_fits (columns_at sc t)) (f t) \<and>
      list_all (satisfied (with_rows f sc) (f t)) (constraints_at sc t)"
    if "(t, tb) \<in> set (sc_tables sc)" for t tb
    using get [OF that] by (simp add: table_ok_def columns_at_def constraints_at_def list.pred_map comp_def case_prod_unfold)
  then have "list_all (\<lambda>(t, tb). table_ok (with_rows f sc) (tb\<lparr>tb_rows := f t\<rparr>)) (sc_tables sc) \<longleftrightarrow>
     (\<forall>t \<in> set (dkeys (sc_tables sc)).
        list_all (row_fits (columns_at sc t)) (f t) \<and>
        list_all (satisfied (with_rows f sc) (f t)) (constraints_at sc t))"
    by (fastforce simp: list_all_iff)
  moreover have "schema_ok (with_rows f sc) \<longleftrightarrow>
      list_all (\<lambda>(t, tb). table_ok (with_rows f sc) (tb\<lparr>tb_rows := f t\<rparr>)) (sc_tables sc)"
    by (auto simp: schema_ok_def with_rows_def list_all_iff)
  ultimately show ?thesis by simp
qed

lemma shapes_0001:
  "dkeys (sc_tables schema_0001) = ''app_config'' # identity_tables"
  "constraints_at schema_0001 ''app_config'' = [PrimaryKey [''id''], Check ''id'']"
  "constraints_at schema_0001 ''tenants'' = [PrimaryKey [''tid'']]"
  "constraints_at schema_0001 ''users'' =
     [ForeignKey [''tid''] ''tenants'' [''tid''], PrimaryKey [''username'', ''tid'']]"
  "constraints_at schema_0001 ''service_principals'' =
     [ForeignKey [''tid''] ''tenants'' [''tid''], PrimaryKey [''name'', ''tid'']]"
  "constraints_at schema_0001 ''client_apps'' =
     [ForeignKey [''tid''] ''tenants'' [''tid''], PrimaryKey [''audience'', ''tid'']]"
  "list_all (\<lambda>t. ''org_id'' \<notin> set (map co_name (columns_at schema_0001 t))) (''app_config'' # identity_tables)"
  "hd (columns_at schema_0001 ''app_config'') = defaulted ''id'' BOOLEAN (VBool True)"
  "columns_at schema_0001 ''app_config'' \<noteq> []"
  "distinct (map co_name (columns_at schema_0001 ''app_config''))"
  by code_simp+

lemma shapes_0002:
  "dict_ok (sc_tables schema_0002)"
  "dkeys (sc_tables schema_0002) = ''app_config'' # identity_tables @ [''token_events'']"
  "constraints_at schema_0002 ''app_config'' = [PrimaryKey [''org_id'']]"
  "constraints_at schema_0002 ''tenants'' = [PrimaryKey [''org_id'', ''tid'']]"
  "constraints_at schema_0002 ''users'' = [PrimaryKey [''org_id'', ''username'', ''tid''],
     ForeignKey [''org_id'', ''tid''] ''tenants'' [''org_id'', ''tid'']]"
  "constraints_at schema_0002 ''service_principals'' = [PrimaryKey [''org_id'', ''name'', ''tid''],
     ForeignKey [''org_id'', ''tid''] ''tenants'' [''org_id'', ''tid'']]"
  "constraints_at schema_0002 ''client_apps'' = [PrimaryKey [''org_id'', ''audience'', ''tid''],
     ForeignKey [''org_id'', ''tid''] ''tenants'' [''org_id'', ''tid'']]"
  "constraints_at schema_0002 ''token_events'' = [PrimaryKey [''id'']]"
  "list_all (\<lambda>t. columns_at schema_0002 t = columns_at schema_0001 t @ [org_column]) identity_tables"
  "columns_at schema_0002 ''app_config'' = tl (columns_at schema_0001 ''app_config'') @ [org_column]"
  by code_simp+

lemma row_fits_in_org:
  assumes "row_fits cols r" and "''org_id'' \<notin> set (map co_name cols)"
  shows "dget r ''org_id'' = None" and "row_fits (cols @ [org_column]) (in_org r)"
proof -
  have keys: "dkeys r = map co_name cols" using assms(1) by (simp add: row_fits_def)
  then have "''org_id'' \<notin> fst ` set r" using assms(2) by (metis list.set_map)
  then show none: "dget r ''org_id'' = None" by (simp add: map_of_eq_None_iff)
  have same: "dget (in_org r) c = dget r c" if "c \<noteq> ''org_id''" for c
    using that by (auto simp: in_org_def map_add_def split: option.split)
  have "value_fits (in_org r) co" if co: "co \<in> set cols" for co
  proof -
    have "value_fits r co" using assms(1) co by (auto simp: row_fits_def list_all_iff)
    moreover have "co_name co \<noteq> ''org_id''" using assms(2) co by (metis imageI list.set_map)
    ultimately show ?thesis by (simp add: value_fits_def same)
  qed
  moreover have "value_fits (in_org r) org_column"
    using none by (simp add: value_fits_def in_org_def org_column_def defaulted_def map_add_def)
  ultimately show "row_fits (cols @ [org_column]) (in_org r)"
    using keys by (simp add: row_fits_def list_all_iff in_org_def) (simp add: org_column_def defaulted_def)
qed

lemma row_fits_dpop:
  assumes "row_fits (co # cols) r" and "co_name co \<notin> set (map co_name cols)"
  shows "row_fits cols (dpop r (co_name co))"
proof -
  have "value_fits (dpop r (co_name co)) c" if c: "c \<in> set cols" for c
  proof -
    have "value_fits r c" using assms(1) c by (auto simp: row_fits_def list_all_iff)
    moreover have "co_name c \<noteq> co_name co" using assms(2) c by (metis imageI list.set_map)
    ultimately show ?thesis by (simp add: value_fits_def)
  qed
  moreover have "dkeys (dpop r (co_name co)) = map co_name cols"
  proof -
    from assms(1) obtain v r' where r: "r = (co_name co, v) # r'" "dkeys r' = map co_name cols"
      by (cases r) (auto simp: row_fits_def)
    then have "co_name co \<notin> set (dkeys r')" using assms(2) by simp
    then have "dpop r' (co_name co) = r'" by (simp add: delete_id)
    then show ?thesis using r by simp
  qed
  ultimately show ?thesis by (simp add: row_fits_def list_all_iff)
qed

text \<open>The check on \<open>id\<close> leaves room for one configuration row.\<close>

lemma single_row:
  assumes "list_all (row_fits (columns_at schema_0001 ''app_config'')) rows"
    and "satisfied sc rows (PrimaryKey [''id''])" and "satisfied sc rows (Check ''id'')"
  shows "length rows \<le> 1"
proof -
  obtain cols where cols: "columns_at schema_0001 ''app_config'' = defaulted ''id'' BOOLEAN (VBool True) # cols"
    using shapes_0001(8,9) by (metis list.collapse)
  have "project [''id''] r = [VBool True]" if "r \<in> set rows" for r
  proof -
    have "value_fits r (defaulted ''id'' BOOLEAN (VBool True))"
      using assms(1) that unfolding cols by (auto simp: list_all_iff row_fits_def)
    then obtain v where v: "dget r ''id'' = Some v" "has_type v BOOLEAN" "v \<noteq> VNull"
      by (auto simp: value_fits_def defaulted_def split: option.splits)
    moreover have "v \<noteq> VBool False" using assms(3) that v(1) by (auto simp: list_all_iff)
    ultimately show ?thesis by (cases v) (auto simp: project_def)
  qed
  then have "map (project [''id'']) rows = replicate (length rows) [VBool True]"
    by (simp add: map_replicate_const [symmetric])
  with assms(2) have "distinct (replicate (length rows) [VBool True])" by simp
  then show ?thesis by (cases rows; cases "tl rows") auto
qed

text \<open>What a well-formed database at the first revision gives.\<close>

lemma well_formed_0001:
  assumes "schema_ok (with_rows f schema_0001)"
  shows "t \<in> set (''app_config'' # identity_tables) \<Longrightarrow> list_all (row_fits (columns_at schema_0001 t)) (f t)"
    and "t \<in> set (''app_config'' # identity_tables) \<Longrightarrow> k \<in> set (constraints_at schema_0001 t) \<Longrightarrow>
      satisfied (with_rows f schema_0001) (f t) k"
    and "t \<in> set (''app_config'' # identity_tables) \<Longrightarrow> orgless (f t)"
    and "length (f ''app_config'') \<le> 1"
proof -
  have all: "\<forall>t \<in> set (''app_config'' # identity_tables).
      list_all (row_fits (columns_at schema_0001 t)) (f t) \<and>
      list_all (satisfied (with_rows f schema_0001) (f t)) (constraints_at schema_0001 t)"
    using assms unfolding schema_ok_with_rows [OF schema_shapes(1)] shapes_0001(1) .
  show fits: "list_all (row_fits (columns_at schema_0001 t)) (f t)"
    if "t \<in> set (''app_config'' # identity_tables)" for t
    using all that by blast
  show sat: "satisfied (with_rows f schema_0001) (f t) k"
    if "t \<in> set (''app_config'' # identity_tables)" "k \<in> set (constraints_at schema_0001 t)" for t k
    using all that by (metis list_all_iff)
  show "orgless (f t)" if t: "t \<in> set (''app_config'' # identity_tables)"
  proof -
    have "''org_id'' \<notin> set (map co_name (columns_at schema_0001 t))"
      using shapes_0001(7) t unfolding list_all_iff by blast
    then show ?thesis
      using fits [OF t] row_fits_in_org(1) unfolding orgless_def list_all_iff by blast
  qed
  show "length (f ''app_config'') \<le> 1"
    by (rule single_row [OF fits sat sat]) (simp_all add: shapes_0001)
qed

lemma carried_constraints:
  assumes ok: "schema_ok (with_rows f schema_0001)"
  shows "satisfied sc (map (\<lambda>r. dpop r ''id'') (map in_org (f ''app_config''))) (PrimaryKey [''org_id''])"
    and "satisfied sc (map in_org (f ''tenants'')) (PrimaryKey [''org_id'', ''tid''])"
    and "satisfied sc (map in_org (f ''users'')) (PrimaryKey [''org_id'', ''username'', ''tid''])"
    and "satisfied sc (map in_org (f ''service_principals'')) (PrimaryKey [''org_id'', ''name'', ''tid''])"
    and "satisfied sc (map in_org (f ''client_apps'')) (PrimaryKey [''org_id'', ''audience'', ''tid''])"
    and "t \<in> {''users'', ''service_principals'', ''client_apps''} \<Longrightarrow>
      rows_of sc ''tenants'' = map in_org (f ''tenants'') \<Longrightarrow>
      satisfied sc (map in_org (f t)) (ForeignKey [''org_id'', ''tid''] ''tenants'' [''org_id'', ''tid''])"
proof -
  note facts = well_formed_0001 [OF ok]
  show "satisfied sc (map (\<lambda>r. dpop r ''id'') (map in_org (f ''app_config''))) (PrimaryKey [''org_id''])"
  proof -
    have "keyed [''org_id''] (dpop (in_org r) ''id'')" if "r \<in> set (f ''app_config'')" for r
      using facts(3) [of "''app_config''"] that
      by (auto simp: keyed_def project_def in_org_def orgless_def map_add_def)
    moreover have "distinct (map p (f ''app_config''))" for p :: "row \<Rightarrow> sql_val list"
      using facts(4) by (cases "f ''app_config''") auto
    ultimately show ?thesis by (simp add: list_all_iff comp_def)
  qed
  show "satisfied sc (map in_org (f ''tenants'')) (PrimaryKey [''org_id'', ''tid''])"
    "satisfied sc (map in_org (f ''users'')) (PrimaryKey [''org_id'', ''username'', ''tid''])"
    "satisfied sc (map in_org (f ''service_principals'')) (PrimaryKey [''org_id'', ''name'', ''tid''])"
    "satisfied sc (map in_org (f ''client_apps'')) (PrimaryKey [''org_id'', ''audience'', ''tid''])"
    by (rule primary_key_in_org [OF facts(3) _ facts(2)]; simp add: shapes_0001 identity_tables_def)+
  show "satisfied sc (map in_org (f t)) (ForeignKey [''org_id'', ''tid''] ''tenants'' [''org_id'', ''tid''])"
    if t: "t \<in> {''users'', ''service_principals'', ''client_apps''}"
      and tn: "rows_of sc ''tenants'' = map in_org (f ''tenants'')"
  proof (rule foreign_key_in_org [where sc = "with_rows f schema_0001"])
    have "''tenants'' \<in> set (dkeys (sc_tables schema_0001))"
      unfolding shapes_0001(1) identity_tables_def by simp
    then have "rows_of (with_rows f schema_0001) ''tenants'' = f ''tenants''"
      by (intro rows_of_with_rows) simp
    then show "orgless (rows_of (with_rows f schema_0001) ''tenants'')"
      "rows_of sc ''tenants'' = map in_org (rows_of (with_rows f schema_0001) ''tenants'')"
      using facts(3) tn by (simp_all add: identity_tables_def)
    show "orgless (f t)" using facts(3) t by (auto simp: identity_tables_def)
    show "satisfied (with_rows f schema_0001) (f t) (ForeignKey [''tid''] ''tenants'' [''tid''])"
      using t by (intro facts(2)) (auto simp: identity_tables_def shapes_0001)
  qed simp_all
qed

text \<open>
  C39: The second migration keeps a populated database. On any well-formed database at the first
  revision, whatever its rows, the upgrade succeeds; every tenant, user, service principal and
  client application is kept with its columns and now belongs to the organisation \<open>default\<close>, the
  configuration row loses its \<open>id\<close>, the audit log starts empty, and the new state is well formed
  again: the new keys and references hold.
\<close>
theorem upgrade_keeps_rows:
  assumes ok: "schema_ok (with_rows f schema_0001)"
  shows "run_migrations upgrade_0002 (with_rows f schema_0001) = (Inr (), with_rows (carried f) schema_0002) \<and>
    schema_ok (with_rows (carried f) schema_0002)"
proof
  note sat = carried_constraints [OF ok] and facts = well_formed_0001 [OF ok]
  have "run_steps upgrade_0002 (with_rows f schema_0001) = Inr (with_rows (carried f) schema_0002)"
    by (rule upgrade_0002_carries) (fact sat)+
  then show "run_migrations upgrade_0002 (with_rows f schema_0001) = (Inr (), with_rows (carried f) schema_0002)"
    by (simp add: run_migrations_def)
  have tenants: "rows_of (with_rows (carried f) schema_0002) ''tenants'' = map in_org (f ''tenants'')"
    by (subst rows_of_with_rows) (auto simp: carried_def schema_shapes(2) simp flip: list.set_map)
  have identity: "list_all (row_fits (columns_at schema_0002 t)) (map in_org (f t))"
    if t: "t \<in> set identity_tables" for t
  proof -
    have c: "columns_at schema_0002 t = columns_at schema_0001 t @ [org_column]"
      "''org_id'' \<notin> set (map co_name (columns_at schema_0001 t))"
      using shapes_0002(9) shapes_0001(7) t unfolding list_all_iff by (blast, simp)
    from facts(1) [of t] t row_fits_in_org(2) [OF _ c(2)] show ?thesis
      unfolding c(1) by (auto simp: list_all_iff)
  qed
  have config: "list_all (row_fits (columns_at schema_0002 ''app_config''))
      (map (\<lambda>r. dpop (in_org r) ''id'') (f ''app_config''))"
  proof -
    let ?cols = "columns_at schema_0001 ''app_config''"
    have split: "?cols = hd ?cols # tl ?cols" "co_name (hd ?cols) = ''id''"
      by (rule list.collapse [OF shapes_0001(9), symmetric]) (simp add: shapes_0001(8) defaulted_def)
    have no: "''org_id'' \<notin> set (map co_name ?cols)" using shapes_0001(7) by simp
    have "row_fits (tl ?cols @ [org_column]) (dpop (in_org r) ''id'')" if "row_fits ?cols r" for r
    proof -
      have "row_fits (hd ?cols # tl ?cols @ [org_column]) (in_org r)"
        using row_fits_in_org(2) [OF that no] split(1) by (metis append_Cons)
      moreover have "co_name (hd ?cols) \<notin> set (map co_name (tl ?cols @ [org_column]))"
        using shapes_0001(10) split(2) by (subst (asm) split(1)) (simp add: org_column_def defaulted_def)
      ultimately show ?thesis using row_fits_dpop split(2) by metis
    qed
    then show ?thesis using facts(1) [of "''app_config''"] by (simp add: shapes_0002(10) list_all_iff)
  qed
  show "schema_ok (with_rows (carried f) schema_0002)"
    unfolding schema_ok_with_rows [OF shapes_0002(1)] shapes_0002(2)
    using config identity sat(1) [of "with_rows (carried f) schema_0002"] sat(2-5) sat(6) [OF _ tenants]
    by (simp add: identity_tables_def shapes_0002(3-8) carried_def comp_def del: satisfied.simps) simp
qed

section \<open>No way back\<close>

text \<open>No key of \<open>tenants\<close> is on \<open>tid\<close> alone: a reference to \<open>tenants(tid)\<close> cannot be made.\<close>

definition no_tid_key :: "schema \<Rightarrow> bool" where
  "no_tid_key sc = list_all (\<lambda>k. \<not> is_key_on [''tid''] k) (constraints_at sc ''tenants'')"

definition keeps_tid :: "step \<Rightarrow> bool" where
  "keeps_tid s = (\<forall>sc sc'. no_tid_key sc \<longrightarrow> s sc = Inr sc' \<longrightarrow> no_tid_key sc')"

definition fails_without_tid_key :: "step \<Rightarrow> bool" where
  "fails_without_tid_key s = (\<forall>sc. no_tid_key sc \<longrightarrow> (\<exists>e. s sc = Inl e))"

lemma alter_other:
  "alter t F sc = Inr sc' \<Longrightarrow> u \<noteq> t \<Longrightarrow> constraints_at sc' u = constraints_at sc u"
  by (auto simp: alter_def constraints_at_def bindE_eq_Inr split: option.splits)

lemma keeps_tid_alter:
  assumes "t \<noteq> ''tenants''" and "\<And>sc sc'. s sc = Inr sc' \<Longrightarrow> \<exists>F. alter t F sc = Inr sc'"
  shows "keeps_tid s"
proof -
  have "constraints_at sc' ''tenants'' = constraints_at sc ''tenants''" if "s sc = Inr sc'" for sc sc'
    using assms(2) [OF that] alter_other assms(1) by metis
  then show ?thesis by (simp add: keeps_tid_def no_tid_key_def)
qed

lemma keeps_tid_steps:
  "keeps_tid (drop_index_if_exists i)"
  "keeps_tid (drop_table_if_exists t)"
  "t \<noteq> ''tenants'' \<Longrightarrow> keeps_tid (drop_constraint ie t n)"
  "t \<noteq> ''tenants'' \<Longrightarrow> keeps_tid (add_constraint t n k)"
  "t \<noteq> ''tenants'' \<Longrightarrow> keeps_tid (delete_where t c v)"
proof -
  show "keeps_tid (drop_index_if_exists i)"
    by (auto simp: keeps_tid_def no_tid_key_def constraints_at_def drop_index_if_exists_def)
  show "keeps_tid (drop_table_if_exists t)"
    by (auto simp: keeps_tid_def no_tid_key_def constraints_at_def drop_table_if_exists_def split: if_splits)
  show "keeps_tid (drop_constraint ie t n)" "keeps_tid (add_constraint t n k)" "keeps_tid (delete_where t c v)"
    if t: "t \<noteq> ''tenants''"
    by (rule keeps_tid_alter [OF t], simp only: drop_constraint_def add_constraint_def delete_where_def, blast)+
qed

lemma no_reference_to_tid:
  "t \<noteq> ''tenants'' \<Longrightarrow>
   fails_without_tid_key (add_constraint t n (ForeignKey [''tid''] ''tenants'' [''tid'']))"
proof -
  have "\<not> referable sc (ForeignKey [''tid''] ''tenants'' [''tid''])" if "no_tid_key sc" for sc
    using that by (auto simp: no_tid_key_def constraints_at_def list_all_iff list_ex_iff case_prod_unfold split: option.splits)
  then show ?thesis
    unfolding fails_without_tid_key_def add_constraint_def alter_def
    by (auto split: option.splits simp del: referable.simps satisfied.simps)
qed

lemma fails_Cons:
  "fails_without_tid_key s \<Longrightarrow> fails_without_tid_key (run_steps (s # ss))"
  "keeps_tid s \<Longrightarrow> fails_without_tid_key (run_steps ss) \<Longrightarrow> fails_without_tid_key (run_steps (s # ss))"
proof -
  show "fails_without_tid_key s \<Longrightarrow> fails_without_tid_key (run_steps (s # ss))"
    by (fastforce simp: fails_without_tid_key_def)
  assume s: "keeps_tid s" and ss: "fails_without_tid_key (run_steps ss)"
  show "fails_without_tid_key (run_steps (s # ss))"
    unfolding fails_without_tid_key_def
  proof (intro allI impI)
    fix sc assume sc: "no_tid_key sc"
    show "\<exists>e. run_steps (s # ss) sc = Inl e"
    proof (cases "s sc")
      case (Inr sc')
      then have "no_tid_key sc'" using s sc by (auto simp: keeps_tid_def)
      with ss Inr show ?thesis by (simp add: fails_without_tid_key_def)
    qed simp
  qed
qed

lemma downgrade_0002_fails: "fails_without_tid_key (run_steps downgrade_0002)"
  unfolding downgrade_0002_def
  by ((rule fails_Cons(1), rule no_reference_to_tid, simp; fail) | (rule fails_Cons(2), simp add: keeps_tid_steps))+

lemma downgrade_from_head_fails: "fails_without_tid_key (run_steps (downgrade_0003 @ downgrade_0002))"
  unfolding downgrade_0003_def append.simps
  by (rule fails_Cons(2), simp add: keeps_tid_steps)+ (rule downgrade_0002_fails)

lemma constraints_with_rows: "constraints_at (with_rows f sc) t = constraints_at sc t"
  by (simp add: constraints_at_def with_rows_get split: option.split)

lemma no_tid_key_migrated: "no_tid_key schema_0002" "no_tid_key schema_head"
  by code_simp+

text \<open>
  C40: The second migration cannot be undone: \<open>downgrade()\<close> restores the references to \<open>tenants(tid)\<close>
  before it restores the key they need, which the server refuses. Whatever the rows, downgrading
  from the second revision, or from head past it, ends in an error and leaves the database as it was.
\<close>
theorem downgrade_impossible:
  "(\<exists>e. run_migrations downgrade_0002 (with_rows f schema_0002) = (Inl e, with_rows f schema_0002)) \<and>
   (\<exists>e. run_migrations (downgrade_0003 @ downgrade_0002) (with_rows f schema_head) =
      (Inl e, with_rows f schema_head))"
proof -
  have no: "no_tid_key (with_rows f schema_0002)" "no_tid_key (with_rows f schema_head)"
    using no_tid_key_migrated by (simp_all add: no_tid_key_def constraints_with_rows)
  have "\<exists>e. run_steps downgrade_0002 (with_rows f schema_0002) = Inl e"
    "\<exists>e. run_steps (downgrade_0003 @ downgrade_0002) (with_rows f schema_head) = Inl e"
    using downgrade_0002_fails downgrade_from_head_fails no unfolding fails_without_tid_key_def by blast+
  then show ?thesis by (auto simp: run_migrations_def)
qed

section \<open>On concrete data\<close>

definition demo_rows_0001 :: "string \<Rightarrow> row list" where
  "demo_rows_0001 t =
     (if t = ''app_config'' then [full_row (columns_at schema_0001 t) []]
      else if t = ''tenants'' then [full_row (columns_at schema_0001 t) [(''tid'', VText ''t1'')]]
      else if t = ''users'' then
        [full_row (columns_at schema_0001 t)
           [(''username'', VText ''alice''), (''tid'', VText ''t1''), (''password'', VText ''pw'')]]
      else [])"

lemma upgrade_keeps_rows_witness:
  "run_migrations upgrade_0002 (with_rows demo_rows_0001 schema_0001) =
     (Inr (), with_rows (carried demo_rows_0001) schema_0002) \<and>
   rows_of (with_rows (carried demo_rows_0001) schema_0002) ''tenants'' =
     [[(''tid'', VText ''t1''), (''provider'', VText ''entra_id''), (''org_id'', VText ''default'')]]"
proof
  have "schema_ok (with_rows demo_rows_0001 schema_0001)" by code_simp
  from upgrade_keeps_rows [OF this]
  show "run_migrations upgrade_0002 (with_rows demo_rows_0001 schema_0001) =
     (Inr (), with_rows (carried demo_rows_0001) schema_0002)" ..
  show "rows_of (with_rows (carried demo_rows_0001) schema_0002) ''tenants'' =
     [[(''tid'', VText ''t1''), (''provider'', VText ''entra_id''), (''org_id'', VText ''default'')]]"
    by code_simp
qed

text \<open>The engine's URL is a fixed point of the derivation.\<close>

lemma get_url_idem:
  assumes "get_url (Some u) = Inr v"
  shows "get_url (Some v) = Inr v"
proof -
  have "\<not> prefix ''postgres://'' (''postgresql+asyncpg://'' @ w)"
    "\<not> prefix ''postgresql://'' (''postgresql+asyncpg://'' @ w)" for w
    by simp_all
  with assms show ?thesis
    unfolding get_url_def Let_def by (auto split: if_splits)
qed

end
