(* ===== verification/Spec2Isabelle.thy ===== *)
theory Spec2Isabelle
  imports ConfigErrors TokenProperties Introspection Fixtures Faults PgAudit ReloadRace KeyLock OrgResolver
    OrgLife HostedDemo AdminProperties ServedData Routes OrgRace MigrationProperties
begin

text \<open>
  A verification development of mock-idp, a mock OpenID Connect identity provider written in Python
  (\<open>src/mock_idp/\<close>, its database migrations in \<open>alembic/\<close>).

  \<^bold>\<open>The program.\<close> One process serves any number of issuers. A request names an issuer and presents a
  grant; the token handler authenticates the user or service principal, checks that it may have a
  token for the audience, asks a provider (Entra ID, Okta, Cognito, Keycloak) for the claims in that
  provider's shape, signs them with the issuer's key, records the event and calls the webhooks. The
  identities come from an identity store, a YAML file or a Postgres database, that can be reloaded
  while requests are served. Keys are made on first use. A fault store makes chosen issuers
  misbehave. In the hosted mode a registry adds organisations, each with an API key, a store of its
  own and keys kept in the database, behind a second router. An administration API rotates keys,
  reloads, injects faults, pages through the audit log and provisions organisations; debug pages
  show tokens and identities. Three migrations create the tables.

  \<^bold>\<open>How it is modelled.\<close> A handler is a program of the state-and-exception monad of Prelude: a function
  from the world to a world and either a value or an exception, so every early return and every
  \<open>HTTPException\<close> of the source is a branch, and what was already done when an exception is raised
  stays done. Dicts are association lists in insertion order, JSON values a datatype, a Python \<open>str\<close>
  a list of characters below 256. The clock, the random draws, the UUIDs, new key material and the
  environment variables are arguments (the record \<open>env\<close> of TokenHandler, the generators in the key
  stores). Third-party code is a parameter with its documented behaviour as a named predicate:
  joserfc (\<open>jwt_lawful\<close>), the PEM serialisation (\<open>codec_lawful\<close>), Pydantic's construction of the
  models (\<open>pydantic_lawful\<close>), Starlette's choice of a route (\<open>router_lawful\<close>); each is instantiated by a concrete function in a witness. SHA-256 and
  HMAC, base64url, \<open>json.dumps\<close> and \<open>json.loads\<close> are the standard library's and are defined, so
  that they evaluate.

  \<^bold>\<open>The theories, in the order of the code.\<close>
  \<^item> Prelude, PyData, Codec, JsonText, Sha256: strings, dicts, exceptions, conversions, base64url, JSON
    text, SHA-256 on 32-bit words. The JSON parser has fuel; \<open>loads\<close> gives it the length of the
    text plus one, and every call consumes a character, so it never runs out on a text \<open>dumps\<close>
    wrote (the round trip is proved).
  \<^item> Models (\<open>models.py\<close>), StoreData, YamlStore, ConfigErrors, Config (\<open>store/__init__.py\<close>, \<open>store/yaml_store.py\<close>,
    \<open>config.py\<close>): records and validators, secret resolution, the linter, loading and the in-place
    application of a configuration, the message a rejected one is reported with and the close match
    of \<open>difflib\<close> it suggests; the locale \<open>identity_store\<close> is the contract of a backend.
  \<^item> Database, PgStore, PgAudit, PgReload, ReloadRace (\<open>store/pg_store.py\<close>): the tables, the statements the program
    issues, each of which may fail, the cache and what a reload leaves in it, the audit log and its
    pages, and reloads interleaved at their statements.
  \<^item> Keys, KeyLock (\<open>keys.py\<close>): key bundles, rotation, publication, and the double-checked locking of
    \<open>_get\<close> as a step relation over threads; the locale \<open>key_resolver\<close> is the contract of the signing
    keys the handlers rely on.
  \<^item> Jwt, Tokens, Providers, Chaos, Webhooks (\<open>tokens.py\<close>, \<open>providers/\<close>, \<open>chaos.py\<close>, \<open>webhooks.py\<close>):
    shape, audience, lifetime, roles, overrides, signing and verification; the claims of the four
    providers under the locale \<open>claims_provider\<close>; faults; deliveries.
  \<^item> TokenHandler, Issuance, Oidc, TokenEndpoint, Demo, TokenProperties, Introspection, Fixtures, Faults
    (\<open>token_handler.py\<close>, \<open>routers/oidc.py\<close>): all handlers, the closed form of issuing and the
    inversion of a successful run, the flat router on the module configuration and global keys, and
    the properties of the endpoints. Demo is the concrete configuration the closed instances use.
  \<^item> OrgKeys, OrgResolver, OrgRegistry, OrgLife, OrgRace (\<open>org_registry.py\<close>): keys of an organisation
    over the database and across restarts, the registry under any sequence of calls and failing
    statements, and \<open>_load_or_create\<close> interleaved at its awaits.
  \<^item> Hosted, HostedRefinement, HostedAccess, HostedKeys, HostedDemo (\<open>routers/hosted.py\<close>): the routes,
    their refinement of the shared token handler, who is let in, and who can verify the tokens.
  \<^item> Admin, AdminProperties, ServedData (\<open>routers/admin.py\<close>, \<open>main.py\<close>): the state of the whole process,
    the routes, start and shutdown, and the types of what is served over any history of reloads.
  \<^item> Debug (\<open>routers/debug.py\<close>): the three pages. Routes (\<open>main.py\<close>, \<open>ratelimit.py\<close>,
    \<open>routers/playground.py\<close>): the routes of all routers in the order they are mounted.
  \<^item> Schema, Migrations, MigrationProperties (\<open>alembic/versions/\<close>, \<open>alembic/env.py\<close>): tables with rows
    and constraints, the DDL of the migrations, upgrading and downgrading.

  \<^bold>\<open>What is shown.\<close> Only authenticated requests get tokens, in strict mode only for audiences they are
  entitled to; a refused request leaves no trace; a token verifies against its issuer and no other,
  on the flat and on the hosted router; introspection answers what was issued; the negative fixtures
  and the faults never hand out a token that verifies; the audit log returns what was written, page
  by page, and terminates; reloads serve exactly the rows of one organisation, and overlapping ones agree while nobody writes
  these; the key lock neither
  duplicates nor deadlocks; keys survive a restart; the hosted endpoint refines the shared one; the
  sandbox limit is a sliding window; the registry keeps its invariant; the admin API needs its token;
  the debug pages do not depend on secrets; the migrations keep rows. Several theorems state what the
  code does where that is not what it means to do: a reload overtaken by a write and another reload
  restores what was there before, concurrent first loads of an organisation's keys
  lose one of them, a process on Postgres starts with the built-in token, ES256 keys outlive a
  rotation, removal leaves identities behind, no organisation's configuration can be uploaded, and
  the second migration cannot be undone.

  \<^bold>\<open>Bounds.\<close> Paging and the JSON parser take fuel; \<open>audit_pagination\<close> and the JSON round trip say how
  much is enough. OrgRace and ReloadRace take the schedule of the tasks as
  a list of any length. The key lock and the
  registry are step relations and sequences of any length.

  \<^bold>\<open>Not modelled.\<close> Requests of the hosted router run one at a time (their interleaving is modelled for
  \<open>_load_or_create\<close> and for reloads only). FastAPI's form and body parsing, its CORS and metrics middleware, its
  redirects and the slowapi limiter are third-party code. \<open>_redact_dsn\<close> only shapes a log line. \<open>difflib\<close>'s
  heuristic for strings of 200 characters and more is left out. Floats
  in JSON bodies and characters from 256 on are outside the value model. Alembic's offline mode
  prints SQL and does not run it.
\<close>

end
